theory Spec2Isabelle
  imports Main
begin

section \<open>Workflow engine (backend/app/core/workflow.py): data model\<close>

text \<open>
  The engine keeps Python dictionaries; the model gives each dictionary shape a record.
  Identifiers are strings. The enumerations \<open>WorkflowStatus\<close>, \<open>TaskStatus\<close> and
  \<open>ApprovalStatus\<close> are datatypes with the constructors of the source.

  Free-form values (\<open>Dict[str, Any]\<close>) are JSON-like values; a Python dict is an
  association list in insertion order, and \<open>d[k] = v\<close> is \<open>dict_set\<close>.
\<close>

type_synonym ident = string

datatype workflow_status = CREATED | RUNNING | WAITING | COMPLETED | FAILED | CANCELLED

datatype task_status =
  T_PENDING | T_RUNNING | T_WAITING_APPROVAL | T_WAITING_INPUT
  | T_COMPLETED | T_FAILED | T_CANCELLED | T_SKIPPED

datatype approval_status = A_PENDING | A_APPROVED | A_REJECTED | A_DELEGATED

datatype val =
  VNone
  | VBool bool
  | VInt int
  | VStr string
  | VList "val list"
  | VDict "(string \<times> val) list"

type_synonym dict = "(string \<times> val) list"

fun dict_set :: "dict \<Rightarrow> string \<Rightarrow> val \<Rightarrow> dict" where
  "dict_set [] k v = [(k, v)]"
| "dict_set ((k', v') # d) k v = (if k' = k then (k, v) # d else (k', v') # dict_set d k v)"

fun dict_get :: "dict \<Rightarrow> string \<Rightarrow> val option" where
  "dict_get [] k = None"
| "dict_get ((k', v') # d) k = (if k' = k then Some v' else dict_get d k)"

text \<open>
  The \<open>ValueError\<close>s of the source: what was not found, or the status that did not
  allow the call.
\<close>

datatype error =
  TemplateNotFound ident
  | WorkflowNotFound ident
  | TaskNotFound ident
  | ApprovalNotFound ident
  | WorkflowStateError workflow_status
  | TaskStateError task_status
  | ApprovalStateError approval_status

fun is_not_found :: "error \<Rightarrow> bool" where
  "is_not_found (TemplateNotFound _) = True"
| "is_not_found (WorkflowNotFound _) = True"
| "is_not_found (TaskNotFound _) = True"
| "is_not_found (ApprovalNotFound _) = True"
| "is_not_found _ = False"

fun is_invalid_state :: "error \<Rightarrow> bool" where
  "is_invalid_state (WorkflowStateError _) = True"
| "is_invalid_state (TaskStateError _) = True"
| "is_invalid_state (ApprovalStateError _) = True"
| "is_invalid_state _ = False"

text \<open>
  \<open>str(e)\<close> of the \<open>ValueError\<close>s that \<open>complete_task\<close> raises, as \<open>_execute_task\<close>
  records it in the history; \<open>complete_task\<close> raises no other. The status classes are
  \<open>(str, Enum)\<close>: an f-string prints a member as \<open>TaskStatus.COMPLETED\<close> (Python 3.11
  and later; before that, as its value \<open>completed\<close>).
\<close>

fun task_status_str :: "task_status \<Rightarrow> string" where
  "task_status_str T_PENDING = ''TaskStatus.PENDING''"
| "task_status_str T_RUNNING = ''TaskStatus.RUNNING''"
| "task_status_str T_WAITING_APPROVAL = ''TaskStatus.WAITING_APPROVAL''"
| "task_status_str T_WAITING_INPUT = ''TaskStatus.WAITING_INPUT''"
| "task_status_str T_COMPLETED = ''TaskStatus.COMPLETED''"
| "task_status_str T_FAILED = ''TaskStatus.FAILED''"
| "task_status_str T_CANCELLED = ''TaskStatus.CANCELLED''"
| "task_status_str T_SKIPPED = ''TaskStatus.SKIPPED''"

fun error_str :: "error \<Rightarrow> string" where
  "error_str (WorkflowNotFound i) = ''Workflow nicht gefunden: '' @ i"
| "error_str (TaskNotFound i) = ''Task nicht gefunden: '' @ i"
| "error_str (TaskStateError st) =
     ''Task kann nicht abgeschlossen werden, Status: '' @ task_status_str st"
| "error_str _ = []"

record approval =
  a_id :: ident
  a_approver :: string
  a_status :: approval_status
  a_comment :: string

text \<open>
  A task's \<open>data\<close> is a reference to a dict object: \<open>create_workflow\<close> stores the
  object it reads from the template, and \<open>provide_input\<close> writes into it. The model
  keeps these objects in a store, \<open>data_heap\<close>, and a task holds the address.
\<close>

record task =
  t_id :: ident
  t_name :: string
  t_description :: string
  t_type :: string
  t_status :: task_status
  t_assignee :: "string option"
  t_approvers :: "string list"
  t_data :: nat
  t_dependencies :: "ident list"
  t_result :: "val option"
  t_approvals :: "approval list"

record event =
  e_id :: ident
  e_type :: string
  e_data :: dict

record workflow =
  w_id :: ident
  w_template_id :: ident
  w_name :: string
  w_description :: string
  w_status :: workflow_status
  w_tasks :: "task list"
  w_data :: dict
  w_current_task_index :: nat
  w_history :: "event list"

text \<open>
  A template is a dict read with \<open>.get(key, default)\<close>: every key is optional.
  \<open>tt_id\<close> is an \<open>id\<close> key a template task may carry; \<open>create_workflow\<close> never
  reads it.
\<close>

record task_template =
  tt_id :: "ident option"
  tt_name :: "string option"
  tt_description :: "string option"
  tt_type :: "string option"
  tt_assignee :: "string option"
  tt_approvers :: "string list option"
  tt_data :: "nat option"
  tt_dependencies :: "ident list option"

record workflow_template =
  tp_name :: "string option"
  tp_description :: "string option"
  tp_tasks :: "task_template list option"

text \<open>
  A task handler \<open>fn(workflow_id, task_id, data)\<close> is a callback of the caller. It
  returns a result, or it raises: an exception of class \<open>Exception\<close>, or one of the
  exceptions outside that class (\<open>SystemExit\<close>, \<open>KeyboardInterrupt\<close>, \<open>GeneratorExit\<close>:
  the other subclasses of \<open>BaseException\<close>), with \<open>str(e)\<close> as its message. A handler
  is taken to read its arguments and nothing else: it does not write into the data dict
  it is given, does not return that dict object as its result, and does not call the
  engine.

  \<open>uuid.uuid4()\<close> is read from a sequence of strings supplied by the environment:
  \<open>uuid_source\<close> is the sequence and \<open>uuid_count\<close> the number of draws so far.
\<close>

datatype handler_result =
  Returns val
  | Raises_Exception string
  | Raises_BaseException string

type_synonym handler = "ident \<Rightarrow> ident \<Rightarrow> dict \<Rightarrow> handler_result"

record engine =
  workflows :: "ident \<rightharpoonup> workflow"
  workflow_templates :: "ident \<rightharpoonup> workflow_template"
  task_handlers :: "string \<rightharpoonup> handler"
  data_heap :: "nat \<Rightarrow> dict"
  heap_next :: nat
  uuid_source :: "nat \<Rightarrow> ident"
  uuid_count :: nat

definition uuid4 :: "engine \<Rightarrow> ident \<times> engine" where
  "uuid4 s = (uuid_source s (uuid_count s), s\<lparr>uuid_count := Suc (uuid_count s)\<rparr>)"

definition new_dict :: "engine \<Rightarrow> dict \<Rightarrow> nat \<times> engine" where
  "new_dict s d =
     (heap_next s, s\<lparr>data_heap := (data_heap s)(heap_next s := d), heap_next := Suc (heap_next s)\<rparr>)"

text \<open>
  How a call that may run handlers ends: it returns, or an exception that no \<open>except\<close>
  clause of the engine catches goes on to the caller. Either way the engine is left as
  the call has written it up to there.
\<close>

datatype outcome =
  Returned engine
  | Propagated string engine

fun engine_of :: "outcome \<Rightarrow> engine" where
  "engine_of (Returned s) = s"
| "engine_of (Propagated msg s) = s"

fun propagated :: "outcome \<Rightarrow> string option" where
  "propagated (Returned s) = None"
| "propagated (Propagated msg s) = Some msg"

section \<open>Private helpers\<close>

text \<open>
  The private methods index \<open>self.workflows[workflow_id]\<close> directly. Every caller has
  checked the id (or has just stored the workflow), so the \<open>KeyError\<close> branch is dead;
  in the model an unknown id leaves the engine as it is.

  \<open>_trigger_event\<close>, \<open>_notify_assignee\<close> and \<open>_notify_approver\<close> call the listeners and
  notification handlers that have been registered, and write nothing to the engine. The
  model has no call that registers one, so these tables are empty and the three methods
  do nothing. Wall-clock timestamps and the participant list are read by no operation
  below. They are left out.
\<close>

definition upd_workflow :: "engine \<Rightarrow> ident \<Rightarrow> (workflow \<Rightarrow> workflow) \<Rightarrow> engine" where
  "upd_workflow s wid f =
     (case workflows s wid of
        None \<Rightarrow> s
      | Some w \<Rightarrow> s\<lparr>workflows := (workflows s)(wid \<mapsto> f w)\<rparr>)"

definition upd_task :: "engine \<Rightarrow> ident \<Rightarrow> nat \<Rightarrow> (task \<Rightarrow> task) \<Rightarrow> engine" where
  "upd_task s wid i f =
     upd_workflow s wid (\<lambda>w. w\<lparr>w_tasks := (w_tasks w)[i := f (w_tasks w ! i)]\<rparr>)"

text \<open>\<open>_add_history_event\<close>: draw an event id, append the event to the workflow's history.\<close>

definition add_history_event :: "engine \<Rightarrow> ident \<Rightarrow> string \<Rightarrow> dict \<Rightarrow> engine" where
  "add_history_event s wid etype edata =
     (case workflows s wid of
        None \<Rightarrow> s
      | Some w \<Rightarrow>
          (let (eid, s1) = uuid4 s
           in upd_workflow s1 wid
                (\<lambda>w. w\<lparr>w_history := w_history w @ [\<lparr>e_id = eid, e_type = etype, e_data = edata\<rparr>]\<rparr>)))"

text \<open>
  \<open>for i, t in enumerate(workflow["tasks"]): if t["id"] == task_id: ... break\<close>:
  the index of the first task with the id.
\<close>

fun find_task :: "task list \<Rightarrow> ident \<Rightarrow> nat option" where
  "find_task [] tid = None"
| "find_task (t # ts) tid =
     (if t_id t = tid then Some 0 else map_option Suc (find_task ts tid))"

fun find_approval :: "approval list \<Rightarrow> ident \<Rightarrow> nat option" where
  "find_approval [] aid = None"
| "find_approval (a # as) aid =
     (if a_id a = aid then Some 0 else map_option Suc (find_approval as aid))"

text \<open>
  The dependency loop of \<open>_process_next_task\<close>: stop with \<open>False\<close> at the first id
  that names no task, or a task that is not \<open>COMPLETED\<close>.
\<close>

fun dependencies_met :: "task list \<Rightarrow> ident list \<Rightarrow> bool" where
  "dependencies_met ts [] = True"
| "dependencies_met ts (dep_id # deps) =
     (case find_task ts dep_id of
        None \<Rightarrow> False
      | Some j \<Rightarrow>
          if t_status (ts ! j) \<noteq> T_COMPLETED then False else dependencies_met ts deps)"

text \<open>
  The reason \<open>_process_next_task\<close> records when it leaves the workflow waiting:
  \<open>Abh\<close>, a-umlaut (U+00E4), \<open>ngigkeiten nicht erf\<close>, u-umlaut (U+00FC), \<open>llt\<close>.
\<close>

definition dependencies_not_met_reason :: string where
  "dependencies_not_met_reason =
     ''Abh'' @ [CHR 0xE4] @ ''ngigkeiten nicht erf'' @ [CHR 0xFC] @ ''llt''"

text \<open>
  The block that marks a task and its workflow as failed; the source has it three
  times (handler exception, unknown task type, rejected approval) with the task-level
  reason as the only difference.
\<close>

definition fail_task :: "engine \<Rightarrow> ident \<Rightarrow> nat \<Rightarrow> string \<Rightarrow> engine" where
  "fail_task s wid i reason =
     (case workflows s wid of
        None \<Rightarrow> s
      | Some w \<Rightarrow>
          (let task = w_tasks w ! i;
               s1 = upd_task s wid i (\<lambda>t. t\<lparr>t_status := T_FAILED\<rparr>);
               s2 = add_history_event s1 wid ''task_failed''
                      [(''workflow_id'', VStr wid), (''task_id'', VStr (t_id task)),
                       (''task_name'', VStr (t_name task)), (''reason'', VStr reason)];
               s3 = upd_workflow s2 wid (\<lambda>w. w\<lparr>w_status := FAILED\<rparr>)
           in add_history_event s3 wid ''workflow_failed''
                [(''workflow_id'', VStr wid), (''workflow_name'', VStr (w_name w)),
                 (''reason'', VStr (''Task fehlgeschlagen: '' @ t_name task))]))"

section \<open>Task execution: \<open>complete_task\<close>, \<open>_process_next_task\<close>, \<open>_execute_task\<close>\<close>

text \<open>
  The three methods call each other: completing a task without approvers moves the
  cursor and processes the next task, which runs its handler, which completes it.
  In \<open>_execute_task\<close> the \<open>try\<close> block holds the handler call and the call of
  \<open>complete_task\<close>, and the clause is \<open>except Exception\<close>: it catches an \<open>Exception\<close> of
  the handler and a \<open>ValueError\<close> of \<open>complete_task\<close>. Any other exception of the
  handler, of this task or of a task run further down in \<open>complete_task\<close>, passes
  through. Each of the calls between the three methods is the last statement of its
  caller, so an exception that passes through skips no write.
\<close>

function complete_task :: "engine \<Rightarrow> ident \<Rightarrow> ident \<Rightarrow> val \<Rightarrow> error + outcome"
  and process_next_task :: "engine \<Rightarrow> ident \<Rightarrow> outcome"
  and execute_task :: "engine \<Rightarrow> ident \<Rightarrow> ident \<Rightarrow> outcome"
where
  "complete_task s wid tid result =
     (case workflows s wid of
        None \<Rightarrow> Inl (WorkflowNotFound wid)
      | Some w \<Rightarrow>
          (case find_task (w_tasks w) tid of
             None \<Rightarrow> Inl (TaskNotFound tid)
           | Some i \<Rightarrow>
               (let task = w_tasks w ! i in
                if t_status task \<noteq> T_RUNNING \<and> t_status task \<noteq> T_WAITING_INPUT
                then Inl (TaskStateError (t_status task))
                else
                  (let s1 = upd_task s wid i
                              (\<lambda>t. t\<lparr>t_status := T_COMPLETED, t_result := Some result\<rparr>);
                       s2 = add_history_event s1 wid ''task_completed''
                              [(''workflow_id'', VStr wid), (''task_id'', VStr tid),
                               (''task_name'', VStr (t_name task))]
                   in if t_approvers task \<noteq> []
                      then
                        (let s3 = upd_task s2 wid i (\<lambda>t. t\<lparr>t_status := T_WAITING_APPROVAL\<rparr>)
                         in Inr (Returned
                                  (add_history_event s3 wid ''task_waiting_approval''
                                     [(''workflow_id'', VStr wid), (''task_id'', VStr tid),
                                      (''task_name'', VStr (t_name task)),
                                      (''approvers'',
                                       VList (map (\<lambda>a. VStr (a_approver a)) (t_approvals task)))])))
                      else
                        Inr (process_next_task
                               (upd_workflow s2 wid (\<lambda>w. w\<lparr>w_current_task_index := i + 1\<rparr>))
                               wid)))))"
| "process_next_task s wid =
     (case workflows s wid of
        None \<Rightarrow> Returned s
      | Some w \<Rightarrow>
          if w_current_task_index w \<ge> length (w_tasks w)
          then
            Returned
              (add_history_event (upd_workflow s wid (\<lambda>w. w\<lparr>w_status := COMPLETED\<rparr>)) wid
                 ''workflow_completed''
                 [(''workflow_id'', VStr wid), (''workflow_name'', VStr (w_name w))])
          else
            (let task = w_tasks w ! w_current_task_index w in
             if \<not> dependencies_met (w_tasks w) (t_dependencies task)
             then
               Returned
                 (add_history_event (upd_workflow s wid (\<lambda>w. w\<lparr>w_status := WAITING\<rparr>)) wid
                    ''workflow_waiting''
                    [(''workflow_id'', VStr wid), (''workflow_name'', VStr (w_name w)),
                     (''reason'', VStr dependencies_not_met_reason)])
             else
               execute_task
                 (add_history_event
                    (upd_task s wid (w_current_task_index w) (\<lambda>t. t\<lparr>t_status := T_RUNNING\<rparr>))
                    wid ''task_started''
                    [(''workflow_id'', VStr wid), (''task_id'', VStr (t_id task)),
                     (''task_name'', VStr (t_name task))])
                 wid (t_id task)))"
| "execute_task s wid tid =
     (case workflows s wid of
        None \<Rightarrow> Returned s
      | Some w \<Rightarrow>
          (case find_task (w_tasks w) tid of
             None \<Rightarrow> Returned s
           | Some i \<Rightarrow>
               (let task = w_tasks w ! i in
                case task_handlers s (t_type task) of
                  Some handler \<Rightarrow>
                    (case handler wid tid (data_heap s (t_data task)) of
                       Raises_BaseException msg \<Rightarrow> Propagated msg s
                     | Raises_Exception msg \<Rightarrow> Returned (fail_task s wid i msg)
                     | Returns result \<Rightarrow>
                         (case complete_task s wid tid result of
                            Inl e \<Rightarrow> Returned (fail_task s wid i (error_str e))
                          | Inr out \<Rightarrow> out))
                | None \<Rightarrow>
                    if t_type task = ''manual'' then Returned s
                    else if t_type task = ''input'' then
                      Returned
                        (add_history_event
                           (upd_task s wid i (\<lambda>t. t\<lparr>t_status := T_WAITING_INPUT\<rparr>))
                           wid ''task_waiting_input''
                           [(''workflow_id'', VStr wid), (''task_id'', VStr tid),
                            (''task_name'', VStr (t_name task))])
                    else Returned (fail_task s wid i (''Unbekannter Task-Typ: '' @ t_type task)))))"
  by pat_completeness auto

section \<open>Public operations\<close>

text \<open>\<open>dict.get(key, default)\<close> on an optional key.\<close>

fun get_or :: "'a option \<Rightarrow> 'a \<Rightarrow> 'a" where
  "get_or None d = d"
| "get_or (Some x) d = x"

definition register_workflow_template ::
  "engine \<Rightarrow> ident \<Rightarrow> workflow_template \<Rightarrow> engine" where
  "register_workflow_template s template_id template =
     s\<lparr>workflow_templates := (workflow_templates s)(template_id \<mapsto> template)\<rparr>"

definition register_task_handler :: "engine \<Rightarrow> string \<Rightarrow> handler \<Rightarrow> engine" where
  "register_task_handler s task_type h = s\<lparr>task_handlers := (task_handlers s)(task_type \<mapsto> h)\<rparr>"

subsection \<open>\<open>create_workflow\<close>\<close>

text \<open>The inner loop: one pending approval, with a new id, for each approver.\<close>

fun create_approvals :: "engine \<Rightarrow> string list \<Rightarrow> approval list \<times> engine" where
  "create_approvals s [] = ([], s)"
| "create_approvals s (approver # rest) =
     (let (aid, s1) = uuid4 s;
          (as, s2) = create_approvals s1 rest
      in (\<lparr>a_id = aid, a_approver = approver, a_status = A_PENDING, a_comment = []\<rparr> # as, s2))"

text \<open>
  One task from its template. \<open>task_template.get("data", {})\<close> is the template's own
  dict object when the key is there, and a new empty dict otherwise.
\<close>

definition create_task :: "engine \<Rightarrow> task_template \<Rightarrow> task \<times> engine" where
  "create_task s tt =
     (let (tid, s1) = uuid4 s;
          (dref, s2) = (case tt_data tt of Some r \<Rightarrow> (r, s1) | None \<Rightarrow> new_dict s1 []);
          approvers = get_or (tt_approvers tt) [];
          (as, s3) = create_approvals s2 approvers
      in (\<lparr>t_id = tid,
           t_name = get_or (tt_name tt) ''Unbenannte Task'',
           t_description = get_or (tt_description tt) [],
           t_type = get_or (tt_type tt) ''manual'',
           t_status = T_PENDING,
           t_assignee = tt_assignee tt,
           t_approvers = approvers,
           t_data = dref,
           t_dependencies = get_or (tt_dependencies tt) [],
           t_result = None,
           t_approvals = as\<rparr>, s3))"

fun create_tasks :: "engine \<Rightarrow> task_template list \<Rightarrow> task list \<times> engine" where
  "create_tasks s [] = ([], s)"
| "create_tasks s (tt # tts) =
     (let (t, s1) = create_task s tt;
          (ts, s2) = create_tasks s1 tts
      in (t # ts, s2))"

definition create_workflow :: "engine \<Rightarrow> ident \<Rightarrow> dict \<Rightarrow> error + ident \<times> engine" where
  "create_workflow s template_id data =
     (case workflow_templates s template_id of
        None \<Rightarrow> Inl (TemplateNotFound template_id)
      | Some template \<Rightarrow>
          (let (wid, s1) = uuid4 s;
               (tasks, s2) = create_tasks s1 (get_or (tp_tasks template) []);
               workflow = \<lparr>w_id = wid,
                            w_template_id = template_id,
                            w_name = get_or (tp_name template) ''Unbenannter Workflow'',
                            w_description = get_or (tp_description template) [],
                            w_status = CREATED,
                            w_tasks = tasks,
                            w_data = data,
                            w_current_task_index = 0,
                            w_history = []\<rparr>;
               s3 = s2\<lparr>workflows := (workflows s2)(wid \<mapsto> workflow)\<rparr>
           in Inr (wid,
                   add_history_event s3 wid ''workflow_created''
                     [(''template_id'', VStr template_id), (''workflow_id'', VStr wid),
                      (''workflow_name'', VStr (w_name workflow))])))"

subsection \<open>\<open>start_workflow\<close>\<close>

definition start_workflow :: "engine \<Rightarrow> ident \<Rightarrow> error + outcome" where
  "start_workflow s wid =
     (case workflows s wid of
        None \<Rightarrow> Inl (WorkflowNotFound wid)
      | Some w \<Rightarrow>
          if w_status w \<noteq> CREATED then Inl (WorkflowStateError (w_status w))
          else
            (let s1 = upd_workflow s wid (\<lambda>w. w\<lparr>w_status := RUNNING\<rparr>);
                 s2 = add_history_event s1 wid ''workflow_started''
                        [(''workflow_id'', VStr wid), (''workflow_name'', VStr (w_name w))]
             in Inr (process_next_task s2 wid)))"

subsection \<open>\<open>approve_task\<close>\<close>

text \<open>
  The consensus loop: \<open>all_completed\<close> becomes false at the first pending approval
  (and the loop stops there); \<open>any_rejected\<close> becomes true at a rejected one. The
  result is \<open>(all_completed, any_rejected)\<close>; the second argument is \<open>any_rejected\<close>
  so far. \<open>all_approved\<close> is assigned and never read.
\<close>

fun check_approvals :: "approval list \<Rightarrow> bool \<Rightarrow> bool \<times> bool" where
  "check_approvals [] any_rejected = (True, any_rejected)"
| "check_approvals (a # as) any_rejected =
     (if a_status a = A_PENDING then (False, any_rejected)
      else if a_status a = A_REJECTED then check_approvals as True
      else check_approvals as any_rejected)"

definition approve_task ::
  "engine \<Rightarrow> ident \<Rightarrow> ident \<Rightarrow> ident \<Rightarrow> bool \<Rightarrow> string \<Rightarrow> error + outcome" where
  "approve_task s wid tid aid approved comment =
     (case workflows s wid of
        None \<Rightarrow> Inl (WorkflowNotFound wid)
      | Some w \<Rightarrow>
          (case find_task (w_tasks w) tid of
             None \<Rightarrow> Inl (TaskNotFound tid)
           | Some i \<Rightarrow>
               (let task = w_tasks w ! i in
                if t_status task \<noteq> T_WAITING_APPROVAL then Inl (TaskStateError (t_status task))
                else
                  (case find_approval (t_approvals task) aid of
                     None \<Rightarrow> Inl (ApprovalNotFound aid)
                   | Some k \<Rightarrow>
                       (let approval = t_approvals task ! k in
                        if a_status approval \<noteq> A_PENDING
                        then Inl (ApprovalStateError (a_status approval))
                        else
                          (let approvals' = (t_approvals task)
                                 [k := approval\<lparr>a_status := (if approved then A_APPROVED else A_REJECTED),
                                                a_comment := comment\<rparr>];
                               s1 = upd_task s wid i (\<lambda>t. t\<lparr>t_approvals := approvals'\<rparr>);
                               s2 = add_history_event s1 wid
                                      (if approved then ''task_approved'' else ''task_rejected'')
                                      [(''workflow_id'', VStr wid), (''task_id'', VStr tid),
                                       (''task_name'', VStr (t_name task)),
                                       (''approver'', VStr (a_approver approval)),
                                       (''comment'', VStr comment)];
                               (all_completed, any_rejected) = check_approvals approvals' False
                           in if all_completed
                              then
                                (if any_rejected
                                 then Inr (Returned (fail_task s2 wid i ''Genehmigung abgelehnt''))
                                 else
                                   Inr (process_next_task
                                          (upd_workflow s2 wid
                                             (\<lambda>w. w\<lparr>w_current_task_index := i + 1\<rparr>))
                                          wid))
                              else Inr (Returned s2)))))))"

subsection \<open>\<open>delegate_approval\<close>\<close>

definition delegate_approval ::
  "engine \<Rightarrow> ident \<Rightarrow> ident \<Rightarrow> ident \<Rightarrow> string \<Rightarrow> string \<Rightarrow> error + engine" where
  "delegate_approval s wid tid aid new_approver comment =
     (case workflows s wid of
        None \<Rightarrow> Inl (WorkflowNotFound wid)
      | Some w \<Rightarrow>
          (case find_task (w_tasks w) tid of
             None \<Rightarrow> Inl (TaskNotFound tid)
           | Some i \<Rightarrow>
               (let task = w_tasks w ! i in
                if t_status task \<noteq> T_WAITING_APPROVAL then Inl (TaskStateError (t_status task))
                else
                  (case find_approval (t_approvals task) aid of
                     None \<Rightarrow> Inl (ApprovalNotFound aid)
                   | Some k \<Rightarrow>
                       (let approval = t_approvals task ! k in
                        if a_status approval \<noteq> A_PENDING
                        then Inl (ApprovalStateError (a_status approval))
                        else
                          (let (nid, s1) = uuid4 s;
                               new_approval = \<lparr>a_id = nid, a_approver = new_approver,
                                                a_status = A_PENDING, a_comment = []\<rparr>;
                               approvals' = (t_approvals task)
                                 [k := approval\<lparr>a_status := A_DELEGATED, a_comment := comment\<rparr>]
                                 @ [new_approval];
                               s2 = upd_task s1 wid i (\<lambda>t. t\<lparr>t_approvals := approvals'\<rparr>)
                           in Inr (add_history_event s2 wid ''approval_delegated''
                                    [(''workflow_id'', VStr wid), (''task_id'', VStr tid),
                                     (''task_name'', VStr (t_name task)),
                                     (''old_approver'', VStr (a_approver approval)),
                                     (''new_approver'', VStr new_approver),
                                     (''comment'', VStr comment)])))))))"

subsection \<open>\<open>provide_input\<close>\<close>

text \<open>\<open>task["data"]["input"] = input_data\<close> writes into the dict object the task refers to.\<close>

definition provide_input :: "engine \<Rightarrow> ident \<Rightarrow> ident \<Rightarrow> val \<Rightarrow> error + outcome" where
  "provide_input s wid tid input_data =
     (case workflows s wid of
        None \<Rightarrow> Inl (WorkflowNotFound wid)
      | Some w \<Rightarrow>
          (case find_task (w_tasks w) tid of
             None \<Rightarrow> Inl (TaskNotFound tid)
           | Some i \<Rightarrow>
               (let task = w_tasks w ! i in
                if t_status task \<noteq> T_WAITING_INPUT then Inl (TaskStateError (t_status task))
                else
                  (let s1 = upd_task s wid i (\<lambda>t. t\<lparr>t_status := T_RUNNING\<rparr>);
                       s2 = s1\<lparr>data_heap := (data_heap s1)
                               (t_data task := dict_set (data_heap s1 (t_data task)) ''input'' input_data)\<rparr>;
                       s3 = add_history_event s2 wid ''input_provided''
                              [(''workflow_id'', VStr wid), (''task_id'', VStr tid),
                               (''task_name'', VStr (t_name task))]
                   in Inr (execute_task s3 wid tid)))))"

subsection \<open>\<open>cancel_workflow\<close>\<close>

definition cancel_task :: "task \<Rightarrow> task" where
  "cancel_task t =
     (if t_status t = T_PENDING \<or> t_status t = T_RUNNING
         \<or> t_status t = T_WAITING_APPROVAL \<or> t_status t = T_WAITING_INPUT
      then t\<lparr>t_status := T_CANCELLED\<rparr> else t)"

definition cancel_workflow :: "engine \<Rightarrow> ident \<Rightarrow> string \<Rightarrow> error + engine" where
  "cancel_workflow s wid reason =
     (case workflows s wid of
        None \<Rightarrow> Inl (WorkflowNotFound wid)
      | Some w \<Rightarrow>
          if w_status w = COMPLETED \<or> w_status w = FAILED \<or> w_status w = CANCELLED
          then Inl (WorkflowStateError (w_status w))
          else
            (let s1 = upd_workflow s wid (\<lambda>w. w\<lparr>w_status := CANCELLED\<rparr>);
                 s2 = upd_workflow s1 wid (\<lambda>w. w\<lparr>w_tasks := map cancel_task (w_tasks w)\<rparr>)
             in Inr (add_history_event s2 wid ''workflow_cancelled''
                      [(''workflow_id'', VStr wid), (''workflow_name'', VStr (w_name w)),
                       (''reason'', VStr reason)])))"

subsection \<open>\<open>export_workflow\<close> and \<open>import_workflow\<close>\<close>

text \<open>
  \<open>json.loads(json.dumps(workflow))\<close> builds a new object graph: every task gets a
  new dict object holding the contents of its data.
\<close>

fun copy_tasks :: "engine \<Rightarrow> task list \<Rightarrow> task list \<times> engine" where
  "copy_tasks s [] = ([], s)"
| "copy_tasks s (t # ts) =
     (let (r, s1) = new_dict s (data_heap s (t_data t));
          (ts', s2) = copy_tasks s1 ts
      in (t\<lparr>t_data := r\<rparr> # ts', s2))"

definition json_copy :: "engine \<Rightarrow> workflow \<Rightarrow> workflow \<times> engine" where
  "json_copy s w = (let (ts, s1) = copy_tasks s (w_tasks w) in (w\<lparr>w_tasks := ts\<rparr>, s1))"

definition export_workflow :: "engine \<Rightarrow> ident \<Rightarrow> error + workflow \<times> engine" where
  "export_workflow s wid =
     (case workflows s wid of
        None \<Rightarrow> Inl (WorkflowNotFound wid)
      | Some w \<Rightarrow> Inr (json_copy s w))"

text \<open>
  The first loop of \<open>import_workflow\<close>: a new id for every task and every approval,
  each old id entered into \<open>id_mapping\<close> (a later entry for the same key replaces
  the earlier one).
\<close>

fun import_approvals ::
  "engine \<Rightarrow> (ident \<rightharpoonup> ident) \<Rightarrow> approval list \<Rightarrow> approval list \<times> (ident \<rightharpoonup> ident) \<times> engine" where
  "import_approvals s m [] = ([], m, s)"
| "import_approvals s m (a # as) =
     (let (nid, s1) = uuid4 s;
          (as', m', s2) = import_approvals s1 (m(a_id a \<mapsto> nid)) as
      in (a\<lparr>a_id := nid\<rparr> # as', m', s2))"

fun import_tasks ::
  "engine \<Rightarrow> (ident \<rightharpoonup> ident) \<Rightarrow> task list \<Rightarrow> task list \<times> (ident \<rightharpoonup> ident) \<times> engine" where
  "import_tasks s m [] = ([], m, s)"
| "import_tasks s m (t # ts) =
     (let (nid, s1) = uuid4 s;
          (as', m1, s2) = import_approvals s1 (m(t_id t \<mapsto> nid)) (t_approvals t);
          (ts', m2, s3) = import_tasks s2 m1 ts
      in (t\<lparr>t_id := nid, t_approvals := as'\<rparr> # ts', m2, s3))"

text \<open>The second loop: keep the dependency ids that are keys of \<open>id_mapping\<close>, translated.\<close>

definition translate_dependencies :: "(ident \<rightharpoonup> ident) \<Rightarrow> task \<Rightarrow> task" where
  "translate_dependencies m t = t\<lparr>t_dependencies := List.map_filter m (t_dependencies t)\<rparr>"

definition import_workflow :: "engine \<Rightarrow> workflow \<Rightarrow> ident \<times> engine" where
  "import_workflow s workflow_data =
     (let (w, s0) = json_copy s workflow_data;
          old_id = w_id w;
          (new_id, s1) = uuid4 s0;
          (ts, id_mapping, s2) = import_tasks s1 [old_id \<mapsto> new_id] (w_tasks w);
          w' = w\<lparr>w_id := new_id, w_tasks := map (translate_dependencies id_mapping) ts\<rparr>;
          s3 = s2\<lparr>workflows := (workflows s2)(new_id \<mapsto> w')\<rparr>
      in (new_id,
          add_history_event s3 new_id ''workflow_imported''
            [(''workflow_id'', VStr new_id), (''workflow_name'', VStr (w_name w')),
             (''original_id'', VStr old_id)]))"

section \<open>Sequences of calls\<close>

text \<open>
  A call of a public method, as a caller issues it, and the engine after the call. A
  method raises its \<open>ValueError\<close> before its first write, so a call that fails with one
  leaves the engine as it was; a call that an exception of a handler leaves has written
  what it wrote up to there, and a caller that catches the exception goes on with that
  engine. A snapshot returned by \<open>export_workflow\<close> and the id returned by
  \<open>create_workflow\<close> or \<open>import_workflow\<close> go to the caller.
\<close>

datatype operation =
  RegisterTemplate ident workflow_template
  | RegisterHandler string handler
  | CreateWorkflow ident dict
  | StartWorkflow ident
  | CompleteTask ident ident val
  | ApproveTask ident ident ident bool string
  | DelegateApproval ident ident ident string string
  | ProvideInput ident ident val
  | CancelWorkflow ident string
  | ExportWorkflow ident
  | ImportWorkflow workflow

fun apply_op :: "operation \<Rightarrow> engine \<Rightarrow> error + outcome" where
  "apply_op (RegisterTemplate template_id template) s =
     Inr (Returned (register_workflow_template s template_id template))"
| "apply_op (RegisterHandler task_type h) s = Inr (Returned (register_task_handler s task_type h))"
| "apply_op (CreateWorkflow template_id data) s =
     (case create_workflow s template_id data of
        Inl e \<Rightarrow> Inl e
      | Inr (wid, s') \<Rightarrow> Inr (Returned s'))"
| "apply_op (StartWorkflow wid) s = start_workflow s wid"
| "apply_op (CompleteTask wid tid result) s = complete_task s wid tid result"
| "apply_op (ApproveTask wid tid aid approved comment) s = approve_task s wid tid aid approved comment"
| "apply_op (DelegateApproval wid tid aid new_approver comment) s =
     (case delegate_approval s wid tid aid new_approver comment of
        Inl e \<Rightarrow> Inl e
      | Inr s' \<Rightarrow> Inr (Returned s'))"
| "apply_op (ProvideInput wid tid input_data) s = provide_input s wid tid input_data"
| "apply_op (CancelWorkflow wid reason) s =
     (case cancel_workflow s wid reason of
        Inl e \<Rightarrow> Inl e
      | Inr s' \<Rightarrow> Inr (Returned s'))"
| "apply_op (ExportWorkflow wid) s =
     (case export_workflow s wid of
        Inl e \<Rightarrow> Inl e
      | Inr (snapshot, s') \<Rightarrow> Inr (Returned s'))"
| "apply_op (ImportWorkflow workflow_data) s = Inr (Returned (snd (import_workflow s workflow_data)))"

definition exec_op :: "operation \<Rightarrow> engine \<Rightarrow> engine" where
  "exec_op op s = (case apply_op op s of Inl e \<Rightarrow> s | Inr out \<Rightarrow> engine_of out)"

fun run :: "operation list \<Rightarrow> engine \<Rightarrow> engine" where
  "run [] s = s"
| "run (op # ops) s = run ops (exec_op op s)"

text \<open>What a caller reads back with \<open>get_workflow\<close> and \<open>get_task\<close>.\<close>

definition workflow_status_of :: "engine \<Rightarrow> ident \<Rightarrow> workflow_status option" where
  "workflow_status_of s wid = map_option w_status (workflows s wid)"

definition cursor_of :: "engine \<Rightarrow> ident \<Rightarrow> nat option" where
  "cursor_of s wid = map_option w_current_task_index (workflows s wid)"

definition tasks_of :: "engine \<Rightarrow> ident \<Rightarrow> task list" where
  "tasks_of s wid = (case workflows s wid of None \<Rightarrow> [] | Some w \<Rightarrow> w_tasks w)"

definition task_statuses_of :: "engine \<Rightarrow> ident \<Rightarrow> task_status list" where
  "task_statuses_of s wid = map t_status (tasks_of s wid)"

definition history_types_of :: "engine \<Rightarrow> ident \<Rightarrow> string list" where
  "history_types_of s wid = (case workflows s wid of None \<Rightarrow> [] | Some w \<Rightarrow> map e_type (w_history w))"

text \<open>
  An engine as \<open>__init__\<close> leaves it, and a uuid sequence for the examples:
  \<open>u\<close>, \<open>ux\<close>, \<open>uxx\<close>, ...
\<close>

definition demo_uuid :: "nat \<Rightarrow> ident" where
  "demo_uuid n = CHR ''u'' # replicate n (CHR ''x'')"

definition init_engine :: "(nat \<Rightarrow> ident) \<Rightarrow> engine" where
  "init_engine src =
     \<lparr>workflows = Map.empty, workflow_templates = Map.empty, task_handlers = Map.empty,
      data_heap = (\<lambda>_. []), heap_next = 0, uuid_source = src, uuid_count = 0\<rparr>"

section \<open>Example engines\<close>

text \<open>
  A review workflow: a manual check that Alice and Bob must approve, a notification a
  handler sends, and a manual archiving step. \<open>review_engine\<close> is the engine after the
  check has been completed: its id is \<open>ux\<close>, the approvals are \<open>uxx\<close> (Alice) and
  \<open>uxxx\<close> (Bob), the workflow is \<open>u\<close>.
\<close>

definition ok_handler :: handler where
  "ok_handler wid tid d = Returns (VDict [(''ok'', VBool True)])"

definition plain_task :: "string \<Rightarrow> string \<Rightarrow> task_template" where
  "plain_task name type =
     \<lparr>tt_id = None, tt_name = Some name, tt_description = None, tt_type = Some type,
      tt_assignee = None, tt_approvers = None, tt_data = None, tt_dependencies = None\<rparr>"

definition review_template :: workflow_template where
  "review_template =
     \<lparr>tp_name = Some ''review'', tp_description = None,
      tp_tasks = Some [(plain_task ''check'' ''manual'')\<lparr>tt_approvers := Some [''alice'', ''bob'']\<rparr>,
                       plain_task ''notify'' ''auto'',
                       plain_task ''archive'' ''manual'']\<rparr>"

definition review_engine :: engine where
  "review_engine =
     run [RegisterHandler ''auto'' ok_handler,
          RegisterTemplate ''review'' review_template,
          CreateWorkflow ''review'' [],
          StartWorkflow ''u'',
          CompleteTask ''u'' ''ux'' (VDict [])]
       (init_engine demo_uuid)"

text \<open>The workflow \<open>u\<close> of \<open>review_engine\<close>, written out.\<close>

definition review_workflow :: workflow where
  "review_workflow =
     \<lparr>w_id = ''u'', w_template_id = ''review'', w_name = ''review'',
      w_description = [], w_status = RUNNING,
      w_tasks =
        [\<lparr>t_id = ''ux'', t_name = ''check'', t_description = [],
          t_type = ''manual'', t_status = T_WAITING_APPROVAL,
          t_assignee = None, t_approvers = [''alice'', ''bob''],
          t_data = 0, t_dependencies = [], t_result = Some (VDict []),
          t_approvals =
            [\<lparr>a_id = ''uxx'', a_approver = ''alice'', a_status = A_PENDING, a_comment = []\<rparr>,
             \<lparr>a_id = ''uxxx'', a_approver = ''bob'', a_status = A_PENDING, a_comment = []\<rparr>]\<rparr>,
         \<lparr>t_id = ''uxxxx'', t_name = ''notify'', t_description = [],
          t_type = ''auto'', t_status = T_PENDING, t_assignee = None,
          t_approvers = [], t_data = 1, t_dependencies = [],
          t_result = None, t_approvals = []\<rparr>,
         \<lparr>t_id = ''uxxxxx'', t_name = ''archive'', t_description = [],
          t_type = ''manual'', t_status = T_PENDING, t_assignee = None,
          t_approvers = [], t_data = 2, t_dependencies = [],
          t_result = None, t_approvals = []\<rparr>],
      w_data = [], w_current_task_index = 0,
      w_history =
        [\<lparr>e_id = ''uxxxxxx'', e_type = ''workflow_created'',
          e_data = [(''template_id'', VStr ''review''), (''workflow_id'', VStr ''u''),
                    (''workflow_name'', VStr ''review'')]\<rparr>,
         \<lparr>e_id = ''uxxxxxxx'', e_type = ''workflow_started'',
          e_data = [(''workflow_id'', VStr ''u''), (''workflow_name'', VStr ''review'')]\<rparr>,
         \<lparr>e_id = ''uxxxxxxxx'', e_type = ''task_started'',
          e_data = [(''workflow_id'', VStr ''u''), (''task_id'', VStr ''ux''),
                    (''task_name'', VStr ''check'')]\<rparr>,
         \<lparr>e_id = ''uxxxxxxxxx'', e_type = ''task_completed'',
          e_data = [(''workflow_id'', VStr ''u''), (''task_id'', VStr ''ux''),
                    (''task_name'', VStr ''check'')]\<rparr>,
         \<lparr>e_id = ''uxxxxxxxxxx'', e_type = ''task_waiting_approval'',
          e_data = [(''workflow_id'', VStr ''u''), (''task_id'', VStr ''ux''),
                    (''task_name'', VStr ''check''),
                    (''approvers'', VList [VStr ''alice'', VStr ''bob''])]\<rparr>]\<rparr>"

text \<open>
  \<open>review_approved\<close>: Alice and Bob have both approved the check. The notification has
  run and the archiving step is waiting for its assignee.
\<close>

definition review_approved :: engine where
  "review_approved =
     run [ApproveTask ''u'' ''ux'' ''uxx'' True ''ok'', ApproveTask ''u'' ''ux'' ''uxxx'' True ''ok'']
       review_engine"

definition review_approved_workflow :: workflow where
  "review_approved_workflow =
     review_workflow
       \<lparr>w_tasks :=
          [\<lparr>t_id = ''ux'', t_name = ''check'', t_description = [],
            t_type = ''manual'', t_status = T_WAITING_APPROVAL,
            t_assignee = None, t_approvers = [''alice'', ''bob''],
            t_data = 0, t_dependencies = [], t_result = Some (VDict []),
            t_approvals =
              [\<lparr>a_id = ''uxx'', a_approver = ''alice'', a_status = A_APPROVED, a_comment = ''ok''\<rparr>,
               \<lparr>a_id = ''uxxx'', a_approver = ''bob'', a_status = A_APPROVED, a_comment = ''ok''\<rparr>]\<rparr>,
           \<lparr>t_id = ''uxxxx'', t_name = ''notify'', t_description = [],
            t_type = ''auto'', t_status = T_COMPLETED, t_assignee = None,
            t_approvers = [], t_data = 1, t_dependencies = [],
            t_result = Some (VDict [(''ok'', VBool True)]), t_approvals = []\<rparr>,
           \<lparr>t_id = ''uxxxxx'', t_name = ''archive'', t_description = [],
            t_type = ''manual'', t_status = T_RUNNING, t_assignee = None,
            t_approvers = [], t_data = 2, t_dependencies = [],
            t_result = None, t_approvals = []\<rparr>],
        w_current_task_index := 2,
        w_history := w_history review_workflow @
          [\<lparr>e_id = demo_uuid 11, e_type = ''task_approved'',
            e_data = [(''workflow_id'', VStr ''u''), (''task_id'', VStr ''ux''),
                      (''task_name'', VStr ''check''), (''approver'', VStr ''alice''),
                      (''comment'', VStr ''ok'')]\<rparr>,
           \<lparr>e_id = demo_uuid 12, e_type = ''task_approved'',
            e_data = [(''workflow_id'', VStr ''u''), (''task_id'', VStr ''ux''),
                      (''task_name'', VStr ''check''), (''approver'', VStr ''bob''),
                      (''comment'', VStr ''ok'')]\<rparr>,
           \<lparr>e_id = demo_uuid 13, e_type = ''task_started'',
            e_data = [(''workflow_id'', VStr ''u''), (''task_id'', VStr ''uxxxx''),
                      (''task_name'', VStr ''notify'')]\<rparr>,
           \<lparr>e_id = demo_uuid 14, e_type = ''task_completed'',
            e_data = [(''workflow_id'', VStr ''u''), (''task_id'', VStr ''uxxxx''),
                      (''task_name'', VStr ''notify'')]\<rparr>,
           \<lparr>e_id = demo_uuid 15, e_type = ''task_started'',
            e_data = [(''workflow_id'', VStr ''u''), (''task_id'', VStr ''uxxxxx''),
                      (''task_name'', VStr ''archive'')]\<rparr>]\<rparr>"

text \<open>
  A workflow whose first task has a handler that raises. \<open>risky_engine\<close> is the engine
  after \<open>create_workflow\<close>: the workflow is \<open>u\<close>, the task \<open>ux\<close>.
\<close>

definition failing_handler :: handler where
  "failing_handler wid tid d = Raises_Exception ''division by zero''"

definition risky_template :: workflow_template where
  "risky_template =
     \<lparr>tp_name = Some ''risky'', tp_description = None,
      tp_tasks = Some [plain_task ''calc'' ''boom'', plain_task ''after'' ''manual'']\<rparr>"

definition risky_engine :: engine where
  "risky_engine =
     run [RegisterHandler ''boom'' failing_handler,
          RegisterTemplate ''risky'' risky_template,
          CreateWorkflow ''risky'' []]
       (init_engine demo_uuid)"

definition risky_workflow :: workflow where
  "risky_workflow =
     \<lparr>w_id = ''u'', w_template_id = ''risky'', w_name = ''risky'',
      w_description = [], w_status = CREATED,
      w_tasks =
        [\<lparr>t_id = ''ux'', t_name = ''calc'', t_description = [],
          t_type = ''boom'', t_status = T_PENDING, t_assignee = None,
          t_approvers = [], t_data = 0, t_dependencies = [],
          t_result = None, t_approvals = []\<rparr>,
         \<lparr>t_id = ''uxx'', t_name = ''after'', t_description = [],
          t_type = ''manual'', t_status = T_PENDING, t_assignee = None,
          t_approvers = [], t_data = 1, t_dependencies = [],
          t_result = None, t_approvals = []\<rparr>],
      w_data = [], w_current_task_index = 0,
      w_history =
        [\<lparr>e_id = demo_uuid 3, e_type = ''workflow_created'',
          e_data = [(''template_id'', VStr ''risky''), (''workflow_id'', VStr ''u''),
                    (''workflow_name'', VStr ''risky'')]\<rparr>]\<rparr>"

text \<open>
  The same workflow in an engine whose handler for the first task calls \<open>sys.exit\<close>:
  it raises \<open>SystemExit\<close>, which is not an \<open>Exception\<close>.
\<close>

definition exiting_handler :: handler where
  "exiting_handler wid tid d = Raises_BaseException ''shutdown''"

definition exiting_engine :: engine where
  "exiting_engine =
     run [RegisterHandler ''boom'' exiting_handler,
          RegisterTemplate ''risky'' risky_template,
          CreateWorkflow ''risky'' []]
       (init_engine demo_uuid)"

section \<open>What task execution leaves as it was\<close>

text \<open>
  A task without its status and result, and a workflow without its status, cursor,
  history and the status and result of its tasks: the part that \<open>complete_task\<close>,
  \<open>_process_next_task\<close> and \<open>_execute_task\<close> never write.
\<close>

definition task_static :: "task \<Rightarrow> task" where
  "task_static t = t\<lparr>t_status := T_PENDING, t_result := None\<rparr>"

definition workflow_static :: "workflow \<Rightarrow> workflow" where
  "workflow_static w =
     w\<lparr>w_status := CREATED, w_current_task_index := 0, w_history := [],
       w_tasks := map task_static (w_tasks w)\<rparr>"

text \<open>
  A task with approvers that is not \<open>COMPLETED\<close> in \<open>w\<close> is not \<open>COMPLETED\<close> in \<open>w'\<close>.
\<close>

definition keeps_gate :: "workflow \<Rightarrow> workflow \<Rightarrow> bool" where
  "keeps_gate w w' \<longleftrightarrow>
     (\<forall>i < length (w_tasks w).
        t_approvers (w_tasks w ! i) \<noteq> [] \<and> t_status (w_tasks w ! i) \<noteq> T_COMPLETED
        \<longrightarrow> t_status (w_tasks w' ! i) \<noteq> T_COMPLETED)"

text \<open>
  \<open>evolves s s' wid\<close>: from \<open>s\<close> to \<open>s'\<close> only the workflow \<open>wid\<close> has changed, and of
  it only the status, the cursor, the history (and with it the uuid count) and the
  status and result of tasks, with \<open>keeps_gate\<close>.
\<close>

definition evolves :: "engine \<Rightarrow> engine \<Rightarrow> ident \<Rightarrow> bool" where
  "evolves s s' wid \<longleftrightarrow>
     (\<forall>wid'. wid' \<noteq> wid \<longrightarrow> workflows s' wid' = workflows s wid') \<and>
     workflow_templates s' = workflow_templates s \<and>
     task_handlers s' = task_handlers s \<and>
     data_heap s' = data_heap s \<and> heap_next s' = heap_next s \<and>
     uuid_source s' = uuid_source s \<and> uuid_count s \<le> uuid_count s' \<and>
     (case workflows s wid of
        None \<Rightarrow> workflows s' wid = None
      | Some w \<Rightarrow>
          (\<exists>w'. workflows s' wid = Some w' \<and> workflow_static w' = workflow_static w \<and>
                keeps_gate w w'))"

text \<open>
  \<open>advances c w w'\<close>: the tasks before position \<open>c\<close> are as they were, and the cursor
  is where it was or beyond \<open>c\<close>.
\<close>

definition advances :: "nat \<Rightarrow> workflow \<Rightarrow> workflow \<Rightarrow> bool" where
  "advances c w w' \<longleftrightarrow>
     (\<forall>j < c. w_tasks w' ! j = w_tasks w ! j) \<and>
     (w_current_task_index w' = w_current_task_index w \<or> c < w_current_task_index w')"

text \<open>
  \<open>review_plain\<close>: the same review workflow in an engine with no handler registered.
\<close>

definition review_plain :: engine where
  "review_plain =
     run [RegisterTemplate ''review'' review_template,
          CreateWorkflow ''review'' [],
          StartWorkflow ''u'',
          CompleteTask ''u'' ''ux'' (VDict [])]
       (init_engine demo_uuid)"

text \<open>
  An intake workflow whose only task asks for input and carries a \<open>data\<close> dict in the
  template. The dict is an object the caller has built before registering the template:
  it is at address 0. \<open>intake_engine\<close> is the engine after \<open>start_workflow\<close>, with the
  task \<open>ux\<close> of workflow \<open>u\<close> waiting for input.
\<close>

definition intake_template :: workflow_template where
  "intake_template =
     \<lparr>tp_name = Some ''intake'', tp_description = None,
      tp_tasks = Some [(plain_task ''ask'' ''input'')\<lparr>tt_data := Some 0\<rparr>]\<rparr>"

definition intake_engine :: engine where
  "intake_engine =
     run [RegisterTemplate ''intake'' intake_template,
          CreateWorkflow ''intake'' [],
          StartWorkflow ''u'']
       (snd (new_dict (init_engine demo_uuid) [(''project'', VStr ''A7'')]))"

section \<open>Identifiers of a workflow and of a template\<close>

text \<open>
  The ids of a task are its own and those of its approvals, in the order in which
  \<open>create_workflow\<close> and \<open>import_workflow\<close> generate them. The ids that appear in a
  template are the \<open>id\<close> keys and the dependency ids of its tasks.
\<close>

definition task_ids :: "task \<Rightarrow> ident list" where
  "task_ids t = t_id t # map a_id (t_approvals t)"

definition tasks_ids :: "task list \<Rightarrow> ident list" where
  "tasks_ids ts = concat (map task_ids ts)"

definition template_ids :: "workflow_template \<Rightarrow> ident set" where
  "template_ids T =
     (\<Union>tt \<in> set (get_or (tp_tasks T) []). set_option (tt_id tt) \<union> set (get_or (tt_dependencies tt) []))"

text \<open>The ids \<open>uuid4\<close> returns from draw \<open>a\<close> up to draw \<open>b\<close>.\<close>

definition draws :: "engine \<Rightarrow> nat \<Rightarrow> nat \<Rightarrow> ident list" where
  "draws s a b = map (uuid_source s) [a ..< b]"

text \<open>
  From \<open>s\<close> to \<open>s'\<close> nothing but uuid draws and new data objects: the tables of
  workflows, templates and handlers are the same.
\<close>

definition same_tables :: "engine \<Rightarrow> engine \<Rightarrow> bool" where
  "same_tables s s' \<longleftrightarrow>
     workflows s' = workflows s \<and> workflow_templates s' = workflow_templates s \<and>
     task_handlers s' = task_handlers s \<and> uuid_source s' = uuid_source s \<and>
     uuid_count s \<le> uuid_count s'"

text \<open>
  What is taken for granted of \<open>uuid.uuid4()\<close>: from now on it returns no id twice and
  none of the ids in \<open>X\<close>.
\<close>

definition uuid_fresh :: "engine \<Rightarrow> ident set \<Rightarrow> bool" where
  "uuid_fresh s X \<longleftrightarrow>
     inj_on (uuid_source s) {uuid_count s ..} \<and> (\<forall>n \<ge> uuid_count s. uuid_source s n \<notin> X)"

text \<open>
  A template whose tasks carry ids of their own and a dependency between them, in an
  engine that has stored nothing else.
\<close>

definition letter_template :: workflow_template where
  "letter_template =
     \<lparr>tp_name = Some ''letter'', tp_description = None,
      tp_tasks = Some [(plain_task ''draft'' ''manual'')
                         \<lparr>tt_id := Some ''draft'', tt_approvers := Some [''alice'']\<rparr>,
                       (plain_task ''send'' ''manual'')
                         \<lparr>tt_id := Some ''send'', tt_dependencies := Some [''draft'']\<rparr>]\<rparr>"

definition letter_engine :: engine where
  "letter_engine = run [RegisterTemplate ''letter'' letter_template] (init_engine demo_uuid)"

section \<open>What \<open>import_workflow\<close> keeps and what it renames\<close>

text \<open>
  A task without its ids, its dependency ids and the address of its data: what a
  copy of a workflow must have in common with the original.
\<close>

definition task_content :: "task \<Rightarrow> task" where
  "task_content t =
     t\<lparr>t_id := [], t_data := 0, t_dependencies := [],
       t_approvals := map (\<lambda>a. a\<lparr>a_id := []\<rparr>) (t_approvals t)\<rparr>"

text \<open>
  \<open>id_mapping\<close> after the old ids \<open>olds\<close> have been entered with the new ids \<open>news\<close>,
  one after the other.
\<close>

definition record_ids :: "(ident \<rightharpoonup> ident) \<Rightarrow> ident list \<Rightarrow> ident list \<Rightarrow> (ident \<rightharpoonup> ident)" where
  "record_ids m olds news = fold (\<lambda>(old, new) m. m(old \<mapsto> new)) (zip olds news) m"

text \<open>The same approval, the same task, under another id.\<close>

definition renamed_approval :: "approval \<Rightarrow> approval \<Rightarrow> bool" where
  "renamed_approval a a' \<longleftrightarrow> a' = a\<lparr>a_id := a_id a'\<rparr>"

definition renamed_task :: "task \<Rightarrow> task \<Rightarrow> bool" where
  "renamed_task t t' \<longleftrightarrow>
     t' = t\<lparr>t_id := t_id t', t_approvals := t_approvals t'\<rparr> \<and>
     list_all2 renamed_approval (t_approvals t) (t_approvals t')"

text \<open>
  A snapshot as a caller may hand it to \<open>import_workflow\<close>: a draft that Alice has
  approved, and a sending step that depends on the draft and on a task \<open>gone\<close> that the
  snapshot does not have. \<open>memo_engine\<close> is the engine after the import of it, and
  \<open>letter_created\<close> the engine after a workflow has been created from the template
  \<open>letter\<close>.
\<close>

definition memo_snapshot :: workflow where
  "memo_snapshot =
     \<lparr>w_id = ''w0'', w_template_id = ''memo'', w_name = ''memo'',
      w_description = [], w_status = RUNNING,
      w_tasks =
        [\<lparr>t_id = ''t1'', t_name = ''draft'', t_description = [],
          t_type = ''manual'', t_status = T_WAITING_APPROVAL,
          t_assignee = None, t_approvers = [''alice''],
          t_data = 0, t_dependencies = [], t_result = Some (VDict []),
          t_approvals =
            [\<lparr>a_id = ''a1'', a_approver = ''alice'', a_status = A_APPROVED, a_comment = ''ok''\<rparr>]\<rparr>,
         \<lparr>t_id = ''t2'', t_name = ''send'', t_description = [],
          t_type = ''manual'', t_status = T_PENDING, t_assignee = None,
          t_approvers = [], t_data = 0, t_dependencies = [''t1'', ''gone''],
          t_result = None, t_approvals = []\<rparr>],
      w_data = [], w_current_task_index = 1, w_history = []\<rparr>"

definition memo_engine :: engine where
  "memo_engine = run [ImportWorkflow memo_snapshot] (init_engine demo_uuid)"

definition memo_workflow :: workflow where
  "memo_workflow =
     \<lparr>w_id = ''u'', w_template_id = ''memo'', w_name = ''memo'',
      w_description = [], w_status = RUNNING,
      w_tasks =
        [\<lparr>t_id = ''ux'', t_name = ''draft'', t_description = [],
          t_type = ''manual'', t_status = T_WAITING_APPROVAL,
          t_assignee = None, t_approvers = [''alice''],
          t_data = 0, t_dependencies = [], t_result = Some (VDict []),
          t_approvals =
            [\<lparr>a_id = ''uxx'', a_approver = ''alice'', a_status = A_APPROVED, a_comment = ''ok''\<rparr>]\<rparr>,
         \<lparr>t_id = ''uxxx'', t_name = ''send'', t_description = [],
          t_type = ''manual'', t_status = T_PENDING, t_assignee = None,
          t_approvers = [], t_data = 1, t_dependencies = [''ux''],
          t_result = None, t_approvals = []\<rparr>],
      w_data = [], w_current_task_index = 1,
      w_history =
        [\<lparr>e_id = demo_uuid 4, e_type = ''workflow_imported'',
          e_data = [(''workflow_id'', VStr ''u''), (''workflow_name'', VStr ''memo''),
                    (''original_id'', VStr ''w0'')]\<rparr>]\<rparr>"

definition letter_created :: engine where
  "letter_created = run [CreateWorkflow ''letter'' []] letter_engine"

definition letter_workflow :: workflow where
  "letter_workflow =
     \<lparr>w_id = ''u'', w_template_id = ''letter'', w_name = ''letter'',
      w_description = [], w_status = CREATED,
      w_tasks =
        [\<lparr>t_id = ''ux'', t_name = ''draft'', t_description = [],
          t_type = ''manual'', t_status = T_PENDING,
          t_assignee = None, t_approvers = [''alice''],
          t_data = 0, t_dependencies = [], t_result = None,
          t_approvals =
            [\<lparr>a_id = ''uxx'', a_approver = ''alice'', a_status = A_PENDING, a_comment = []\<rparr>]\<rparr>,
         \<lparr>t_id = ''uxxx'', t_name = ''send'', t_description = [],
          t_type = ''manual'', t_status = T_PENDING, t_assignee = None,
          t_approvers = [], t_data = 1, t_dependencies = [''draft''],
          t_result = None, t_approvals = []\<rparr>],
      w_data = [], w_current_task_index = 0,
      w_history =
        [\<lparr>e_id = demo_uuid 4, e_type = ''workflow_created'',
          e_data = [(''template_id'', VStr ''letter''), (''workflow_id'', VStr ''u''),
                    (''workflow_name'', VStr ''letter'')]\<rparr>]\<rparr>"

section \<open>Calls and the workflows they can write\<close>


definition fresh_id :: "engine \<Rightarrow> ident \<Rightarrow> bool" where
  "fresh_id s wid \<longleftrightarrow> (\<forall>n \<ge> uuid_count s. uuid_source s n \<noteq> wid)"

text \<open>
  \<open>only_workflow s s' wid\<close>: from \<open>s\<close> to \<open>s'\<close> no workflow but \<open>wid\<close> has been written,
  and the uuid draws have only gone on.
\<close>

definition only_workflow :: "engine \<Rightarrow> engine \<Rightarrow> ident \<Rightarrow> bool" where
  "only_workflow s s' wid \<longleftrightarrow>
     (\<forall>wid'. wid' \<noteq> wid \<longrightarrow> workflows s' wid' = workflows s wid') \<and>
     uuid_source s' = uuid_source s \<and> uuid_count s \<le> uuid_count s'"







section \<open>Termination of task execution\<close>

text \<open>
  A task is active when \<open>complete_task\<close> accepts it. The measure counts the active
  tasks before the cursor, then the distance of the cursor to the end of the task list:
  completing the cursor task moves the cursor forward, and completing an earlier task
  with the same id (the id lookup takes the first one) uses up an active task.
\<close>

definition is_active :: "task_status \<Rightarrow> bool" where
  "is_active st = (st = T_RUNNING \<or> st = T_WAITING_INPUT)"

definition potential :: "task_status list \<Rightarrow> nat \<Rightarrow> nat" where
  "potential sts c =
     length (filter is_active (take c sts)) * Suc (length sts) + (length sts - c)"

definition workflow_potential :: "engine \<Rightarrow> ident \<Rightarrow> nat" where
  "workflow_potential s wid =
     (case workflows s wid of
        None \<Rightarrow> 0
      | Some w \<Rightarrow> potential (map t_status (w_tasks w)) (w_current_task_index w))"

definition potential_after :: "engine \<Rightarrow> ident \<Rightarrow> ident \<Rightarrow> nat" where
  "potential_after s wid tid =
     (case workflows s wid of
        None \<Rightarrow> 0
      | Some w \<Rightarrow>
          (case find_task (w_tasks w) tid of
             None \<Rightarrow> 0
           | Some i \<Rightarrow>
               if is_active (t_status (w_tasks w ! i))
               then potential ((map t_status (w_tasks w))[i := T_COMPLETED]) (Suc i)
               else 0))"

subsection \<open>Lookup and update lemmas\<close>

lemma workflows_upd_workflow:
  "workflows (upd_workflow s wid f) wid' =
     (if wid' = wid then map_option f (workflows s wid) else workflows s wid')"
  by (simp add: upd_workflow_def split: option.splits)

lemma workflows_upd_task:
  "workflows (upd_task s wid i f) wid' =
     (if wid' = wid
      then map_option (\<lambda>w. w\<lparr>w_tasks := (w_tasks w)[i := f (w_tasks w ! i)]\<rparr>) (workflows s wid)
      else workflows s wid')"
  by (simp add: upd_task_def workflows_upd_workflow)

lemma workflows_add_history_event:
  "workflows (add_history_event s wid ty d) wid' =
     (if wid' = wid
      then map_option
             (\<lambda>w. w\<lparr>w_history := w_history w @
                     [\<lparr>e_id = uuid_source s (uuid_count s), e_type = ty, e_data = d\<rparr>]\<rparr>)
             (workflows s wid)
      else workflows s wid')"
  by (simp add: add_history_event_def uuid4_def workflows_upd_workflow split: option.splits)

lemma find_task_Some:
  "find_task ts tid = Some i \<Longrightarrow> i < length ts \<and> t_id (ts ! i) = tid"
  by (induction ts arbitrary: i) (auto split: if_splits)

lemma find_task_ids:
  "map t_id ts = map t_id ts' \<Longrightarrow> find_task ts tid = find_task ts' tid"
proof (induction ts arbitrary: ts')
  case Nil
  then show ?case by simp
next
  case (Cons t ts)
  then obtain u us where "ts' = u # us" by (cases ts') auto
  with Cons show ?case by auto
qed

lemma map_update_same: "(map f ts)[i := f (ts ! i)] = map f ts"
  by (cases "i < length ts") (simp_all add: list_update_same_conv list_update_beyond)

lemma find_task_list_update:
  assumes "t_id t' = t_id (ts ! i)"
  shows "find_task (ts[i := t']) tid = find_task ts tid"
  by (rule find_task_ids) (simp add: map_update map_update_same assms)

lemma find_task_le:
  "c < length ts \<Longrightarrow> \<exists>f. find_task ts (t_id (ts ! c)) = Some f \<and> f \<le> c"
proof (induction ts arbitrary: c)
  case Nil
  then show ?case by simp
next
  case (Cons t ts)
  show ?case
  proof (cases c)
    case 0
    then show ?thesis by simp
  next
    case (Suc k)
    with Cons.prems have "k < length ts" by simp
    from Cons.IH [OF this] Suc show ?thesis by auto
  qed
qed

lemma potential_pos: "c < length sts \<Longrightarrow> 0 < potential sts c"
  by (simp add: potential_def)

lemma potential_same:
  assumes "c < length sts"
  shows "potential (sts[c := T_RUNNING, c := T_COMPLETED]) (Suc c) < potential sts c"
  using assms by (simp add: potential_def take_Suc_conv_app_nth is_active_def)

lemma potential_back:
  assumes "c < length sts" "f < c" "is_active (sts ! f)"
  shows "potential (sts[c := T_RUNNING, f := T_COMPLETED]) (Suc f) < potential sts c"
proof -
  let ?a = "length (filter is_active (take f sts))"
  have f: "f < length sts" using assms by simp
  have "take c sts = take (Suc f + (c - Suc f)) sts" using assms by simp
  also have "\<dots> = take (Suc f) sts @ take (c - Suc f) (drop (Suc f) sts)"
    by (rule take_add)
  finally have "length (filter is_active (take c sts)) \<ge> length (filter is_active (take (Suc f) sts))"
    by simp
  moreover have "length (filter is_active (take (Suc f) sts)) = Suc ?a"
    using f assms(3) by (simp add: take_Suc_conv_app_nth)
  ultimately have A: "Suc ?a \<le> length (filter is_active (take c sts))" by simp
  have "potential (sts[c := T_RUNNING, f := T_COMPLETED]) (Suc f)
        = ?a * Suc (length sts) + (length sts - Suc f)"
    using assms f by (simp add: potential_def take_Suc_conv_app_nth is_active_def)
  also have "\<dots> < Suc ?a * Suc (length sts)" by simp
  also have "\<dots> \<le> length (filter is_active (take c sts)) * Suc (length sts)"
    using A by (simp only: mult_le_mono1)
  also have "\<dots> \<le> potential sts c" by (simp add: potential_def)
  finally show ?thesis .
qed


lemma complete_task_measure:
  assumes "workflows s wid = Some w" "find_task (w_tasks w) tid = Some i"
    and "is_active (t_status (w_tasks w ! i))"
  shows "workflow_potential
           (upd_workflow
              (add_history_event
                 (upd_task s wid i (\<lambda>t. t\<lparr>t_status := T_COMPLETED, t_result := r\<rparr>)) wid ty d)
              wid (\<lambda>w. w\<lparr>w_current_task_index := Suc i\<rparr>)) wid
         = potential_after s wid tid"
  using assms
  by (simp add: workflow_potential_def potential_after_def workflows_upd_workflow
      workflows_add_history_event workflows_upd_task map_update)

lemma process_next_task_measure:
  assumes w: "workflows s wid = Some w" and c: "w_current_task_index w < length (w_tasks w)"
  shows "potential_after
           (add_history_event
              (upd_task s wid (w_current_task_index w) (\<lambda>t. t\<lparr>t_status := T_RUNNING\<rparr>)) wid ty d)
           wid (t_id (w_tasks w ! w_current_task_index w))
         < workflow_potential s wid"
proof -
  let ?c = "w_current_task_index w"
  let ?ts = "w_tasks w"
  let ?sts = "map t_status ?ts"
  let ?ts' = "?ts[?c := (?ts ! ?c)\<lparr>t_status := T_RUNNING\<rparr>]"
  let ?s' = "add_history_event (upd_task s wid ?c (\<lambda>t. t\<lparr>t_status := T_RUNNING\<rparr>)) wid ty d"
  obtain f where f: "find_task ?ts (t_id (?ts ! ?c)) = Some f" "f \<le> ?c"
    using find_task_le [OF c] by blast
  have f': "find_task ?ts' (t_id (?ts ! ?c)) = Some f"
    using f by (simp add: find_task_list_update)
  have sts': "map t_status ?ts' = ?sts[?c := T_RUNNING]"
    by (simp add: map_update)
  have len: "?c < length ?sts" using c by simp
  have P: "workflow_potential s wid = potential ?sts ?c"
    using w by (simp add: workflow_potential_def)
  have Q: "potential_after ?s' wid (t_id (?ts ! ?c)) =
             (if is_active ((?sts[?c := T_RUNNING]) ! f)
              then potential (?sts[?c := T_RUNNING, f := T_COMPLETED]) (Suc f) else 0)"
    using w f' f c sts'
    by (simp add: potential_after_def workflows_add_history_event workflows_upd_task
        del: map_update list_update.simps)
       (metis (no_types, lifting) le_less_trans length_list_update length_map nth_map)
  show ?thesis
  proof (cases "is_active ((?sts[?c := T_RUNNING]) ! f)")
    case False
    then show ?thesis using Q P potential_pos [OF len] by simp
  next
    case True
    show ?thesis
    proof (cases "f = ?c")
      case True
      then show ?thesis using Q P potential_same [OF len] \<open>is_active _\<close> by simp
    next
      case False
      then have lt: "f < ?c" using f by simp
      then have "is_active (?sts ! f)" using True by simp
      from potential_back [OF len lt this] Q P True show ?thesis by simp
    qed
  qed
qed

termination complete_task
proof (relation "measure (\<lambda>x. case x of
          Inl (s, wid, tid, r) \<Rightarrow> 3 * potential_after s wid tid + 1
        | Inr (Inl (s, wid)) \<Rightarrow> 3 * workflow_potential s wid
        | Inr (Inr (s, wid, tid)) \<Rightarrow> 3 * potential_after s wid tid + 2)", goal_cases)
  case 1
  then show ?case by simp
next
  case (2 s wid tid result w i task s1 s2)
  then have "is_active (t_status (w_tasks w ! i))" by (auto simp: is_active_def)
  from complete_task_measure [OF 2(1) 2(2) this] 2 show ?case by simp
next
  case (3 s wid w task)
  then have c: "w_current_task_index w < length (w_tasks w)" by simp
  have "Suc (Suc (3 * potential_after
          (add_history_event
             (upd_task s wid (w_current_task_index w) (\<lambda>t. t\<lparr>t_status := T_RUNNING\<rparr>)) wid ty d)
          wid (t_id (w_tasks w ! w_current_task_index w))))
        < 3 * workflow_potential s wid" for ty d
    using process_next_task_measure [OF 3(1) c, of ty d] by simp
  then show ?case using 3 by simp
next
  case 4
  then show ?case by simp
qed

text \<open>The defining equations are unfolded one call at a time.\<close>

declare complete_task.simps [simp del] process_next_task.simps [simp del]
  execute_task.simps [simp del]

subsection \<open>The helpers write the workflow table only\<close>

lemma uuid_count_upd_workflow [simp]: "uuid_count (upd_workflow s wid f) = uuid_count s"
  and uuid_source_upd_workflow [simp]: "uuid_source (upd_workflow s wid f) = uuid_source s"
  and data_heap_upd_workflow [simp]: "data_heap (upd_workflow s wid f) = data_heap s"
  and heap_next_upd_workflow [simp]: "heap_next (upd_workflow s wid f) = heap_next s"
  and task_handlers_upd_workflow [simp]: "task_handlers (upd_workflow s wid f) = task_handlers s"
  and templates_upd_workflow [simp]: "workflow_templates (upd_workflow s wid f) = workflow_templates s"
  by (simp_all add: upd_workflow_def split: option.splits)

lemma uuid_count_upd_task [simp]: "uuid_count (upd_task s wid i f) = uuid_count s"
  and uuid_source_upd_task [simp]: "uuid_source (upd_task s wid i f) = uuid_source s"
  and data_heap_upd_task [simp]: "data_heap (upd_task s wid i f) = data_heap s"
  and heap_next_upd_task [simp]: "heap_next (upd_task s wid i f) = heap_next s"
  and task_handlers_upd_task [simp]: "task_handlers (upd_task s wid i f) = task_handlers s"
  and templates_upd_task [simp]: "workflow_templates (upd_task s wid i f) = workflow_templates s"
  by (simp_all add: upd_task_def)

lemma uuid_source_add_history_event [simp]:
    "uuid_source (add_history_event s wid ty d) = uuid_source s"
  and data_heap_add_history_event [simp]: "data_heap (add_history_event s wid ty d) = data_heap s"
  and heap_next_add_history_event [simp]: "heap_next (add_history_event s wid ty d) = heap_next s"
  and task_handlers_add_history_event [simp]:
    "task_handlers (add_history_event s wid ty d) = task_handlers s"
  and templates_add_history_event [simp]:
    "workflow_templates (add_history_event s wid ty d) = workflow_templates s"
  by (simp_all add: add_history_event_def uuid4_def split: option.splits)

lemma uuid_count_add_history_event:
  "uuid_count (add_history_event s wid ty d) =
     (if workflows s wid = None then uuid_count s else Suc (uuid_count s))"
  by (simp add: add_history_event_def uuid4_def split: option.splits)

lemmas workflows_simps =
  workflows_upd_workflow workflows_upd_task workflows_add_history_event

lemma workflows_fail_task:
  assumes "workflows s wid = Some w"
  shows "workflows (fail_task s wid i reason) wid =
           Some (w\<lparr>w_tasks := (w_tasks w)[i := (w_tasks w ! i)\<lparr>t_status := T_FAILED\<rparr>],
                   w_status := FAILED,
                   w_history := w_history w @
                     [\<lparr>e_id = uuid_source s (uuid_count s), e_type = ''task_failed'',
                       e_data = [(''workflow_id'', VStr wid), (''task_id'', VStr (t_id (w_tasks w ! i))),
                                 (''task_name'', VStr (t_name (w_tasks w ! i))),
                                 (''reason'', VStr reason)]\<rparr>,
                      \<lparr>e_id = uuid_source s (Suc (uuid_count s)), e_type = ''workflow_failed'',
                       e_data = [(''workflow_id'', VStr wid), (''workflow_name'', VStr (w_name w)),
                                 (''reason'',
                                  VStr (''Task fehlgeschlagen: '' @ t_name (w_tasks w ! i)))]\<rparr>]\<rparr>)"
  using assms
  by (simp add: fail_task_def Let_def workflows_simps uuid_count_add_history_event)

lemma workflows_fail_task_other:
  "wid' \<noteq> wid \<Longrightarrow> workflows (fail_task s wid i reason) wid' = workflows s wid'"
  by (simp add: fail_task_def Let_def workflows_simps split: option.splits)

subsection \<open>The consensus loop\<close>

lemma check_approvals_fst:
  "fst (check_approvals as r) = (\<forall>a \<in> set as. a_status a \<noteq> A_PENDING)"
  by (induction as arbitrary: r) auto

lemma check_approvals_snd:
  "\<forall>a \<in> set as. a_status a \<noteq> A_PENDING \<Longrightarrow>
   snd (check_approvals as r) = (r \<or> (\<exists>a \<in> set as. a_status a = A_REJECTED))"
  by (induction as arbitrary: r) auto

lemma check_approvals_delegated:
  "check_approvals as r = check_approvals (filter (\<lambda>a. a_status a \<noteq> A_DELEGATED) as) r"
  by (induction as arbitrary: r) auto

lemma find_approval_Some:
  "find_approval as aid = Some k \<Longrightarrow> k < length as \<and> a_id (as ! k) = aid"
  by (induction as arbitrary: k) (auto split: if_splits)

text \<open>
  \<open>approve_task\<close> past its checks: the approval is recorded, and either an approval is
  still pending, or one has been rejected, or the cursor moves on.
\<close>

lemma approve_task_cases:
  fixes approved :: bool and comment :: string
  assumes w: "workflows s wid = Some w"
    and i: "find_task (w_tasks w) tid = Some i"
    and st: "t_status (w_tasks w ! i) = T_WAITING_APPROVAL"
    and k: "find_approval (t_approvals (w_tasks w ! i)) aid = Some k"
    and p: "a_status (t_approvals (w_tasks w ! i) ! k) = A_PENDING"
  defines "as' \<equiv> (t_approvals (w_tasks w ! i))
     [k := (t_approvals (w_tasks w ! i) ! k)
             \<lparr>a_status := (if approved then A_APPROVED else A_REJECTED), a_comment := comment\<rparr>]"
  defines "s2 \<equiv> add_history_event (upd_task s wid i (\<lambda>t. t\<lparr>t_approvals := as'\<rparr>)) wid
       (if approved then ''task_approved'' else ''task_rejected'')
       [(''workflow_id'', VStr wid), (''task_id'', VStr tid),
        (''task_name'', VStr (t_name (w_tasks w ! i))),
        (''approver'', VStr (a_approver (t_approvals (w_tasks w ! i) ! k))),
        (''comment'', VStr comment)]"
  shows "approve_task s wid tid aid approved comment =
           Inr (if \<exists>a \<in> set as'. a_status a = A_PENDING then Returned s2
                else if \<exists>a \<in> set as'. a_status a = A_REJECTED
                then Returned (fail_task s2 wid i ''Genehmigung abgelehnt'')
                else process_next_task
                       (upd_workflow s2 wid (\<lambda>w. w\<lparr>w_current_task_index := Suc i\<rparr>)) wid)"
proof -
  obtain c r where cr: "check_approvals as' False = (c, r)" by (cases "check_approvals as' False")
  have c: "c = (\<forall>a \<in> set as'. a_status a \<noteq> A_PENDING)"
    using check_approvals_fst [of as' False] cr by simp
  have r: "c \<Longrightarrow> r = (\<exists>a \<in> set as'. a_status a = A_REJECTED)"
    using check_approvals_snd [of as' False] cr c by simp
  have "approve_task s wid tid aid approved comment =
          Inr (if c then (if r then Returned (fail_task s2 wid i ''Genehmigung abgelehnt'')
                          else process_next_task
                                 (upd_workflow s2 wid (\<lambda>w. w\<lparr>w_current_task_index := Suc i\<rparr>)) wid)
               else Returned s2)"
    using w i st k p cr
    by (simp add: approve_task_def Let_def as'_def [symmetric] s2_def [symmetric])
  then show ?thesis using c r by auto
qed

subsection \<open>The example engines, evaluated\<close>

lemmas op_defs = exec_op_def register_task_handler_def register_workflow_template_def
  create_workflow_def create_task_def uuid4_def new_dict_def start_workflow_def
  upd_workflow_def upd_task_def add_history_event_def fail_task_def Let_def init_engine_def
  plain_task_def ok_handler_def demo_uuid_def

lemmas observe_defs = workflow_status_of_def cursor_of_def tasks_of_def task_statuses_of_def
  history_types_of_def

lemma review_engine_workflows: "workflows review_engine = [''u'' \<mapsto> review_workflow]"
  by (simp add: review_engine_def review_template_def review_workflow_def op_defs
      process_next_task.simps execute_task.simps complete_task.simps eval_nat_numeral)

lemma review_engine_fields:
  "uuid_count review_engine = 11" "uuid_source review_engine = demo_uuid"
  "task_handlers review_engine = [''auto'' \<mapsto> ok_handler]"
  "heap_next review_engine = 3"
  by (simp_all add: review_engine_def review_template_def op_defs
      process_next_task.simps execute_task.simps complete_task.simps eval_nat_numeral)


section \<open>C1: a rejection while other approvals are pending\<close>

text \<open>
  C1, as claimed: rejecting one pending approval of a task in \<open>WAITING_APPROVAL\<close> makes
  the task and the workflow \<open>FAILED\<close>, even when other approvals are still pending.
  The code does not do that: in \<open>review_engine\<close> Alice rejects while Bob's approval
  is pending; the rejection is recorded, the task stays in \<open>WAITING_APPROVAL\<close> and the
  workflow stays \<open>RUNNING\<close>.
\<close>

theorem approve_task_rejection_counterexample:
  "task_statuses_of review_engine ''u'' = [T_WAITING_APPROVAL, T_PENDING, T_PENDING] \<and>
   map a_status (t_approvals (tasks_of review_engine ''u'' ! 0)) = [A_PENDING, A_PENDING] \<and>
   map a_status
     (t_approvals
        (tasks_of (exec_op (ApproveTask ''u'' ''ux'' ''uxx'' False ''no'') review_engine) ''u'' ! 0))
     = [A_REJECTED, A_PENDING] \<and>
   task_statuses_of (exec_op (ApproveTask ''u'' ''ux'' ''uxx'' False ''no'') review_engine) ''u''
     = [T_WAITING_APPROVAL, T_PENDING, T_PENDING] \<and>
   workflow_status_of (exec_op (ApproveTask ''u'' ''ux'' ''uxx'' False ''no'') review_engine) ''u''
     = Some RUNNING"
  by (simp add: observe_defs exec_op_def approve_task_def review_engine_workflows
      review_workflow_def Let_def workflows_simps)

text \<open>
  C1, amended: \<open>approve_task\<close> on a pending approval of a task in \<open>WAITING_APPROVAL\<close>
  records the decision in that approval (\<open>REJECTED\<close> when \<open>approved = False\<close>) and
  returns. If another approval of the task is still pending, nothing else of the tasks
  is changed: the task stays in \<open>WAITING_APPROVAL\<close> and the workflow keeps its status and
  cursor. If no approval is pending after the call and the call was a rejection, or an
  earlier approval is rejected, the task and the workflow become \<open>FAILED\<close>, with the
  decision recorded, the cursor where it was, and the events of the decision, of the
  failed task and of the failed workflow appended to the history.
\<close>

theorem approve_task_rejection:
  fixes approved :: bool and comment :: string
  assumes w: "workflows s wid = Some w"
    and i: "find_task (w_tasks w) tid = Some i"
    and st: "t_status (w_tasks w ! i) = T_WAITING_APPROVAL"
    and k: "find_approval (t_approvals (w_tasks w ! i)) aid = Some k"
    and p: "a_status (t_approvals (w_tasks w ! i) ! k) = A_PENDING"
  defines "as' \<equiv> (t_approvals (w_tasks w ! i))
     [k := (t_approvals (w_tasks w ! i) ! k)
             \<lparr>a_status := (if approved then A_APPROVED else A_REJECTED), a_comment := comment\<rparr>]"
  shows "((\<exists>a \<in> set as'. a_status a = A_PENDING) \<longrightarrow>
            (\<exists>s' w'. approve_task s wid tid aid approved comment = Inr (Returned s') \<and>
               workflows s' wid = Some w' \<and>
               w_tasks w' = (w_tasks w)[i := (w_tasks w ! i)\<lparr>t_approvals := as'\<rparr>] \<and>
               a_status (t_approvals (w_tasks w' ! i) ! k)
                 = (if approved then A_APPROVED else A_REJECTED) \<and>
               t_status (w_tasks w' ! i) = T_WAITING_APPROVAL \<and>
               w_status w' = w_status w \<and>
               w_current_task_index w' = w_current_task_index w)) \<and>
         ((\<forall>a \<in> set as'. a_status a \<noteq> A_PENDING) \<and>
          (\<not> approved \<or> (\<exists>a \<in> set as'. a_status a = A_REJECTED)) \<longrightarrow>
            (\<exists>s' w'. approve_task s wid tid aid approved comment = Inr (Returned s') \<and>
               workflows s' wid = Some w' \<and>
               w_tasks w' = (w_tasks w)
                 [i := (w_tasks w ! i)\<lparr>t_approvals := as', t_status := T_FAILED\<rparr>] \<and>
               a_status (t_approvals (w_tasks w' ! i) ! k)
                 = (if approved then A_APPROVED else A_REJECTED) \<and>
               t_status (w_tasks w' ! i) = T_FAILED \<and>
               w_status w' = FAILED \<and>
               w_current_task_index w' = w_current_task_index w \<and>
               map e_type (w_history w') = map e_type (w_history w) @
                 [if approved then ''task_approved'' else ''task_rejected'',
                  ''task_failed'', ''workflow_failed'']))"
proof -
  have il: "i < length (w_tasks w)" using find_task_Some [OF i] by simp
  have kl: "k < length (t_approvals (w_tasks w ! i))" using find_approval_Some [OF k] by simp
  have kl': "k < length as'" using kl by (simp add: as'_def)
  have dec: "a_status (as' ! k) = (if approved then A_APPROVED else A_REJECTED)"
    using kl by (simp add: as'_def)
  have rej: "\<exists>a \<in> set as'. a_status a = A_REJECTED" if "\<not> approved"
    using that dec kl' nth_mem [OF kl'] by auto
  let ?s2 = "add_history_event (upd_task s wid i (\<lambda>t. t\<lparr>t_approvals := as'\<rparr>)) wid
       (if approved then ''task_approved'' else ''task_rejected'')
       [(''workflow_id'', VStr wid), (''task_id'', VStr tid),
        (''task_name'', VStr (t_name (w_tasks w ! i))),
        (''approver'', VStr (a_approver (t_approvals (w_tasks w ! i) ! k))),
        (''comment'', VStr comment)]"
  let ?w2 = "w\<lparr>w_tasks := (w_tasks w)[i := (w_tasks w ! i)\<lparr>t_approvals := as'\<rparr>],
              w_history := w_history w @
                [\<lparr>e_id = uuid_source s (uuid_count s),
                  e_type = (if approved then ''task_approved'' else ''task_rejected''),
                  e_data = [(''workflow_id'', VStr wid), (''task_id'', VStr tid),
                            (''task_name'', VStr (t_name (w_tasks w ! i))),
                            (''approver'', VStr (a_approver (t_approvals (w_tasks w ! i) ! k))),
                            (''comment'', VStr comment)]\<rparr>]\<rparr>"
  note cases = approve_task_cases [OF w i st k p, of approved comment, folded as'_def]
  have w2: "workflows ?s2 wid = Some ?w2" using w by (simp add: workflows_simps)
  have pending: "\<exists>s' w'. approve_task s wid tid aid approved comment = Inr (Returned s') \<and>
               workflows s' wid = Some w' \<and>
               w_tasks w' = (w_tasks w)[i := (w_tasks w ! i)\<lparr>t_approvals := as'\<rparr>] \<and>
               a_status (t_approvals (w_tasks w' ! i) ! k)
                 = (if approved then A_APPROVED else A_REJECTED) \<and>
               t_status (w_tasks w' ! i) = T_WAITING_APPROVAL \<and>
               w_status w' = w_status w \<and>
               w_current_task_index w' = w_current_task_index w"
    if "\<exists>a \<in> set as'. a_status a = A_PENDING"
  proof -
    have "approve_task s wid tid aid approved comment = Inr (Returned ?s2)"
      using cases that by simp
    moreover have "a_status (t_approvals (w_tasks ?w2 ! i) ! k)
                     = (if approved then A_APPROVED else A_REJECTED)"
      using il dec by simp
    moreover have "t_status (w_tasks ?w2 ! i) = T_WAITING_APPROVAL" using il st by simp
    moreover have "w_tasks ?w2 = (w_tasks w)[i := (w_tasks w ! i)\<lparr>t_approvals := as'\<rparr>]"
      "w_status ?w2 = w_status w" "w_current_task_index ?w2 = w_current_task_index w"
      by simp_all
    ultimately show ?thesis using w2 by blast
  qed
  have failed: "\<exists>s' w'. approve_task s wid tid aid approved comment = Inr (Returned s') \<and>
               workflows s' wid = Some w' \<and>
               w_tasks w' = (w_tasks w)
                 [i := (w_tasks w ! i)\<lparr>t_approvals := as', t_status := T_FAILED\<rparr>] \<and>
               a_status (t_approvals (w_tasks w' ! i) ! k)
                 = (if approved then A_APPROVED else A_REJECTED) \<and>
               t_status (w_tasks w' ! i) = T_FAILED \<and>
               w_status w' = FAILED \<and>
               w_current_task_index w' = w_current_task_index w \<and>
               map e_type (w_history w') = map e_type (w_history w) @
                 [if approved then ''task_approved'' else ''task_rejected'',
                  ''task_failed'', ''workflow_failed'']"
    if np: "\<forall>a \<in> set as'. a_status a \<noteq> A_PENDING"
      and r: "\<not> approved \<or> (\<exists>a \<in> set as'. a_status a = A_REJECTED)"
  proof -
    have r': "\<exists>a \<in> set as'. a_status a = A_REJECTED" using r rej by blast
    let ?s3 = "fail_task ?s2 wid i ''Genehmigung abgelehnt''"
    have a: "approve_task s wid tid aid approved comment = Inr (Returned ?s3)"
      using cases np r' by simp
    obtain w3 where w3: "workflows ?s3 wid = Some w3"
      and ts3: "w_tasks w3 = (w_tasks ?w2)[i := (w_tasks ?w2 ! i)\<lparr>t_status := T_FAILED\<rparr>]"
      and st3: "w_status w3 = FAILED"
      and c3: "w_current_task_index w3 = w_current_task_index ?w2"
      and h3: "map e_type (w_history w3) = map e_type (w_history ?w2) @ [''task_failed'', ''workflow_failed'']"
      using workflows_fail_task [OF w2, of i "''Genehmigung abgelehnt''"] by simp
    have ts: "w_tasks w3 = (w_tasks w)
                 [i := (w_tasks w ! i)\<lparr>t_approvals := as', t_status := T_FAILED\<rparr>]"
      using il by (simp add: ts3)
    have "a_status (t_approvals (w_tasks w3 ! i) ! k)
            = (if approved then A_APPROVED else A_REJECTED)"
      using il dec by (simp add: ts)
    moreover have "t_status (w_tasks w3 ! i) = T_FAILED" using il by (simp add: ts)
    moreover have "w_current_task_index w3 = w_current_task_index w" using c3 by simp
    moreover have "map e_type (w_history w3) = map e_type (w_history w) @
                 [if approved then ''task_approved'' else ''task_rejected'',
                  ''task_failed'', ''workflow_failed'']"
      using h3 by simp
    ultimately show ?thesis using a w3 ts st3 by blast
  qed
  from pending failed show ?thesis by blast
qed

text \<open>
  The two cases in \<open>review_engine\<close>: Alice's rejection leaves the task waiting for Bob;
  Bob's approval after it resolves the last pending approval and fails task and workflow.
\<close>

definition review_rejected :: engine where
  "review_rejected = exec_op (ApproveTask ''u'' ''ux'' ''uxx'' False ''no'') review_engine"

theorem approve_task_rejection_witness:
  "(\<exists>s' w'. approve_task review_engine ''u'' ''ux'' ''uxx'' False ''no'' = Inr (Returned s') \<and>
       workflows s' ''u'' = Some w' \<and>
       map a_status (t_approvals (w_tasks w' ! 0)) = [A_REJECTED, A_PENDING] \<and>
       t_status (w_tasks w' ! 0) = T_WAITING_APPROVAL \<and>
       w_status w' = RUNNING \<and> w_current_task_index w' = 0) \<and>
   (\<exists>s' w'. approve_task review_rejected ''u'' ''ux'' ''uxxx'' True ''fine'' = Inr (Returned s') \<and>
       workflows s' ''u'' = Some w' \<and>
       map a_status (t_approvals (w_tasks w' ! 0)) = [A_REJECTED, A_APPROVED] \<and>
       t_status (w_tasks w' ! 0) = T_FAILED \<and> w_status w' = FAILED \<and>
       w_current_task_index w' = 0)"
proof -
  have w: "workflows review_engine ''u'' = Some review_workflow"
    by (simp add: review_engine_workflows)
  have i: "find_task (w_tasks review_workflow) ''ux'' = Some 0"
    by (simp add: review_workflow_def)
  have st: "t_status (w_tasks review_workflow ! 0) = T_WAITING_APPROVAL"
    by (simp add: review_workflow_def)
  have k: "find_approval (t_approvals (w_tasks review_workflow ! 0)) ''uxx'' = Some 0"
    by (simp add: review_workflow_def)
  have p: "a_status (t_approvals (w_tasks review_workflow ! 0) ! 0) = A_PENDING"
    by (simp add: review_workflow_def)
  have first: "\<exists>s' w'. approve_task review_engine ''u'' ''ux'' ''uxx'' False ''no'' = Inr (Returned s') \<and>
       workflows s' ''u'' = Some w' \<and>
       map a_status (t_approvals (w_tasks w' ! 0)) = [A_REJECTED, A_PENDING] \<and>
       t_status (w_tasks w' ! 0) = T_WAITING_APPROVAL \<and>
       w_status w' = RUNNING \<and> w_current_task_index w' = 0"
    using approve_task_rejection [OF w i st k p, where approved = False and comment = "''no''"]
    by (simp add: review_workflow_def) fastforce
  define w2 where "w2 = review_workflow\<lparr>w_tasks := (w_tasks review_workflow)
      [0 := (w_tasks review_workflow ! 0)\<lparr>t_approvals := (t_approvals (w_tasks review_workflow ! 0))
         [0 := (t_approvals (w_tasks review_workflow ! 0) ! 0)\<lparr>a_status := A_REJECTED, a_comment := ''no''\<rparr>]\<rparr>],
      w_history := w_history review_workflow @
        [\<lparr>e_id = demo_uuid 11, e_type = ''task_rejected'',
          e_data = [(''workflow_id'', VStr ''u''), (''task_id'', VStr ''ux''),
                    (''task_name'', VStr ''check''), (''approver'', VStr ''alice''),
                    (''comment'', VStr ''no'')]\<rparr>]\<rparr>"
  have w': "workflows review_rejected ''u'' = Some w2"
    by (simp add: review_rejected_def exec_op_def approve_task_def review_engine_workflows
        review_engine_fields review_workflow_def Let_def workflows_simps w2_def)
  have i': "find_task (w_tasks w2) ''ux'' = Some 0"
    by (simp add: w2_def review_workflow_def)
  have st': "t_status (w_tasks w2 ! 0) = T_WAITING_APPROVAL"
    by (simp add: w2_def review_workflow_def)
  have k': "find_approval (t_approvals (w_tasks w2 ! 0)) ''uxxx'' = Some 1"
    by (simp add: w2_def review_workflow_def)
  have p': "a_status (t_approvals (w_tasks w2 ! 0) ! 1) = A_PENDING"
    by (simp add: w2_def review_workflow_def)
  have second: "\<exists>s' w'. approve_task review_rejected ''u'' ''ux'' ''uxxx'' True ''fine'' = Inr (Returned s') \<and>
       workflows s' ''u'' = Some w' \<and>
       map a_status (t_approvals (w_tasks w' ! 0)) = [A_REJECTED, A_APPROVED] \<and>
       t_status (w_tasks w' ! 0) = T_FAILED \<and> w_status w' = FAILED \<and>
       w_current_task_index w' = 0"
    using approve_task_rejection [OF w' i' st' k' p', where approved = True and comment = "''fine''"]
    by (simp add: w2_def review_workflow_def) fastforce
  from first second show ?thesis by blast
qed

lemmas eval_simps = op_defs process_next_task.simps execute_task.simps complete_task.simps
  approve_task_def eval_nat_numeral

lemma review_approved_workflows:
  "workflows review_approved = [''u'' \<mapsto> review_approved_workflow]"
  by (simp add: review_approved_def review_approved_workflow_def review_engine_workflows
      review_engine_fields review_workflow_def eval_simps)

lemma risky_engine_workflows: "workflows risky_engine = [''u'' \<mapsto> risky_workflow]"
  by (simp add: risky_engine_def risky_template_def risky_workflow_def eval_simps)

lemma risky_engine_fields:
  "uuid_count risky_engine = 4" "uuid_source risky_engine = demo_uuid"
  "task_handlers risky_engine = [''boom'' \<mapsto> failing_handler]"
  by (simp_all add: risky_engine_def risky_template_def eval_simps)

section \<open>C8: \<open>cancel_workflow\<close>\<close>

text \<open>
  C8: \<open>cancel_workflow\<close> raises the invalid-state error when the workflow is
  \<open>COMPLETED\<close>, \<open>FAILED\<close> or \<open>CANCELLED\<close>. Otherwise the workflow becomes \<open>CANCELLED\<close>,
  every task that is \<open>PENDING\<close>, \<open>RUNNING\<close>, \<open>WAITING_APPROVAL\<close> or \<open>WAITING_INPUT\<close>
  becomes \<open>CANCELLED\<close> with nothing else of it changed, and every other task (a
  completed one with its result among them) is the task it was. The data objects are
  not written.
\<close>

theorem cancel_workflow_frame:
  assumes "workflows s wid = Some w"
  shows "(w_status w = COMPLETED \<or> w_status w = FAILED \<or> w_status w = CANCELLED \<longrightarrow>
            cancel_workflow s wid reason = Inl (WorkflowStateError (w_status w)) \<and>
            is_invalid_state (WorkflowStateError (w_status w))) \<and>
         (\<not> (w_status w = COMPLETED \<or> w_status w = FAILED \<or> w_status w = CANCELLED) \<longrightarrow>
            (\<exists>s' w'. cancel_workflow s wid reason = Inr s' \<and> workflows s' wid = Some w' \<and>
               w_status w' = CANCELLED \<and>
               length (w_tasks w') = length (w_tasks w) \<and>
               data_heap s' = data_heap s \<and>
               (\<forall>i < length (w_tasks w).
                  if t_status (w_tasks w ! i) \<in> {T_PENDING, T_RUNNING, T_WAITING_APPROVAL, T_WAITING_INPUT}
                  then w_tasks w' ! i = (w_tasks w ! i)\<lparr>t_status := T_CANCELLED\<rparr>
                  else w_tasks w' ! i = w_tasks w ! i)))"
  using assms by (auto simp: cancel_workflow_def workflows_simps cancel_task_def)

text \<open>
  In \<open>review_approved\<close> the check is waiting, the notification is completed and the
  archiving step is running: cancelling keeps the completed task with its result and
  cancels the other two. A second cancel raises.
\<close>

theorem cancel_workflow_frame_witness:
  "task_statuses_of review_approved ''u'' = [T_WAITING_APPROVAL, T_COMPLETED, T_RUNNING] \<and>
   (\<exists>s' w'. cancel_workflow review_approved ''u'' ''stop'' = Inr s' \<and>
      workflows s' ''u'' = Some w' \<and> w_status w' = CANCELLED \<and>
      map t_status (w_tasks w') = [T_CANCELLED, T_COMPLETED, T_CANCELLED] \<and>
      w_tasks w' ! 1 = w_tasks review_approved_workflow ! 1 \<and>
      t_result (w_tasks w' ! 1) = Some (VDict [(''ok'', VBool True)]) \<and>
      cancel_workflow s' ''u'' ''again'' = Inl (WorkflowStateError CANCELLED))"
proof -
  have w: "workflows review_approved ''u'' = Some review_approved_workflow"
    by (simp add: review_approved_workflows)
  have st: "task_statuses_of review_approved ''u'' = [T_WAITING_APPROVAL, T_COMPLETED, T_RUNNING]"
    by (simp add: observe_defs w review_approved_workflow_def)
  have run: "\<not> (w_status review_approved_workflow = COMPLETED
                \<or> w_status review_approved_workflow = FAILED
                \<or> w_status review_approved_workflow = CANCELLED)"
    by (simp add: review_approved_workflow_def review_workflow_def)
  from cancel_workflow_frame [OF w, of "''stop''"] run
  obtain s' w' where c: "cancel_workflow review_approved ''u'' ''stop'' = Inr s'"
    "workflows s' ''u'' = Some w'" "w_status w' = CANCELLED"
    "length (w_tasks w') = length (w_tasks review_approved_workflow)"
    and each: "\<forall>i < length (w_tasks review_approved_workflow).
       if t_status (w_tasks review_approved_workflow ! i)
            \<in> {T_PENDING, T_RUNNING, T_WAITING_APPROVAL, T_WAITING_INPUT}
       then w_tasks w' ! i = (w_tasks review_approved_workflow ! i)\<lparr>t_status := T_CANCELLED\<rparr>
       else w_tasks w' ! i = w_tasks review_approved_workflow ! i"
    by blast
  have len: "length (w_tasks w') = 3"
    using c(4) by (simp add: review_approved_workflow_def)
  have t0: "t_status (w_tasks w' ! 0) = T_CANCELLED"
    using each [rule_format, of 0] by (simp add: review_approved_workflow_def)
  have t1: "w_tasks w' ! 1 = w_tasks review_approved_workflow ! 1"
    using each [rule_format, of 1] by (simp add: review_approved_workflow_def)
  have t2: "t_status (w_tasks w' ! 2) = T_CANCELLED"
    using each [rule_format, of 2] by (simp add: review_approved_workflow_def)
  have sts: "map t_status (w_tasks w') = [T_CANCELLED, T_COMPLETED, T_CANCELLED]"
  proof (rule nth_equalityI)
    show "length (map t_status (w_tasks w')) = length [T_CANCELLED, T_COMPLETED, T_CANCELLED]"
      using len by simp
    fix i assume "i < length (map t_status (w_tasks w'))"
    then have "i = 0 \<or> i = 1 \<or> i = 2" using len by auto
    then show "map t_status (w_tasks w') ! i = [T_CANCELLED, T_COMPLETED, T_CANCELLED] ! i"
      using len t0 t1 t2 by (auto simp: review_approved_workflow_def)
  qed
  have res: "t_result (w_tasks w' ! 1) = Some (VDict [(''ok'', VBool True)])"
    using t1 by (simp add: review_approved_workflow_def)
  have again: "cancel_workflow s' ''u'' ''again'' = Inl (WorkflowStateError CANCELLED)"
    using cancel_workflow_frame [OF c(2), of "''again''"] c(3) by simp
  from st c(1,2,3) sts t1 res again show ?thesis by simp
qed

section \<open>C7: \<open>delegate_approval\<close>\<close>

text \<open>
  C7: on a task in \<open>WAITING_APPROVAL\<close> with a pending approval \<open>a\<close>,
  \<open>delegate_approval\<close> marks \<open>a\<close> as \<open>DELEGATED\<close> and appends a pending approval for
  the new approver, with a new id, to the task's approvals; no other approval, task
  field or task is changed, the task stays in \<open>WAITING_APPROVAL\<close>, and the workflow
  keeps its status and cursor. It raises the invalid-state error when the task is not
  in \<open>WAITING_APPROVAL\<close> or the approval is not pending. The consensus loop of
  \<open>approve_task\<close> gives the same answer with the delegated approvals removed.
\<close>

theorem delegate_approval_effect:
  assumes w: "workflows s wid = Some w" and i: "find_task (w_tasks w) tid = Some i"
  shows "(t_status (w_tasks w ! i) \<noteq> T_WAITING_APPROVAL \<longrightarrow>
            delegate_approval s wid tid aid new_approver comment
              = Inl (TaskStateError (t_status (w_tasks w ! i))) \<and>
            is_invalid_state (TaskStateError (t_status (w_tasks w ! i)))) \<and>
         (t_status (w_tasks w ! i) = T_WAITING_APPROVAL \<longrightarrow>
            (\<forall>k. find_approval (t_approvals (w_tasks w ! i)) aid = Some k \<longrightarrow>
               (a_status (t_approvals (w_tasks w ! i) ! k) \<noteq> A_PENDING \<longrightarrow>
                  delegate_approval s wid tid aid new_approver comment
                    = Inl (ApprovalStateError (a_status (t_approvals (w_tasks w ! i) ! k))) \<and>
                  is_invalid_state (ApprovalStateError (a_status (t_approvals (w_tasks w ! i) ! k)))) \<and>
               (a_status (t_approvals (w_tasks w ! i) ! k) = A_PENDING \<longrightarrow>
                  (\<exists>s' w'. delegate_approval s wid tid aid new_approver comment = Inr s' \<and>
                     workflows s' wid = Some w' \<and>
                     w_status w' = w_status w \<and>
                     w_current_task_index w' = w_current_task_index w \<and>
                     w_tasks w' = (w_tasks w)
                       [i := (w_tasks w ! i)
                          \<lparr>t_approvals := (t_approvals (w_tasks w ! i))
                             [k := (t_approvals (w_tasks w ! i) ! k)
                                     \<lparr>a_status := A_DELEGATED, a_comment := comment\<rparr>]
                             @ [\<lparr>a_id = uuid_source s (uuid_count s), a_approver = new_approver,
                                  a_status = A_PENDING, a_comment = []\<rparr>]\<rparr>] \<and>
                     t_status (w_tasks w' ! i) = T_WAITING_APPROVAL)))) \<and>
         (\<forall>as r. check_approvals (filter (\<lambda>a. a_status a \<noteq> A_DELEGATED) as) r
                   = check_approvals as r)"
proof -
  have il: "i < length (w_tasks w)" using find_task_Some [OF i] by simp
  have "\<forall>as r. check_approvals (filter (\<lambda>a. a_status a \<noteq> A_DELEGATED) as) r
                 = check_approvals as r"
    using check_approvals_delegated [symmetric] by blast
  then show ?thesis
    using w i il
    by (simp add: delegate_approval_def Let_def uuid4_def workflows_simps)
qed

text \<open>
  In \<open>review_engine\<close> Alice delegates to Carol: Alice's approval is \<open>DELEGATED\<close>, Bob's
  is as it was, Carol's is new and pending. Delegating Alice's approval again, or an
  approval of a task that is still \<open>PENDING\<close>, raises.
\<close>

theorem delegate_approval_effect_witness:
  "(\<exists>s' w'. delegate_approval review_engine ''u'' ''ux'' ''uxx'' ''carol'' ''away'' = Inr s' \<and>
      workflows s' ''u'' = Some w' \<and> w_status w' = RUNNING \<and> w_current_task_index w' = 0 \<and>
      map t_status (w_tasks w') = [T_WAITING_APPROVAL, T_PENDING, T_PENDING] \<and>
      t_approvals (w_tasks w' ! 0) =
        [\<lparr>a_id = ''uxx'', a_approver = ''alice'', a_status = A_DELEGATED, a_comment = ''away''\<rparr>,
         \<lparr>a_id = ''uxxx'', a_approver = ''bob'', a_status = A_PENDING, a_comment = []\<rparr>,
         \<lparr>a_id = demo_uuid 11, a_approver = ''carol'', a_status = A_PENDING, a_comment = []\<rparr>] \<and>
      delegate_approval s' ''u'' ''ux'' ''uxx'' ''dave'' [] = Inl (ApprovalStateError A_DELEGATED)) \<and>
   delegate_approval review_engine ''u'' ''uxxxx'' ''none'' ''carol'' [] = Inl (TaskStateError T_PENDING)"
proof -
  have w: "workflows review_engine ''u'' = Some review_workflow"
    by (simp add: review_engine_workflows)
  have i: "find_task (w_tasks review_workflow) ''ux'' = Some 0"
    by (simp add: review_workflow_def)
  have j: "find_task (w_tasks review_workflow) ''uxxxx'' = Some 1"
    by (simp add: review_workflow_def)
  have k: "find_approval (t_approvals (w_tasks review_workflow ! 0)) ''uxx'' = Some 0"
    by (simp add: review_workflow_def)
  from delegate_approval_effect [OF w i, of "''uxx''" "''carol''" "''away''"] k
  obtain s' w' where d: "delegate_approval review_engine ''u'' ''ux'' ''uxx'' ''carol'' ''away'' = Inr s'"
    "workflows s' ''u'' = Some w'" "w_status w' = RUNNING" "w_current_task_index w' = 0"
    and ts: "w_tasks w' = (w_tasks review_workflow)
       [0 := (w_tasks review_workflow ! 0)
          \<lparr>t_approvals := (t_approvals (w_tasks review_workflow ! 0))
             [0 := (t_approvals (w_tasks review_workflow ! 0) ! 0)
                     \<lparr>a_status := A_DELEGATED, a_comment := ''away''\<rparr>]
             @ [\<lparr>a_id = uuid_source review_engine (uuid_count review_engine),
                  a_approver = ''carol'', a_status = A_PENDING, a_comment = []\<rparr>]\<rparr>]"
    by (auto simp: review_workflow_def)
  have sts: "map t_status (w_tasks w') = [T_WAITING_APPROVAL, T_PENDING, T_PENDING]"
    by (simp add: ts review_workflow_def)
  have as: "t_approvals (w_tasks w' ! 0) =
        [\<lparr>a_id = ''uxx'', a_approver = ''alice'', a_status = A_DELEGATED, a_comment = ''away''\<rparr>,
         \<lparr>a_id = ''uxxx'', a_approver = ''bob'', a_status = A_PENDING, a_comment = []\<rparr>,
         \<lparr>a_id = demo_uuid 11, a_approver = ''carol'', a_status = A_PENDING, a_comment = []\<rparr>]"
    by (simp add: ts review_workflow_def review_engine_fields)
  have i': "find_task (w_tasks w') ''ux'' = Some 0"
    by (simp add: ts review_workflow_def)
  have st0: "t_status (w_tasks w' ! 0) = T_WAITING_APPROVAL"
    by (simp add: ts review_workflow_def)
  have again: "delegate_approval s' ''u'' ''ux'' ''uxx'' ''dave'' [] = Inl (ApprovalStateError A_DELEGATED)"
    using delegate_approval_effect [OF d(2) i', of "''uxx''" "''dave''" "[]"] st0
    by (simp add: as)
  have other: "delegate_approval review_engine ''u'' ''uxxxx'' ''none'' ''carol'' []
                 = Inl (TaskStateError T_PENDING)"
    using delegate_approval_effect [OF w j, of "''none''" "''carol''" "[]"]
    by (simp add: review_workflow_def)
  from d(1,2,3,4) sts as again other show ?thesis by simp
qed

section \<open>C6: a handler that raises\<close>

lemma exiting_engine_workflows: "workflows exiting_engine = [''u'' \<mapsto> risky_workflow]"
  by (simp add: exiting_engine_def risky_template_def risky_workflow_def eval_simps)

lemma exiting_engine_fields:
  "uuid_count exiting_engine = 4" "uuid_source exiting_engine = demo_uuid"
  "task_handlers exiting_engine = [''boom'' \<mapsto> exiting_handler]"
  by (simp_all add: exiting_engine_def risky_template_def eval_simps)

text \<open>
  C6, as claimed: when the handler of an automatic task raises an exception during
  dispatch, the exception is captured and not re-raised to the caller, and the task and
  the workflow become \<open>FAILED\<close>. The clause in \<open>_execute_task\<close> is \<open>except Exception\<close>, and
  not every exception is an \<open>Exception\<close>. In \<open>exiting_engine\<close> the handler of the first
  task raises \<open>SystemExit\<close>: \<open>start_workflow\<close> does not return, the exception reaches its
  caller, the task is left \<open>RUNNING\<close> in a \<open>RUNNING\<close> workflow, and the history ends with
  \<open>task_started\<close>.
\<close>

theorem execute_task_handler_raises_counterexample:
  "task_handlers exiting_engine ''boom'' = Some exiting_handler \<and>
   exiting_handler ''u'' ''ux'' (data_heap exiting_engine 0) = Raises_BaseException ''shutdown'' \<and>
   map t_type (tasks_of exiting_engine ''u'') = [''boom'', ''manual''] \<and>
   task_statuses_of exiting_engine ''u'' = [T_PENDING, T_PENDING] \<and>
   start_workflow exiting_engine ''u''
     = Inr (Propagated ''shutdown'' (exec_op (StartWorkflow ''u'') exiting_engine)) \<and>
   task_statuses_of (exec_op (StartWorkflow ''u'') exiting_engine) ''u'' = [T_RUNNING, T_PENDING] \<and>
   workflow_status_of (exec_op (StartWorkflow ''u'') exiting_engine) ''u'' = Some RUNNING \<and>
   history_types_of (exec_op (StartWorkflow ''u'') exiting_engine) ''u''
     = [''workflow_created'', ''workflow_started'', ''task_started'']"
proof -
  have a: "start_workflow exiting_engine ''u''
     = Inr (Propagated ''shutdown'' (exec_op (StartWorkflow ''u'') exiting_engine))"
    by (simp add: exiting_engine_workflows exiting_engine_fields risky_workflow_def
        exiting_handler_def eval_simps)
  have b: "task_statuses_of (exec_op (StartWorkflow ''u'') exiting_engine) ''u'' = [T_RUNNING, T_PENDING]"
    "workflow_status_of (exec_op (StartWorkflow ''u'') exiting_engine) ''u'' = Some RUNNING"
    "history_types_of (exec_op (StartWorkflow ''u'') exiting_engine) ''u''
       = [''workflow_created'', ''workflow_started'', ''task_started'']"
    by (simp_all add: observe_defs exiting_engine_workflows exiting_engine_fields
        risky_workflow_def exiting_handler_def eval_simps)
  have c: "task_handlers exiting_engine ''boom'' = Some exiting_handler"
    "exiting_handler ''u'' ''ux'' (data_heap exiting_engine 0) = Raises_BaseException ''shutdown''"
    "map t_type (tasks_of exiting_engine ''u'') = [''boom'', ''manual'']"
    "task_statuses_of exiting_engine ''u'' = [T_PENDING, T_PENDING]"
    by (simp_all add: observe_defs exiting_engine_workflows exiting_engine_fields
        risky_workflow_def exiting_handler_def)
  from a b c show ?thesis by simp
qed

text \<open>
  C6, amended: when the handler of an automatic task raises an exception of class
  \<open>Exception\<close> during dispatch, \<open>_execute_task\<close> catches it and returns: the task is
  \<open>FAILED\<close> with nothing else of the tasks changed, the workflow is \<open>FAILED\<close> with its
  cursor where it was, and the history has grown by a \<open>task_failed\<close> event whose reason
  is the exception's message, then a \<open>workflow_failed\<close> event. When the handler raises
  an exception outside \<open>Exception\<close> (\<open>SystemExit\<close>, \<open>KeyboardInterrupt\<close>, \<open>GeneratorExit\<close>),
  \<open>_execute_task\<close> writes nothing and the exception goes on to the caller.
\<close>

theorem execute_task_handler_raises:
  assumes w: "workflows s wid = Some w" and i: "find_task (w_tasks w) tid = Some i"
    and h: "task_handlers s (t_type (w_tasks w ! i)) = Some handler"
  shows "(handler wid tid (data_heap s (t_data (w_tasks w ! i))) = Raises_Exception msg \<longrightarrow>
            (\<exists>s' w'. execute_task s wid tid = Returned s' \<and>
               workflows s' wid = Some w' \<and>
               w_tasks w' = (w_tasks w)[i := (w_tasks w ! i)\<lparr>t_status := T_FAILED\<rparr>] \<and>
               t_status (w_tasks w' ! i) = T_FAILED \<and>
               w_status w' = FAILED \<and>
               w_current_task_index w' = w_current_task_index w \<and>
               w_history w' = w_history w @
                 [\<lparr>e_id = uuid_source s (uuid_count s), e_type = ''task_failed'',
                   e_data = [(''workflow_id'', VStr wid), (''task_id'', VStr tid),
                             (''task_name'', VStr (t_name (w_tasks w ! i))),
                             (''reason'', VStr msg)]\<rparr>,
                  \<lparr>e_id = uuid_source s (Suc (uuid_count s)), e_type = ''workflow_failed'',
                   e_data = [(''workflow_id'', VStr wid), (''workflow_name'', VStr (w_name w)),
                             (''reason'',
                              VStr (''Task fehlgeschlagen: '' @ t_name (w_tasks w ! i)))]\<rparr>])) \<and>
         (handler wid tid (data_heap s (t_data (w_tasks w ! i))) = Raises_BaseException msg \<longrightarrow>
            execute_task s wid tid = Propagated msg s)"
proof (intro conjI impI)
  have il: "i < length (w_tasks w)" and id: "t_id (w_tasks w ! i) = tid"
    using find_task_Some [OF i] by simp_all
  assume r: "handler wid tid (data_heap s (t_data (w_tasks w ! i))) = Raises_Exception msg"
  have "execute_task s wid tid = Returned (fail_task s wid i msg)"
    by (subst execute_task.simps) (simp add: w i h r)
  then show "\<exists>s' w'. execute_task s wid tid = Returned s' \<and>
               workflows s' wid = Some w' \<and>
               w_tasks w' = (w_tasks w)[i := (w_tasks w ! i)\<lparr>t_status := T_FAILED\<rparr>] \<and>
               t_status (w_tasks w' ! i) = T_FAILED \<and>
               w_status w' = FAILED \<and>
               w_current_task_index w' = w_current_task_index w \<and>
               w_history w' = w_history w @
                 [\<lparr>e_id = uuid_source s (uuid_count s), e_type = ''task_failed'',
                   e_data = [(''workflow_id'', VStr wid), (''task_id'', VStr tid),
                             (''task_name'', VStr (t_name (w_tasks w ! i))),
                             (''reason'', VStr msg)]\<rparr>,
                  \<lparr>e_id = uuid_source s (Suc (uuid_count s)), e_type = ''workflow_failed'',
                   e_data = [(''workflow_id'', VStr wid), (''workflow_name'', VStr (w_name w)),
                             (''reason'',
                              VStr (''Task fehlgeschlagen: '' @ t_name (w_tasks w ! i)))]\<rparr>]"
    using il id by (simp add: workflows_fail_task [OF w])
next
  assume r: "handler wid tid (data_heap s (t_data (w_tasks w ! i))) = Raises_BaseException msg"
  show "execute_task s wid tid = Propagated msg s"
    by (subst execute_task.simps) (simp add: w i h r)
qed

text \<open>
  In \<open>risky_engine\<close> the handler of the first task raises an \<open>Exception\<close> with the message
  \<open>division by zero\<close>: the dispatch alone, and \<open>start_workflow\<close> as a whole, return with
  the task and the workflow failed and the message in the history. In \<open>exiting_engine\<close>
  the handler raises \<open>SystemExit\<close> and the dispatch passes it on.
\<close>

theorem execute_task_handler_raises_witness:
  "(\<exists>s' w'. execute_task risky_engine ''u'' ''ux'' = Returned s' \<and>
      workflows s' ''u'' = Some w' \<and>
      map t_status (w_tasks w') = [T_FAILED, T_PENDING] \<and> w_status w' = FAILED \<and>
      map e_type (w_history w') = [''workflow_created'', ''task_failed'', ''workflow_failed''] \<and>
      dict_get (e_data (w_history w' ! 1)) ''reason'' = Some (VStr ''division by zero'')) \<and>
   (\<exists>s'. start_workflow risky_engine ''u'' = Inr (Returned s') \<and>
      task_statuses_of s' ''u'' = [T_FAILED, T_PENDING] \<and>
      workflow_status_of s' ''u'' = Some FAILED \<and>
      history_types_of s' ''u'' =
        [''workflow_created'', ''workflow_started'', ''task_started'', ''task_failed'',
         ''workflow_failed'']) \<and>
   execute_task exiting_engine ''u'' ''ux'' = Propagated ''shutdown'' exiting_engine"
proof -
  have w: "workflows risky_engine ''u'' = Some risky_workflow"
    by (simp add: risky_engine_workflows)
  have i: "find_task (w_tasks risky_workflow) ''ux'' = Some 0"
    by (simp add: risky_workflow_def)
  have h: "task_handlers risky_engine (t_type (w_tasks risky_workflow ! 0)) = Some failing_handler"
    by (simp add: risky_engine_fields risky_workflow_def)
  have r: "failing_handler ''u'' ''ux'' (data_heap risky_engine (t_data (w_tasks risky_workflow ! 0)))
             = Raises_Exception ''division by zero''"
    by (simp add: failing_handler_def)
  have first: "\<exists>s' w'. execute_task risky_engine ''u'' ''ux'' = Returned s' \<and>
      workflows s' ''u'' = Some w' \<and>
      map t_status (w_tasks w') = [T_FAILED, T_PENDING] \<and> w_status w' = FAILED \<and>
      map e_type (w_history w') = [''workflow_created'', ''task_failed'', ''workflow_failed''] \<and>
      dict_get (e_data (w_history w' ! 1)) ''reason'' = Some (VStr ''division by zero'')"
    using execute_task_handler_raises [OF w i h, of "''division by zero''"] r
    by (simp add: risky_workflow_def) fastforce
  have second: "\<exists>s'. start_workflow risky_engine ''u'' = Inr (Returned s') \<and>
      task_statuses_of s' ''u'' = [T_FAILED, T_PENDING] \<and>
      workflow_status_of s' ''u'' = Some FAILED \<and>
      history_types_of s' ''u'' =
        [''workflow_created'', ''workflow_started'', ''task_started'', ''task_failed'',
         ''workflow_failed'']"
    by (simp add: observe_defs risky_engine_workflows risky_engine_fields risky_workflow_def
        failing_handler_def eval_simps)
  have w': "workflows exiting_engine ''u'' = Some risky_workflow"
    by (simp add: exiting_engine_workflows)
  have h': "task_handlers exiting_engine (t_type (w_tasks risky_workflow ! 0)) = Some exiting_handler"
    by (simp add: exiting_engine_fields risky_workflow_def)
  have r': "exiting_handler ''u'' ''ux'' (data_heap exiting_engine (t_data (w_tasks risky_workflow ! 0)))
             = Raises_BaseException ''shutdown''"
    by (simp add: exiting_handler_def)
  have third: "execute_task exiting_engine ''u'' ''ux'' = Propagated ''shutdown'' exiting_engine"
    using execute_task_handler_raises [OF w' i h', of "''shutdown''"] r' by simp
  from first second third show ?thesis by blast
qed

section \<open>Task execution writes status, cursor and history only\<close>

lemma workflow_static_tasks:
  assumes "workflow_static w' = workflow_static w"
  shows "length (w_tasks w') = length (w_tasks w)"
    and "i < length (w_tasks w) \<Longrightarrow> task_static (w_tasks w' ! i) = task_static (w_tasks w ! i)"
proof -
  have "w_tasks (workflow_static w') = w_tasks (workflow_static w)"
    using assms by simp
  then have m: "map task_static (w_tasks w') = map task_static (w_tasks w)"
    by (simp add: workflow_static_def)
  then show l: "length (w_tasks w') = length (w_tasks w)" by (rule map_eq_imp_length_eq)
  show "task_static (w_tasks w' ! i) = task_static (w_tasks w ! i)" if "i < length (w_tasks w)"
    using m l that by (metis nth_map)
qed

lemma task_static_fields:
  assumes "task_static t' = task_static t"
  shows "t_id t' = t_id t" "t_approvers t' = t_approvers t" "t_approvals t' = t_approvals t"
    "t_type t' = t_type t" "t_dependencies t' = t_dependencies t" "t_data t' = t_data t"
    "t_name t' = t_name t"
proof -
  have "t_id (task_static t') = t_id (task_static t)"
    "t_approvers (task_static t') = t_approvers (task_static t)"
    "t_approvals (task_static t') = t_approvals (task_static t)"
    "t_type (task_static t') = t_type (task_static t)"
    "t_dependencies (task_static t') = t_dependencies (task_static t)"
    "t_data (task_static t') = t_data (task_static t)"
    "t_name (task_static t') = t_name (task_static t)"
    using assms by simp_all
  then show "t_id t' = t_id t" "t_approvers t' = t_approvers t" "t_approvals t' = t_approvals t"
    "t_type t' = t_type t" "t_dependencies t' = t_dependencies t" "t_data t' = t_data t"
    "t_name t' = t_name t"
    by (simp_all add: task_static_def)
qed

lemma task_static_status [simp]:
  "task_static (t\<lparr>t_status := st\<rparr>) = task_static t"
  "task_static (t\<lparr>t_result := r\<rparr>) = task_static t"
  by (simp_all add: task_static_def)

lemma workflow_static_ids:
  assumes "workflow_static w' = workflow_static w"
  shows "map t_id (w_tasks w') = map t_id (w_tasks w)"
proof (rule nth_equalityI)
  show "length (map t_id (w_tasks w')) = length (map t_id (w_tasks w))"
    using workflow_static_tasks(1) [OF assms] by simp
  fix i assume "i < length (map t_id (w_tasks w'))"
  then have i: "i < length (w_tasks w)" using workflow_static_tasks(1) [OF assms] by simp
  from task_static_fields(1) [OF workflow_static_tasks(2) [OF assms i]] i
  show "map t_id (w_tasks w') ! i = map t_id (w_tasks w) ! i"
    using workflow_static_tasks(1) [OF assms] by simp
qed

lemma keeps_gate_refl: "keeps_gate w w"
  by (simp add: keeps_gate_def)

lemma keeps_gate_trans:
  assumes "workflow_static w' = workflow_static w" "keeps_gate w w'" "keeps_gate w' w''"
  shows "keeps_gate w w''"
  unfolding keeps_gate_def
proof (intro allI impI)
  fix i assume i: "i < length (w_tasks w)"
    and g: "t_approvers (w_tasks w ! i) \<noteq> [] \<and> t_status (w_tasks w ! i) \<noteq> T_COMPLETED"
  have a: "t_approvers (w_tasks w' ! i) = t_approvers (w_tasks w ! i)"
    using task_static_fields(2) [OF workflow_static_tasks(2) [OF assms(1) i]] .
  have "t_status (w_tasks w' ! i) \<noteq> T_COMPLETED"
    using assms(2) i g by (simp add: keeps_gate_def)
  moreover have "i < length (w_tasks w')" using workflow_static_tasks(1) [OF assms(1)] i by simp
  ultimately show "t_status (w_tasks w'' ! i) \<noteq> T_COMPLETED"
    using assms(3) a g by (simp add: keeps_gate_def)
qed

lemma evolves_refl: "evolves s s wid"
  by (simp add: evolves_def keeps_gate_refl split: option.splits)

lemma evolves_trans:
  assumes "evolves s s' wid" "evolves s' s'' wid"
  shows "evolves s s'' wid"
proof (cases "workflows s wid")
  case None
  with assms show ?thesis by (simp add: evolves_def)
next
  case (Some w)
  with assms(1) obtain w' where w': "workflows s' wid = Some w'"
    "workflow_static w' = workflow_static w" "keeps_gate w w'"
    by (auto simp: evolves_def)
  with assms(2) obtain w'' where w'': "workflows s'' wid = Some w''"
    "workflow_static w'' = workflow_static w'" "keeps_gate w' w''"
    by (auto simp: evolves_def)
  have "keeps_gate w w''" using keeps_gate_trans [OF w'(2) w'(3) w''(3)] .
  with Some w' w'' assms show ?thesis by (simp add: evolves_def)
qed


lemma workflow_static_update [simp]:
  "workflow_static (w\<lparr>w_status := st\<rparr>) = workflow_static w"
  "workflow_static (w\<lparr>w_current_task_index := c\<rparr>) = workflow_static w"
  "workflow_static (w\<lparr>w_history := h\<rparr>) = workflow_static w"
  by (simp_all add: workflow_static_def)

lemma workflow_static_task_update:
  "task_static t' = task_static (w_tasks w ! i) \<Longrightarrow>
   workflow_static (w\<lparr>w_tasks := (w_tasks w)[i := t']\<rparr>) = workflow_static w"
  by (simp add: workflow_static_def map_update map_update_same)

lemma keeps_gate_task_update:
  assumes "w_tasks w' = (w_tasks w)[i := t']"
    and "t_status t' = T_COMPLETED \<Longrightarrow>
           t_approvers (w_tasks w ! i) = [] \<or> t_status (w_tasks w ! i) = T_COMPLETED"
  shows "keeps_gate w w'"
  unfolding keeps_gate_def
proof (intro allI impI)
  fix j assume "j < length (w_tasks w)"
    and "t_approvers (w_tasks w ! j) \<noteq> [] \<and> t_status (w_tasks w ! j) \<noteq> T_COMPLETED"
  then show "t_status (w_tasks w' ! j) \<noteq> T_COMPLETED"
    using assms by (cases "j = i") auto
qed

lemma keeps_gate_same_tasks: "w_tasks w' = w_tasks w \<Longrightarrow> keeps_gate w w'"
  by (simp add: keeps_gate_def)

lemma evolves_fail_task: "evolves s (fail_task s wid i reason) wid"
proof (cases "workflows s wid")
  case None
  then show ?thesis by (simp add: fail_task_def evolves_refl)
next
  case (Some w)
  have "uuid_count s \<le> uuid_count (fail_task s wid i reason)"
    by (simp add: fail_task_def Let_def Some uuid_count_add_history_event workflows_simps)
  moreover have "keeps_gate w
     (w\<lparr>w_tasks := (w_tasks w)[i := (w_tasks w ! i)\<lparr>t_status := T_FAILED\<rparr>], w_status := st,
        w_history := h\<rparr>)" for st h
    by (rule keeps_gate_task_update [where i = i and t' = "(w_tasks w ! i)\<lparr>t_status := T_FAILED\<rparr>"])
       simp_all
  ultimately show ?thesis
    unfolding evolves_def
    by (simp add: workflows_fail_task [OF Some] workflows_fail_task_other Some
        workflow_static_task_update)
       (simp add: fail_task_def Let_def Some)
qed

lemma evolves_add_history_event: "evolves s (add_history_event s wid ty d) wid"
  unfolding evolves_def
  by (simp add: workflows_simps uuid_count_add_history_event keeps_gate_same_tasks
      split: option.splits)

lemma evolves_upd_workflow:
  assumes "\<And>w. workflows s wid = Some w \<Longrightarrow>
             workflow_static (f w) = workflow_static w \<and> keeps_gate w (f w)"
  shows "evolves s (upd_workflow s wid f) wid"
  unfolding evolves_def using assms
  by (simp add: workflows_simps split: option.splits)

lemma evolves_upd_task:
  assumes "\<And>w. workflows s wid = Some w \<Longrightarrow>
             task_static (f (w_tasks w ! i)) = task_static (w_tasks w ! i) \<and>
             (t_status (f (w_tasks w ! i)) = T_COMPLETED \<longrightarrow>
                t_approvers (w_tasks w ! i) = [] \<or> t_status (w_tasks w ! i) = T_COMPLETED)"
  shows "evolves s (upd_task s wid i f) wid"
  unfolding upd_task_def
proof (rule evolves_upd_workflow, intro conjI)
  fix w assume w: "workflows s wid = Some w"
  show "workflow_static (w\<lparr>w_tasks := (w_tasks w)[i := f (w_tasks w ! i)]\<rparr>) = workflow_static w"
    using assms [OF w] by (simp add: workflow_static_task_update)
  show "keeps_gate w (w\<lparr>w_tasks := (w_tasks w)[i := f (w_tasks w ! i)]\<rparr>)"
    by (rule keeps_gate_task_update [where i = i and t' = "f (w_tasks w ! i)"])
       (use assms [OF w] in simp_all)
qed

text \<open>
  \<open>complete_task\<close> on a task with approvers: the status written last is
  \<open>WAITING_APPROVAL\<close>.
\<close>

lemma list_update_twice: "xs[i := a, i := g (xs[i := a] ! i)] = xs[i := g a]"
  by (cases "i < length xs") (simp_all add: list_update_beyond)

lemma evolves_complete_gated:
  assumes w: "workflows s wid = Some w"
  shows "evolves s
           (add_history_event
              (upd_task
                 (add_history_event
                    (upd_task s wid i (\<lambda>t. t\<lparr>t_status := T_COMPLETED, t_result := r\<rparr>))
                    wid ty d)
                 wid i (\<lambda>t. t\<lparr>t_status := T_WAITING_APPROVAL\<rparr>))
              wid ty' d')
           wid"
proof -
  let ?t = "(w_tasks w ! i)\<lparr>t_result := r, t_status := T_WAITING_APPROVAL\<rparr>"
  have g: "keeps_gate w (w\<lparr>w_tasks := (w_tasks w)[i := ?t], w_history := h\<rparr>)" for h
    by (rule keeps_gate_task_update [where i = i and t' = ?t]) simp_all
  have st: "workflow_static (w\<lparr>w_tasks := (w_tasks w)[i := ?t]\<rparr>) = workflow_static w"
    by (rule workflow_static_task_update) simp
  show ?thesis
    unfolding evolves_def using w g st
    by (simp add: workflows_simps uuid_count_add_history_event list_update_twice
        del: list_update_overwrite)
qed

text \<open>
  The three methods together, by induction along their calls.
\<close>

lemma evolves_execution:
  shows "case complete_task s wid tid result of
           Inl e \<Rightarrow> True
         | Inr out \<Rightarrow> evolves s (engine_of out) wid"
    and "evolves s (engine_of (process_next_task s wid)) wid"
    and "evolves s (engine_of (execute_task s wid tid)) wid"
proof (induction s wid tid result and s wid and s wid tid
       rule: complete_task_process_next_task_execute_task.induct)
  case (1 s wid tid result)
  show ?case
  proof (cases "workflows s wid")
    case None
    then show ?thesis by (subst complete_task.simps) simp
  next
    case w: (Some w)
    show ?thesis
    proof (cases "find_task (w_tasks w) tid")
      case None
      with w show ?thesis by (subst complete_task.simps) simp
    next
      case i: (Some i)
      let ?task = "w_tasks w ! i"
      show ?thesis
      proof (cases "t_status ?task \<noteq> T_RUNNING \<and> t_status ?task \<noteq> T_WAITING_INPUT")
        case True
        with w i show ?thesis by (subst complete_task.simps) simp
      next
        case active: False
        let ?s1 = "upd_task s wid i (\<lambda>t. t\<lparr>t_status := T_COMPLETED, t_result := Some result\<rparr>)"
        let ?s2 = "add_history_event ?s1 wid ''task_completed''
                     [(''workflow_id'', VStr wid), (''task_id'', VStr tid),
                      (''task_name'', VStr (t_name ?task))]"
        show ?thesis
        proof (cases "t_approvers ?task \<noteq> []")
          case True
          with w i active show ?thesis
            by (subst complete_task.simps) (simp add: Let_def evolves_complete_gated [OF w])
        next
          case none: False
          let ?s3 = "upd_workflow ?s2 wid (\<lambda>w. w\<lparr>w_current_task_index := i + 1\<rparr>)"
          have e1: "evolves s ?s1 wid"
            by (rule evolves_upd_task) (use w none in simp)
          have e2: "evolves ?s1 ?s2 wid" by (rule evolves_add_history_event)
          have e3: "evolves ?s2 ?s3 wid"
            by (rule evolves_upd_workflow) (simp add: keeps_gate_same_tasks)
          have e4: "evolves ?s3 (engine_of (process_next_task ?s3 wid)) wid"
            using "1.IH" [OF w i refl active refl refl none] .
          have "evolves s (engine_of (process_next_task ?s3 wid)) wid"
            using evolves_trans [OF evolves_trans [OF evolves_trans [OF e1 e2] e3] e4] .
          with w i active none show ?thesis
            by (subst complete_task.simps) (simp add: Let_def)
        qed
      qed
    qed
  qed
next
  case (2 s wid)
  show ?case
  proof (cases "workflows s wid")
    case None
    then show ?thesis by (subst process_next_task.simps) (simp add: evolves_refl)
  next
    case w: (Some w)
    let ?c = "w_current_task_index w"
    show ?thesis
    proof (cases "length (w_tasks w) \<le> ?c")
      case True
      have "evolves s (upd_workflow s wid (\<lambda>w. w\<lparr>w_status := COMPLETED\<rparr>)) wid"
        by (rule evolves_upd_workflow) (simp add: keeps_gate_same_tasks)
      from evolves_trans [OF this evolves_add_history_event] w True show ?thesis
        by (subst process_next_task.simps) simp
    next
      case inside: False
      let ?task = "w_tasks w ! ?c"
      show ?thesis
      proof (cases "dependencies_met (w_tasks w) (t_dependencies ?task)")
        case False
        have "evolves s (upd_workflow s wid (\<lambda>w. w\<lparr>w_status := WAITING\<rparr>)) wid"
          by (rule evolves_upd_workflow) (simp add: keeps_gate_same_tasks)
        from evolves_trans [OF this evolves_add_history_event] w inside False show ?thesis
          by (subst process_next_task.simps) (simp add: Let_def)
      next
        case met: True
        let ?s1 = "upd_task s wid ?c (\<lambda>t. t\<lparr>t_status := T_RUNNING\<rparr>)"
        let ?s2 = "add_history_event ?s1 wid ''task_started''
                     [(''workflow_id'', VStr wid), (''task_id'', VStr (t_id ?task)),
                      (''task_name'', VStr (t_name ?task))]"
        have e1: "evolves s ?s1 wid" by (rule evolves_upd_task) simp
        have e2: "evolves ?s1 ?s2 wid" by (rule evolves_add_history_event)
        have e3: "evolves ?s2 (engine_of (execute_task ?s2 wid (t_id ?task))) wid"
          using "2.IH" [OF w inside refl] met by simp
        from evolves_trans [OF evolves_trans [OF e1 e2] e3] w inside met show ?thesis
          by (subst process_next_task.simps) (simp add: Let_def)
      qed
    qed
  qed
next
  case (3 s wid tid)
  show ?case
  proof (cases "workflows s wid")
    case None
    then show ?thesis by (subst execute_task.simps) (simp add: evolves_refl)
  next
    case w: (Some w)
    show ?thesis
    proof (cases "find_task (w_tasks w) tid")
      case None
      with w show ?thesis by (subst execute_task.simps) (simp add: evolves_refl)
    next
      case i: (Some i)
      let ?task = "w_tasks w ! i"
      show ?thesis
      proof (cases "task_handlers s (t_type ?task)")
        case None
        have "evolves s (upd_task s wid i (\<lambda>t. t\<lparr>t_status := T_WAITING_INPUT\<rparr>)) wid"
          by (rule evolves_upd_task) simp
        from evolves_trans [OF this evolves_add_history_event] w i None show ?thesis
          by (subst execute_task.simps) (simp add: Let_def evolves_refl evolves_fail_task)
      next
        case h: (Some handler)
        show ?thesis
        proof (cases "handler wid tid (data_heap s (t_data ?task))")
          case (Raises_BaseException msg)
          with w i h show ?thesis
            by (subst execute_task.simps) (simp add: Let_def evolves_refl)
        next
          case (Raises_Exception msg)
          with w i h show ?thesis
            by (subst execute_task.simps) (simp add: Let_def evolves_fail_task)
        next
          case r: (Returns res)
          show ?thesis
          proof (cases "complete_task s wid tid res")
            case (Inl e)
            with w i h r show ?thesis
              by (subst execute_task.simps) (simp add: Let_def evolves_fail_task)
          next
            case (Inr out)
            with "3.IH" [OF w i refl h r] w i h r show ?thesis
              by (subst execute_task.simps) (simp add: Let_def)
          qed
        qed
      qed
    qed
  qed
qed

section \<open>With distinct task ids the cursor only moves forward\<close>

lemma find_task_distinct:
  assumes "distinct (map t_id ts)" "c < length ts"
  shows "find_task ts (t_id (ts ! c)) = Some c"
proof -
  obtain f where f: "find_task ts (t_id (ts ! c)) = Some f" "f \<le> c"
    using find_task_le [OF assms(2)] by blast
  then have "f < length ts" "t_id (ts ! f) = t_id (ts ! c)"
    using find_task_Some [OF f(1)] by simp_all
  then have "map t_id ts ! f = map t_id ts ! c" using assms(2) by simp
  then have "f = c"
    using assms \<open>f < length ts\<close> nth_eq_iff_index_eq [of "map t_id ts" f c] by simp
  with f show ?thesis by simp
qed

lemma advances_fail_task:
  assumes w: "workflows s wid = Some w"
  shows "\<exists>w'. workflows (fail_task s wid i reason) wid = Some w' \<and> advances i w w'"
  by (simp add: workflows_fail_task [OF w] advances_def)

lemma forward_execution:
  shows "\<forall>w i. workflows s wid = Some w \<longrightarrow> distinct (map t_id (w_tasks w)) \<longrightarrow>
           find_task (w_tasks w) tid = Some i \<longrightarrow>
           (case complete_task s wid tid result of
              Inl e \<Rightarrow> True
            | Inr out \<Rightarrow> (\<exists>w'. workflows (engine_of out) wid = Some w' \<and> advances i w w'))"
    and "\<forall>w. workflows s wid = Some w \<longrightarrow> distinct (map t_id (w_tasks w)) \<longrightarrow>
           (\<exists>w'. workflows (engine_of (process_next_task s wid)) wid = Some w' \<and>
                 advances (w_current_task_index w) w w')"
    and "\<forall>w i. workflows s wid = Some w \<longrightarrow> distinct (map t_id (w_tasks w)) \<longrightarrow>
           find_task (w_tasks w) tid = Some i \<longrightarrow>
           (\<exists>w'. workflows (engine_of (execute_task s wid tid)) wid = Some w' \<and> advances i w w')"
proof (induction s wid tid result and s wid and s wid tid
       rule: complete_task_process_next_task_execute_task.induct)
  case (1 s wid tid result)
  show ?case
  proof (intro allI impI)
    fix w i
    assume w: "workflows s wid = Some w" and d: "distinct (map t_id (w_tasks w))"
      and i: "find_task (w_tasks w) tid = Some i"
    let ?task = "w_tasks w ! i"
    have il: "i < length (w_tasks w)" using find_task_Some [OF i] by simp
    show "case complete_task s wid tid result of
            Inl e \<Rightarrow> True
          | Inr out \<Rightarrow> (\<exists>w'. workflows (engine_of out) wid = Some w' \<and> advances i w w')"
    proof (cases "t_status ?task \<noteq> T_RUNNING \<and> t_status ?task \<noteq> T_WAITING_INPUT")
      case True
      with w i show ?thesis by (subst complete_task.simps) simp
    next
      case active: False
      let ?s1 = "upd_task s wid i (\<lambda>t. t\<lparr>t_status := T_COMPLETED, t_result := Some result\<rparr>)"
      let ?s2 = "add_history_event ?s1 wid ''task_completed''
                   [(''workflow_id'', VStr wid), (''task_id'', VStr tid),
                    (''task_name'', VStr (t_name ?task))]"
      show ?thesis
      proof (cases "t_approvers ?task \<noteq> []")
        case True
        with w i active show ?thesis
          by (subst complete_task.simps)
             (simp add: Let_def workflows_simps advances_def)
      next
        case none: False
        let ?s3 = "upd_workflow ?s2 wid (\<lambda>w. w\<lparr>w_current_task_index := i + 1\<rparr>)"
        let ?w3 = "w\<lparr>w_tasks := (w_tasks w)[i := ?task\<lparr>t_status := T_COMPLETED, t_result := Some result\<rparr>],
                    w_history := w_history w @
                      [\<lparr>e_id = uuid_source s (uuid_count s), e_type = ''task_completed'',
                        e_data = [(''workflow_id'', VStr wid), (''task_id'', VStr tid),
                                  (''task_name'', VStr (t_name ?task))]\<rparr>],
                    w_current_task_index := i + 1\<rparr>"
        have w3: "workflows ?s3 wid = Some ?w3"
          using w by (simp add: workflows_simps)
        have d3: "distinct (map t_id (w_tasks ?w3))"
          using d by (simp add: map_update map_update_same)
        from "1.IH" [OF w i refl active refl refl none, rule_format, OF w3 d3]
        obtain w' where w': "workflows (engine_of (process_next_task ?s3 wid)) wid = Some w'"
          "advances (i + 1) ?w3 w'" by auto
        have "advances i w w'"
          using w'(2) by (auto simp: advances_def)
        with w' w i active none show ?thesis
          by (subst complete_task.simps) (simp add: Let_def)
      qed
    qed
  qed
next
  case (2 s wid)
  show ?case
  proof (intro allI impI)
    fix w
    assume w: "workflows s wid = Some w" and d: "distinct (map t_id (w_tasks w))"
    let ?c = "w_current_task_index w"
    show "\<exists>w'. workflows (engine_of (process_next_task s wid)) wid = Some w' \<and> advances ?c w w'"
    proof (cases "length (w_tasks w) \<le> ?c")
      case True
      with w show ?thesis
        by (subst process_next_task.simps) (simp add: workflows_simps advances_def)
    next
      case inside: False
      let ?task = "w_tasks w ! ?c"
      show ?thesis
      proof (cases "dependencies_met (w_tasks w) (t_dependencies ?task)")
        case False
        with w inside show ?thesis
          by (subst process_next_task.simps) (simp add: Let_def workflows_simps advances_def)
      next
        case met: True
        let ?s2 = "add_history_event (upd_task s wid ?c (\<lambda>t. t\<lparr>t_status := T_RUNNING\<rparr>))
                     wid ''task_started''
                     [(''workflow_id'', VStr wid), (''task_id'', VStr (t_id ?task)),
                      (''task_name'', VStr (t_name ?task))]"
        let ?w2 = "w\<lparr>w_tasks := (w_tasks w)[?c := ?task\<lparr>t_status := T_RUNNING\<rparr>],
                    w_history := w_history w @
                      [\<lparr>e_id = uuid_source s (uuid_count s), e_type = ''task_started'',
                        e_data = [(''workflow_id'', VStr wid), (''task_id'', VStr (t_id ?task)),
                                  (''task_name'', VStr (t_name ?task))]\<rparr>]\<rparr>"
        have w2: "workflows ?s2 wid = Some ?w2"
          using w by (simp add: workflows_simps)
        have d2: "distinct (map t_id (w_tasks ?w2))"
          using d by (simp add: map_update map_update_same)
        have f2: "find_task (w_tasks ?w2) (t_id ?task) = Some ?c"
          using find_task_distinct [OF d] inside by (simp add: find_task_list_update)
        have m: "\<not> \<not> dependencies_met (w_tasks w) (t_dependencies ?task)" using met by simp
        from "2.IH" [OF w inside refl m, rule_format, OF w2 d2 f2]
        obtain w' where w': "workflows (engine_of (execute_task ?s2 wid (t_id ?task))) wid = Some w'"
          "advances ?c ?w2 w'" by auto
        have "advances ?c w w'"
          using w'(2) by (auto simp: advances_def)
        with w' w inside met show ?thesis
          by (subst process_next_task.simps) (simp add: Let_def)
      qed
    qed
  qed
next
  case (3 s wid tid)
  show ?case
  proof (intro allI impI)
    fix w i
    assume w: "workflows s wid = Some w" and d: "distinct (map t_id (w_tasks w))"
      and i: "find_task (w_tasks w) tid = Some i"
    let ?task = "w_tasks w ! i"
    show "\<exists>w'. workflows (engine_of (execute_task s wid tid)) wid = Some w' \<and> advances i w w'"
    proof (cases "task_handlers s (t_type ?task)")
      case None
      have same: "\<exists>w'. workflows s wid = Some w' \<and> advances i w w'"
        using w by (simp add: advances_def)
      have input: "\<exists>w'. workflows
                (add_history_event (upd_task s wid i (\<lambda>t. t\<lparr>t_status := T_WAITING_INPUT\<rparr>)) wid ty d)
                wid = Some w' \<and> advances i w w'" for ty d
        using w by (simp add: workflows_simps advances_def)
      from None w i same input advances_fail_task [OF w] show ?thesis
        by (subst execute_task.simps) (simp add: Let_def)
    next
      case h: (Some handler)
      show ?thesis
      proof (cases "handler wid tid (data_heap s (t_data ?task))")
        case (Raises_BaseException msg)
        have "\<exists>w'. workflows s wid = Some w' \<and> advances i w w'"
          using w by (simp add: advances_def)
        with Raises_BaseException w i h show ?thesis
          by (subst execute_task.simps) (simp add: Let_def)
      next
        case (Raises_Exception msg)
        with w i h show ?thesis
          by (subst execute_task.simps) (simp add: Let_def advances_fail_task [OF w])
      next
        case r: (Returns res)
        show ?thesis
        proof (cases "complete_task s wid tid res")
          case (Inl e)
          with w i h r show ?thesis
            by (subst execute_task.simps) (simp add: Let_def advances_fail_task [OF w])
        next
          case (Inr out)
          with "3.IH" [OF w i refl h r, rule_format, OF w d i] w i h r show ?thesis
            by (subst execute_task.simps) (simp add: Let_def)
        qed
      qed
    qed
  qed
qed

lemma find_approval_ids:
  "map a_id as = map a_id as' \<Longrightarrow> find_approval as aid = find_approval as' aid"
proof (induction as arbitrary: as')
  case Nil
  then show ?case by simp
next
  case (Cons a as)
  then obtain b bs where "as' = b # bs" by (cases as') auto
  with Cons show ?case by auto
qed

lemma find_approval_list_update:
  assumes "a_id a' = a_id (as ! k)"
  shows "find_approval (as[k := a']) aid = find_approval as aid"
  by (rule find_approval_ids) (simp add: map_update map_update_same assms)

text \<open>
  \<open>_process_next_task\<close> at the end of the task list, or at a task whose type has no
  handler, leaves the cursor where it is.
\<close>

lemma execute_task_no_handler_cursor:
  assumes w: "workflows s wid = Some w" and i: "find_task (w_tasks w) tid = Some i"
    and h: "task_handlers s (t_type (w_tasks w ! i)) = None"
  shows "\<exists>w'. workflows (engine_of (execute_task s wid tid)) wid = Some w' \<and>
               w_current_task_index w' = w_current_task_index w"
proof -
  have input: "\<exists>w'. workflows
            (add_history_event (upd_task s wid i (\<lambda>t. t\<lparr>t_status := T_WAITING_INPUT\<rparr>)) wid ty d)
            wid = Some w' \<and> w_current_task_index w' = w_current_task_index w" for ty d
    using w by (simp add: workflows_simps)
  have failed: "\<exists>w'. workflows (fail_task s wid i reason) wid = Some w' \<and>
            w_current_task_index w' = w_current_task_index w" for reason
    by (simp add: workflows_fail_task [OF w])
  from w i h input failed show ?thesis
    by (subst execute_task.simps) (simp add: Let_def)
qed

lemma process_next_task_cursor_stays:
  assumes w: "workflows s wid = Some w" and d: "distinct (map t_id (w_tasks w))"
    and stop: "length (w_tasks w) \<le> w_current_task_index w \<or>
               task_handlers s (t_type (w_tasks w ! w_current_task_index w)) = None"
  shows "\<exists>w'. workflows (engine_of (process_next_task s wid)) wid = Some w' \<and>
               w_current_task_index w' = w_current_task_index w"
proof (cases "length (w_tasks w) \<le> w_current_task_index w")
  case True
  with w show ?thesis
    by (subst process_next_task.simps) (simp add: workflows_simps)
next
  case inside: False
  let ?c = "w_current_task_index w"
  let ?task = "w_tasks w ! ?c"
  have none: "task_handlers s (t_type ?task) = None" using stop inside by simp
  show ?thesis
  proof (cases "dependencies_met (w_tasks w) (t_dependencies ?task)")
    case False
    with w inside show ?thesis
      by (subst process_next_task.simps) (simp add: Let_def workflows_simps)
  next
    case met: True
    let ?s2 = "add_history_event (upd_task s wid ?c (\<lambda>t. t\<lparr>t_status := T_RUNNING\<rparr>))
                 wid ''task_started''
                 [(''workflow_id'', VStr wid), (''task_id'', VStr (t_id ?task)),
                  (''task_name'', VStr (t_name ?task))]"
    let ?w2 = "w\<lparr>w_tasks := (w_tasks w)[?c := ?task\<lparr>t_status := T_RUNNING\<rparr>],
                w_history := w_history w @
                  [\<lparr>e_id = uuid_source s (uuid_count s), e_type = ''task_started'',
                    e_data = [(''workflow_id'', VStr wid), (''task_id'', VStr (t_id ?task)),
                              (''task_name'', VStr (t_name ?task))]\<rparr>]\<rparr>"
    have w2: "workflows ?s2 wid = Some ?w2" using w by (simp add: workflows_simps)
    have f2: "find_task (w_tasks ?w2) (t_id ?task) = Some ?c"
      using find_task_distinct [OF d] inside by (simp add: find_task_list_update)
    have h2: "task_handlers ?s2 (t_type (w_tasks ?w2 ! ?c)) = None"
      using none inside by simp
    have "\<exists>w'. workflows (engine_of (execute_task ?s2 wid (t_id ?task))) wid = Some w' \<and>
               w_current_task_index w' = ?c"
      using execute_task_no_handler_cursor [OF w2 f2 h2] by simp
    with w inside met show ?thesis
      by (subst process_next_task.simps) (simp add: Let_def)
  qed
qed


lemma workflows_step:
  assumes "workflows s wid = Some w"
  shows "\<exists>w'. workflows
           (upd_workflow (add_history_event (upd_task s wid i f) wid ty d) wid
              (\<lambda>w. w\<lparr>w_current_task_index := c\<rparr>)) wid = Some w' \<and>
           w_tasks w' = (w_tasks w)[i := f (w_tasks w ! i)] \<and> w_current_task_index w' = c"
  using assms by (simp add: workflows_simps)

lemma engine_step:
  assumes "workflows s wid = Some w"
  shows "upd_workflow (add_history_event (upd_task s wid i f) wid ty d) wid
           (\<lambda>w. w\<lparr>w_current_task_index := c\<rparr>)
         = s\<lparr>uuid_count := Suc (uuid_count s),
               workflows := (workflows s)
                 (wid \<mapsto> w\<lparr>w_tasks := (w_tasks w)[i := f (w_tasks w ! i)],
                            w_history := w_history w @
                              [\<lparr>e_id = uuid_source s (uuid_count s), e_type = ty, e_data = d\<rparr>],
                            w_current_task_index := c\<rparr>)\<rparr>"
  using assms by (simp add: upd_workflow_def upd_task_def add_history_event_def uuid4_def)

section \<open>C2: two approvers\<close>

text \<open>
  C2, as claimed: with exactly two live approvals, approving the first alone leaves
  the task in \<open>WAITING_APPROVAL\<close> and the cursor where it is, and after both have
  approved the cursor has advanced by exactly one. The second part fails: after the
  second approval \<open>approve_task\<close> sets the cursor one past the task and calls
  \<open>_process_next_task\<close>, which goes on through every task its handler completes. In
  \<open>review_engine\<close> the cursor is 0; after Alice's approval it is 0; after Bob's it is 2,
  because the notification has been sent by its handler.
\<close>

theorem approve_task_both_counterexample:
  "cursor_of review_engine ''u'' = Some 0 \<and>
   task_statuses_of review_engine ''u'' = [T_WAITING_APPROVAL, T_PENDING, T_PENDING] \<and>
   map a_status (t_approvals (tasks_of review_engine ''u'' ! 0)) = [A_PENDING, A_PENDING] \<and>
   cursor_of (exec_op (ApproveTask ''u'' ''ux'' ''uxx'' True ''ok'') review_engine) ''u'' = Some 0 \<and>
   review_approved =
     run [ApproveTask ''u'' ''ux'' ''uxx'' True ''ok'', ApproveTask ''u'' ''ux'' ''uxxx'' True ''ok'']
       review_engine \<and>
   cursor_of review_approved ''u'' = Some 2 \<and>
   task_statuses_of review_approved ''u'' = [T_WAITING_APPROVAL, T_COMPLETED, T_RUNNING]"
proof -
  have "cursor_of (exec_op (ApproveTask ''u'' ''ux'' ''uxx'' True ''ok'') review_engine) ''u'' = Some 0"
    by (simp add: observe_defs exec_op_def approve_task_def review_engine_workflows
        review_workflow_def Let_def workflows_simps)
  moreover have "cursor_of review_approved ''u'' = Some 2"
    "task_statuses_of review_approved ''u'' = [T_WAITING_APPROVAL, T_COMPLETED, T_RUNNING]"
    by (simp_all add: observe_defs review_approved_workflows review_approved_workflow_def)
  moreover have "cursor_of review_engine ''u'' = Some 0"
    "task_statuses_of review_engine ''u'' = [T_WAITING_APPROVAL, T_PENDING, T_PENDING]"
    "map a_status (t_approvals (tasks_of review_engine ''u'' ! 0)) = [A_PENDING, A_PENDING]"
    by (simp_all add: observe_defs review_engine_workflows review_workflow_def)
  ultimately show ?thesis
    by (simp only: review_approved_def [symmetric] simp_thms)
qed

text \<open>
  C2, amended: for a task in \<open>WAITING_APPROVAL\<close> of a workflow with distinct task ids,
  with exactly two approvals that are not delegated, both pending: \<open>approve_task\<close> with
  \<open>approved = True\<close> on the first alone returns with the task in \<open>WAITING_APPROVAL\<close> and
  the cursor unchanged. \<open>approve_task\<close> with \<open>approved = True\<close> on the second then
  records the approval, appends the \<open>task_approved\<close> event, sets the cursor one past the
  task and calls \<open>_process_next_task\<close> on that engine; the call ends as
  \<open>_process_next_task\<close> ends. After it the task is still in \<open>WAITING_APPROVAL\<close>, and the
  cursor is one past the task or further: exactly one past it when there is no next
  task or no handler is registered for the next task's type. Delegated approvals do not
  count.
\<close>

theorem approve_task_both:
  fixes c1 c2 :: string
  assumes w: "workflows s wid = Some w"
    and d: "distinct (map t_id (w_tasks w))"
    and i: "find_task (w_tasks w) tid = Some i"
    and st: "t_status (w_tasks w ! i) = T_WAITING_APPROVAL"
    and ka: "find_approval (t_approvals (w_tasks w ! i)) aidA = Some ka"
    and kb: "find_approval (t_approvals (w_tasks w ! i)) aidB = Some kb"
    and ne: "ka \<noteq> kb"
    and pa: "a_status (t_approvals (w_tasks w ! i) ! ka) = A_PENDING"
    and pb: "a_status (t_approvals (w_tasks w ! i) ! kb) = A_PENDING"
    and live: "\<forall>k < length (t_approvals (w_tasks w ! i)).
                 k \<noteq> ka \<longrightarrow> k \<noteq> kb \<longrightarrow> a_status (t_approvals (w_tasks w ! i) ! k) = A_DELEGATED"
  shows "\<exists>s1 w1. approve_task s wid tid aidA True c1 = Inr (Returned s1) \<and>
           workflows s1 wid = Some w1 \<and>
           t_status (w_tasks w1 ! i) = T_WAITING_APPROVAL \<and>
           w_current_task_index w1 = w_current_task_index w \<and>
           (\<exists>s3 w3 w2.
              approve_task s1 wid tid aidB True c2 = Inr (process_next_task s3 wid) \<and>
              s3 = s1\<lparr>uuid_count := Suc (uuid_count s1),
                      workflows := (workflows s1)(wid \<mapsto> w3)\<rparr> \<and>
              w3 = w1\<lparr>w_tasks := (w_tasks w1)
                         [i := (w_tasks w1 ! i)
                            \<lparr>t_approvals := (t_approvals (w_tasks w1 ! i))
                               [kb := (t_approvals (w_tasks w1 ! i) ! kb)
                                        \<lparr>a_status := A_APPROVED, a_comment := c2\<rparr>]\<rparr>],
                      w_history := w_history w1 @
                        [\<lparr>e_id = uuid_source s1 (uuid_count s1), e_type = ''task_approved'',
                          e_data = [(''workflow_id'', VStr wid), (''task_id'', VStr tid),
                                    (''task_name'', VStr (t_name (w_tasks w1 ! i))),
                                    (''approver'',
                                     VStr (a_approver (t_approvals (w_tasks w1 ! i) ! kb))),
                                    (''comment'', VStr c2)]\<rparr>],
                      w_current_task_index := Suc i\<rparr> \<and>
              workflows (engine_of (process_next_task s3 wid)) wid = Some w2 \<and>
              t_status (w_tasks w2 ! i) = T_WAITING_APPROVAL \<and>
              Suc i \<le> w_current_task_index w2 \<and>
              (length (w_tasks w) \<le> Suc i \<or> task_handlers s (t_type (w_tasks w ! Suc i)) = None
               \<longrightarrow> w_current_task_index w2 = Suc i))"
proof -
  let ?as = "t_approvals (w_tasks w ! i)"
  let ?as1 = "?as[ka := (?as ! ka)\<lparr>a_status := A_APPROVED, a_comment := c1\<rparr>]"
  let ?as2 = "?as1[kb := (?as1 ! kb)\<lparr>a_status := A_APPROVED, a_comment := c2\<rparr>]"
  have il: "i < length (w_tasks w)" and tid: "t_id (w_tasks w ! i) = tid"
    using find_task_Some [OF i] by simp_all
  have kal: "ka < length ?as" using find_approval_Some [OF ka] by simp
  have kbl: "kb < length ?as" using find_approval_Some [OF kb] by simp
  \<comment> \<open>the first approval\<close>
  let ?s1 = "add_history_event (upd_task s wid i (\<lambda>t. t\<lparr>t_approvals := ?as1\<rparr>)) wid ''task_approved''
       [(''workflow_id'', VStr wid), (''task_id'', VStr tid),
        (''task_name'', VStr (t_name (w_tasks w ! i))),
        (''approver'', VStr (a_approver (?as ! ka))), (''comment'', VStr c1)]"
  let ?w1 = "w\<lparr>w_tasks := (w_tasks w)[i := (w_tasks w ! i)\<lparr>t_approvals := ?as1\<rparr>],
              w_history := w_history w @
                [\<lparr>e_id = uuid_source s (uuid_count s), e_type = ''task_approved'',
                  e_data = [(''workflow_id'', VStr wid), (''task_id'', VStr tid),
                            (''task_name'', VStr (t_name (w_tasks w ! i))),
                            (''approver'', VStr (a_approver (?as ! ka))),
                            (''comment'', VStr c1)]\<rparr>]\<rparr>"
  have "?as1 ! kb \<in> set ?as1" using kbl by simp
  moreover have "a_status (?as1 ! kb) = A_PENDING" using ne pb by simp
  ultimately have pend1: "\<exists>a \<in> set ?as1. a_status a = A_PENDING" by blast
  have a1: "approve_task s wid tid aidA True c1 = Inr (Returned ?s1)"
    using approve_task_cases [OF w i st ka pa, of True c1] pend1 by simp
  have w1: "workflows ?s1 wid = Some ?w1" using w by (simp add: workflows_simps)
  have st1: "t_status (w_tasks ?w1 ! i) = T_WAITING_APPROVAL" using il st by simp
  have cur1: "w_current_task_index ?w1 = w_current_task_index w" by simp
  \<comment> \<open>the second approval\<close>
  have i1: "find_task (w_tasks ?w1) tid = Some i"
    using i by (simp add: find_task_list_update)
  have as1: "t_approvals (w_tasks ?w1 ! i) = ?as1" using il by simp
  have kb1: "find_approval (t_approvals (w_tasks ?w1 ! i)) aidB = Some kb"
    using kb il by (simp add: find_approval_list_update)
  have pb1: "a_status (t_approvals (w_tasks ?w1 ! i) ! kb) = A_PENDING"
    using ne pb il by simp
  have done2: "a_status a = A_APPROVED \<or> a_status a = A_DELEGATED" if "a \<in> set ?as2" for a
  proof -
    from that obtain k where k: "k < length ?as2" "?as2 ! k = a"
      by (auto simp: in_set_conv_nth)
    then have kl: "k < length ?as" by simp
    show ?thesis
    proof (cases "k = kb")
      case True
      with k kl show ?thesis by auto
    next
      case nb: False
      show ?thesis
      proof (cases "k = ka")
        case True
        with k kl nb show ?thesis by auto
      next
        case False
        with k kl nb live show ?thesis by auto
      qed
    qed
  qed
  then have nopend: "\<not> (\<exists>a \<in> set ?as2. a_status a = A_PENDING)"
    and norej: "\<not> (\<exists>a \<in> set ?as2. a_status a = A_REJECTED)"
    by fastforce+
  let ?ev2 = "[(''workflow_id'', VStr wid), (''task_id'', VStr tid),
        (''task_name'', VStr (t_name (w_tasks ?w1 ! i))),
        (''approver'', VStr (a_approver (t_approvals (w_tasks ?w1 ! i) ! kb))),
        (''comment'', VStr c2)]"
  let ?asB = "(t_approvals (w_tasks ?w1 ! i))
                [kb := (t_approvals (w_tasks ?w1 ! i) ! kb)\<lparr>a_status := A_APPROVED, a_comment := c2\<rparr>]"
  let ?s2 = "add_history_event (upd_task ?s1 wid i (\<lambda>t. t\<lparr>t_approvals := ?asB\<rparr>)) wid
               ''task_approved'' ?ev2"
  let ?s3 = "upd_workflow ?s2 wid (\<lambda>w. w\<lparr>w_current_task_index := Suc i\<rparr>)"
  let ?w3 = "?w1\<lparr>w_tasks := (w_tasks ?w1)[i := (w_tasks ?w1 ! i)\<lparr>t_approvals := ?asB\<rparr>],
                w_history := w_history ?w1 @
                  [\<lparr>e_id = uuid_source ?s1 (uuid_count ?s1), e_type = ''task_approved'',
                    e_data = ?ev2\<rparr>],
                w_current_task_index := Suc i\<rparr>"
  have asB: "?asB = ?as2" by (simp only: as1)
  have a2: "approve_task ?s1 wid tid aidB True c2 = Inr (process_next_task ?s3 wid)"
    using approve_task_cases [OF w1 i1 st1 kb1 pb1, of True c2] nopend norej
    by (simp only: asB if_True if_False)
  have s3: "?s3 = ?s1\<lparr>uuid_count := Suc (uuid_count ?s1),
                        workflows := (workflows ?s1)(wid \<mapsto> ?w3)\<rparr>"
    by (rule engine_step [OF w1])
  have w3: "workflows ?s3 wid = Some ?w3"
    by (subst s3) simp
  have ts3: "w_tasks ?w3 = (w_tasks ?w1)[i := (w_tasks ?w1 ! i)\<lparr>t_approvals := ?asB\<rparr>]"
    and cur3: "w_current_task_index ?w3 = Suc i"
    by simp_all
  have d3: "distinct (map t_id (w_tasks ?w3))"
    using d il by (simp add: map_update map_update_same)
  have len3: "length (w_tasks ?w3) = length (w_tasks w)" by simp
  have h3: "task_handlers ?s3 = task_handlers s" by simp
  from forward_execution(2) [rule_format, OF w3 d3]
  obtain w2 where w2: "workflows (engine_of (process_next_task ?s3 wid)) wid = Some w2"
    and adv: "advances (Suc i) ?w3 w2"
    by (auto simp only: cur3)
  have "w_tasks w2 ! i = w_tasks ?w3 ! i" using adv by (simp add: advances_def)
  then have st2: "t_status (w_tasks w2 ! i) = T_WAITING_APPROVAL"
    using il st by simp
  have cur2: "Suc i \<le> w_current_task_index w2"
    using adv unfolding advances_def cur3 by auto
  have exact: "w_current_task_index w2 = Suc i"
    if "length (w_tasks w) \<le> Suc i \<or> task_handlers s (t_type (w_tasks w ! Suc i)) = None"
  proof -
    have "w_tasks ?w3 ! Suc i = w_tasks w ! Suc i" by simp
    with that have "length (w_tasks ?w3) \<le> w_current_task_index ?w3 \<or>
        task_handlers ?s3 (t_type (w_tasks ?w3 ! w_current_task_index ?w3)) = None"
      by (simp only: len3 cur3 h3)
    from process_next_task_cursor_stays [OF w3 d3 this] w2 show ?thesis
      by (simp only: cur3) simp
  qed
  show ?thesis
    apply (rule exI [where x = ?s1], rule exI [where x = ?w1])
    apply (intro conjI)
        apply (rule a1)
       apply (rule w1)
      apply (rule st1)
     apply (rule cur1)
    apply (rule exI [where x = ?s3], rule exI [where x = ?w3], rule exI [where x = w2])
    apply (intro conjI impI)
          apply (rule a2)
         apply (rule s3)
        apply (rule refl)
       apply (rule w2)
      apply (rule st2)
     apply (rule cur2)
    apply (erule exact)
    done
qed

lemma review_plain_workflows: "workflows review_plain = [''u'' \<mapsto> review_workflow]"
  by (simp add: review_plain_def review_template_def review_workflow_def eval_simps)

lemma review_plain_handlers: "task_handlers review_plain = Map.empty"
  by (simp add: review_plain_def review_template_def eval_simps)

text \<open>
  In \<open>review_engine\<close> the notification has a handler and the cursor goes past it; in
  \<open>review_plain\<close> it has none and the cursor stops one past the check.
\<close>

theorem approve_task_both_witness:
  "(\<exists>s1 w1. approve_task review_engine ''u'' ''ux'' ''uxx'' True ''ok'' = Inr (Returned s1) \<and>
      workflows s1 ''u'' = Some w1 \<and>
      t_status (w_tasks w1 ! 0) = T_WAITING_APPROVAL \<and> w_current_task_index w1 = 0 \<and>
      (\<exists>s3 w2. approve_task s1 ''u'' ''ux'' ''uxxx'' True ''ok'' = Inr (process_next_task s3 ''u'') \<and>
         workflows (engine_of (process_next_task s3 ''u'')) ''u'' = Some w2 \<and>
         t_status (w_tasks w2 ! 0) = T_WAITING_APPROVAL \<and>
         Suc 0 \<le> w_current_task_index w2)) \<and>
   (\<exists>s1 w1. approve_task review_plain ''u'' ''ux'' ''uxx'' True ''ok'' = Inr (Returned s1) \<and>
      workflows s1 ''u'' = Some w1 \<and>
      t_status (w_tasks w1 ! 0) = T_WAITING_APPROVAL \<and> w_current_task_index w1 = 0 \<and>
      (\<exists>s3 w2. approve_task s1 ''u'' ''ux'' ''uxxx'' True ''ok'' = Inr (process_next_task s3 ''u'') \<and>
         workflows (engine_of (process_next_task s3 ''u'')) ''u'' = Some w2 \<and>
         t_status (w_tasks w2 ! 0) = T_WAITING_APPROVAL \<and>
         w_current_task_index w2 = Suc 0))"
proof -
  have w: "workflows review_engine ''u'' = Some review_workflow"
    by (simp add: review_engine_workflows)
  have w': "workflows review_plain ''u'' = Some review_workflow"
    by (simp add: review_plain_workflows)
  have d: "distinct (map t_id (w_tasks review_workflow))"
    by (simp add: review_workflow_def)
  have i: "find_task (w_tasks review_workflow) ''ux'' = Some 0"
    by (simp add: review_workflow_def)
  have st: "t_status (w_tasks review_workflow ! 0) = T_WAITING_APPROVAL"
    by (simp add: review_workflow_def)
  have ka: "find_approval (t_approvals (w_tasks review_workflow ! 0)) ''uxx'' = Some 0"
    by (simp add: review_workflow_def)
  have kb: "find_approval (t_approvals (w_tasks review_workflow ! 0)) ''uxxx'' = Some 1"
    by (simp add: review_workflow_def)
  have ne: "(0::nat) \<noteq> 1" by simp
  have pa: "a_status (t_approvals (w_tasks review_workflow ! 0) ! 0) = A_PENDING"
    by (simp add: review_workflow_def)
  have pb: "a_status (t_approvals (w_tasks review_workflow ! 0) ! 1) = A_PENDING"
    by (simp add: review_workflow_def)
  have live: "\<forall>k < length (t_approvals (w_tasks review_workflow ! 0)).
                k \<noteq> 0 \<longrightarrow> k \<noteq> 1 \<longrightarrow>
                a_status (t_approvals (w_tasks review_workflow ! 0) ! k) = A_DELEGATED"
    by (auto simp: review_workflow_def)
  have len: "\<not> length (w_tasks review_workflow) \<le> Suc 0"
    by (simp add: review_workflow_def)
  have none: "task_handlers review_plain (t_type (w_tasks review_workflow ! Suc 0)) = None"
    by (simp add: review_plain_handlers)
  from approve_task_both [OF w d i st ka kb ne pa pb live, of "''ok''" "''ok''"]
  obtain s1 w1 s3 w2 where
    "approve_task review_engine ''u'' ''ux'' ''uxx'' True ''ok'' = Inr (Returned s1)"
    "workflows s1 ''u'' = Some w1"
    "t_status (w_tasks w1 ! 0) = T_WAITING_APPROVAL"
    "w_current_task_index w1 = w_current_task_index review_workflow"
    "approve_task s1 ''u'' ''ux'' ''uxxx'' True ''ok'' = Inr (process_next_task s3 ''u'')"
    "workflows (engine_of (process_next_task s3 ''u'')) ''u'' = Some w2"
    "t_status (w_tasks w2 ! 0) = T_WAITING_APPROVAL"
    "Suc 0 \<le> w_current_task_index w2"
    by blast
  then have first: "\<exists>s1 w1. approve_task review_engine ''u'' ''ux'' ''uxx'' True ''ok'' = Inr (Returned s1) \<and>
      workflows s1 ''u'' = Some w1 \<and>
      t_status (w_tasks w1 ! 0) = T_WAITING_APPROVAL \<and> w_current_task_index w1 = 0 \<and>
      (\<exists>s3 w2. approve_task s1 ''u'' ''ux'' ''uxxx'' True ''ok'' = Inr (process_next_task s3 ''u'') \<and>
         workflows (engine_of (process_next_task s3 ''u'')) ''u'' = Some w2 \<and>
         t_status (w_tasks w2 ! 0) = T_WAITING_APPROVAL \<and>
         Suc 0 \<le> w_current_task_index w2)"
    by (simp add: review_workflow_def) blast
  from approve_task_both [OF w' d i st ka kb ne pa pb live, of "''ok''" "''ok''"] none
  obtain s1 w1 s3 w2 where
    "approve_task review_plain ''u'' ''ux'' ''uxx'' True ''ok'' = Inr (Returned s1)"
    "workflows s1 ''u'' = Some w1"
    "t_status (w_tasks w1 ! 0) = T_WAITING_APPROVAL"
    "w_current_task_index w1 = w_current_task_index review_workflow"
    "approve_task s1 ''u'' ''ux'' ''uxxx'' True ''ok'' = Inr (process_next_task s3 ''u'')"
    "workflows (engine_of (process_next_task s3 ''u'')) ''u'' = Some w2"
    "t_status (w_tasks w2 ! 0) = T_WAITING_APPROVAL"
    "w_current_task_index w2 = Suc 0"
    by blast
  then have second: "\<exists>s1 w1. approve_task review_plain ''u'' ''ux'' ''uxx'' True ''ok'' = Inr (Returned s1) \<and>
      workflows s1 ''u'' = Some w1 \<and>
      t_status (w_tasks w1 ! 0) = T_WAITING_APPROVAL \<and> w_current_task_index w1 = 0 \<and>
      (\<exists>s3 w2. approve_task s1 ''u'' ''ux'' ''uxxx'' True ''ok'' = Inr (process_next_task s3 ''u'') \<and>
         workflows (engine_of (process_next_task s3 ''u'')) ''u'' = Some w2 \<and>
         t_status (w_tasks w2 ! 0) = T_WAITING_APPROVAL \<and>
         w_current_task_index w2 = Suc 0)"
    by (simp add: review_workflow_def) blast
  from first second show ?thesis by (rule conjI)
qed

section \<open>C4: the template after \<open>provide_input\<close>\<close>

text \<open>
  C4 claims that \<open>create_workflow\<close> deep-copies the template's task list, so that
  \<open>provide_input\<close> leaves the stored template unchanged. \<open>create_workflow\<close> builds new
  task and approval dicts, but \<open>"data": task_template.get("data", {})\<close> stores the
  template's own dict object in the task. In \<open>intake_engine\<close> the template task's data
  is the object at address 0, and so is the data of the created task; \<open>provide_input\<close>
  writes the key \<open>input\<close> into that object, and the template stored under \<open>intake\<close>
  now carries the input. A workflow created from the template afterwards starts with it.
\<close>

theorem provide_input_writes_template_data:
  "workflow_templates intake_engine ''intake'' = Some intake_template \<and>
   map tt_data (get_or (tp_tasks intake_template) []) = [Some 0] \<and>
   map t_data (tasks_of intake_engine ''u'') = [0] \<and>
   task_statuses_of intake_engine ''u'' = [T_WAITING_INPUT] \<and>
   data_heap intake_engine 0 = [(''project'', VStr ''A7'')] \<and>
   data_heap (exec_op (ProvideInput ''u'' ''ux'' (VDict [(''answer'', VInt 42)])) intake_engine) 0
     = [(''project'', VStr ''A7''), (''input'', VDict [(''answer'', VInt 42)])] \<and>
   workflow_templates
     (exec_op (ProvideInput ''u'' ''ux'' (VDict [(''answer'', VInt 42)])) intake_engine) ''intake''
     = Some intake_template"
  by (simp add: intake_engine_def intake_template_def observe_defs provide_input_def eval_simps)

section \<open>The ids \<open>create_workflow\<close> generates\<close>

lemma draws_Suc: "a < b \<Longrightarrow> draws s a b = uuid_source s a # draws s (Suc a) b"
  by (simp add: draws_def upt_conv_Cons)

lemma draws_append: "a \<le> b \<Longrightarrow> b \<le> c \<Longrightarrow> draws s a b @ draws s b c = draws s a c"
proof -
  assume "a \<le> b" "b \<le> c"
  then have "[a..<c] = [a..<b] @ [b..<c]"
    using upt_add_eq_append [of a b "c - b"] by simp
  then show ?thesis by (simp add: draws_def)
qed

lemma draws_empty [simp]: "draws s a a = []"
  by (simp add: draws_def)

lemma draws_cong: "uuid_source s' = uuid_source s \<Longrightarrow> draws s' a b = draws s a b"
  by (simp add: draws_def)

lemma create_approvals_spec:
  "create_approvals s xs = (as, s') \<Longrightarrow>
     s' = s\<lparr>uuid_count := uuid_count s + length xs\<rparr> \<and>
     map a_id as = draws s (uuid_count s) (uuid_count s + length xs) \<and>
     map a_approver as = xs \<and> (\<forall>a \<in> set as. a_status a = A_PENDING)"
proof (induction xs arbitrary: s as s')
  case Nil
  then show ?case by simp
next
  case (Cons x xs)
  obtain as1 s1 where r: "create_approvals (s\<lparr>uuid_count := Suc (uuid_count s)\<rparr>) xs = (as1, s1)"
    by (cases "create_approvals (s\<lparr>uuid_count := Suc (uuid_count s)\<rparr>) xs")
  from Cons.IH [OF r]
  have s1: "s1 = s\<lparr>uuid_count := Suc (uuid_count s) + length xs\<rparr>"
    and ids: "map a_id as1 = draws s (Suc (uuid_count s)) (Suc (uuid_count s) + length xs)"
    and rest: "map a_approver as1 = xs" "\<forall>a \<in> set as1. a_status a = A_PENDING"
    by (simp_all add: draws_def)
  have as: "as = \<lparr>a_id = uuid_source s (uuid_count s), a_approver = x, a_status = A_PENDING,
                   a_comment = []\<rparr> # as1" and s': "s' = s1"
    using Cons.prems r by (simp_all add: uuid4_def)
  have "map a_id as = uuid_source s (uuid_count s) # draws s (Suc (uuid_count s)) (uuid_count s + length (x # xs))"
    using ids by (simp add: as)
  also have "\<dots> = draws s (uuid_count s) (uuid_count s + length (x # xs))"
    by (rule draws_Suc [symmetric]) simp
  finally show ?case using s1 s' rest by (simp add: as)
qed

lemma same_tables_refl [simp]: "same_tables s s"
  by (simp add: same_tables_def)

lemma same_tables_trans: "same_tables s s' \<Longrightarrow> same_tables s' s'' \<Longrightarrow> same_tables s s''"
  by (simp add: same_tables_def)

lemma create_task_spec:
  assumes "create_task s tt = (t, s')"
  shows "same_tables s s' \<and> uuid_count s < uuid_count s' \<and>
         task_ids t = draws s (uuid_count s) (uuid_count s') \<and>
         t_status t = T_PENDING \<and> (\<forall>a \<in> set (t_approvals t). a_status a = A_PENDING) \<and>
         t_approvers t = get_or (tt_approvers tt) [] \<and>
         map a_approver (t_approvals t) = get_or (tt_approvers tt) [] \<and>
         t_dependencies t = get_or (tt_dependencies tt) []"
proof -
  let ?s1 = "s\<lparr>uuid_count := Suc (uuid_count s)\<rparr>"
  obtain dref s2 where d: "(case tt_data tt of Some r \<Rightarrow> (r, ?s1) | None \<Rightarrow> new_dict ?s1 []) = (dref, s2)"
    by (cases "case tt_data tt of Some r \<Rightarrow> (r, ?s1) | None \<Rightarrow> new_dict ?s1 []")
  then have s2: "same_tables ?s1 s2" "uuid_count s2 = Suc (uuid_count s)"
    by (auto simp: new_dict_def same_tables_def split: option.splits)
  obtain as s3 where a: "create_approvals s2 (get_or (tt_approvers tt) []) = (as, s3)"
    by (cases "create_approvals s2 (get_or (tt_approvers tt) [])")
  note spec = create_approvals_spec [OF a]
  have t: "t_id t = uuid_source s (uuid_count s)" "t_approvals t = as" "t_status t = T_PENDING"
    "t_approvers t = get_or (tt_approvers tt) []"
    "t_dependencies t = get_or (tt_dependencies tt) []" and s': "s' = s3"
    using assms d a by (auto simp: create_task_def uuid4_def Let_def)
  have src: "uuid_source s2 = uuid_source s" using s2(1) by (simp add: same_tables_def)
  have cnt: "uuid_count s' = Suc (uuid_count s) + length (get_or (tt_approvers tt) [])"
    using spec s2(2) s' by simp
  have "task_ids t = uuid_source s (uuid_count s) # draws s (Suc (uuid_count s)) (uuid_count s')"
    using spec t cnt s2(2) draws_cong [OF src] by (simp add: task_ids_def)
  also have "\<dots> = draws s (uuid_count s) (uuid_count s')"
    by (rule draws_Suc [symmetric]) (simp add: cnt)
  finally have ids: "task_ids t = draws s (uuid_count s) (uuid_count s')" .
  have "same_tables s s'"
    using s2 spec s' by (simp add: same_tables_def)
  with ids t spec cnt show ?thesis by simp
qed

lemma create_tasks_spec:
  "create_tasks s tts = (ts, s') \<Longrightarrow>
     same_tables s s' \<and> length ts = length tts \<and>
     tasks_ids ts = draws s (uuid_count s) (uuid_count s') \<and>
     (\<forall>t \<in> set ts. t_status t = T_PENDING)"
proof (induction tts arbitrary: s ts s')
  case Nil
  then show ?case by (simp add: tasks_ids_def)
next
  case (Cons tt tts)
  obtain t s1 where t: "create_task s tt = (t, s1)" by (cases "create_task s tt")
  obtain ts1 s2 where r: "create_tasks s1 tts = (ts1, s2)" by (cases "create_tasks s1 tts")
  note a = create_task_spec [OF t] and b = Cons.IH [OF r]
  have ts: "ts = t # ts1" and s': "s' = s2" using Cons.prems t r by simp_all
  have src: "uuid_source s1 = uuid_source s" using a by (simp add: same_tables_def)
  have le: "uuid_count s \<le> uuid_count s1" "uuid_count s1 \<le> uuid_count s2"
    using a b by (simp_all add: same_tables_def)
  have "tasks_ids ts = draws s (uuid_count s) (uuid_count s1) @ draws s (uuid_count s1) (uuid_count s2)"
    using a b draws_cong [OF src] by (simp add: ts tasks_ids_def)
  then have "tasks_ids ts = draws s (uuid_count s) (uuid_count s')"
    using draws_append [OF le] by (simp add: s')
  moreover have "same_tables s s'" using a b same_tables_trans s' by blast
  ultimately show ?case using a b by (simp add: ts)
qed

lemma draws_distinct:
  assumes "inj_on (uuid_source s) {c ..}" "c \<le> a"
  shows "distinct (draws s a b)"
proof -
  have "inj_on (uuid_source s) (set [a ..< b])"
    using assms by (auto intro: inj_on_subset)
  then show ?thesis by (simp add: draws_def distinct_map)
qed

lemma draws_set: "set (draws s a b) = uuid_source s ` {a ..< b}"
  by (simp add: draws_def)

section \<open>C5: \<open>create_workflow\<close>\<close>

text \<open>
  C5: \<open>create_workflow\<close> raises the not-found error for an unregistered template id.
  For a registered template \<open>T\<close> it returns the id of a workflow that was not there
  before, stored with status \<open>CREATED\<close> and as many tasks as \<open>T\<close> has; the workflow id,
  the task ids and the approval ids are the next draws of \<open>uuid4\<close>, so they are pairwise
  distinct and none of them is an id that appears in \<open>T\<close>, as long as \<open>uuid4\<close> repeats no
  id and returns none that is already in use.
\<close>

theorem create_workflow_fresh:
  "(workflow_templates s template_id = None \<longrightarrow>
      create_workflow s template_id data = Inl (TemplateNotFound template_id) \<and>
      is_not_found (TemplateNotFound template_id)) \<and>
   (\<forall>T. workflow_templates s template_id = Some T \<longrightarrow>
      uuid_fresh s (template_ids T \<union> dom (workflows s)) \<longrightarrow>
      (\<exists>wid s' w. create_workflow s template_id data = Inr (wid, s') \<and>
         workflows s wid = None \<and> workflows s' wid = Some w \<and> w_id w = wid \<and>
         w_status w = CREATED \<and> w_current_task_index w = 0 \<and>
         length (w_tasks w) = length (get_or (tp_tasks T) []) \<and>
         (\<forall>t \<in> set (w_tasks w). t_status t = T_PENDING) \<and>
         wid # tasks_ids (w_tasks w)
           = draws s (uuid_count s) (uuid_count s + Suc (length (tasks_ids (w_tasks w)))) \<and>
         distinct (wid # tasks_ids (w_tasks w)) \<and>
         set (wid # tasks_ids (w_tasks w)) \<inter> template_ids T = {}))"
proof (intro conjI allI impI)
  assume "workflow_templates s template_id = None"
  then show "create_workflow s template_id data = Inl (TemplateNotFound template_id)"
    by (simp add: create_workflow_def)
next
  show "is_not_found (TemplateNotFound template_id)" by simp
next
  fix T
  assume T: "workflow_templates s template_id = Some T"
    and fresh: "uuid_fresh s (template_ids T \<union> dom (workflows s))"
  let ?c = "uuid_count s"
  let ?wid = "uuid_source s ?c"
  let ?s1 = "s\<lparr>uuid_count := Suc ?c\<rparr>"
  obtain ts s2 where ct: "create_tasks ?s1 (get_or (tp_tasks T) []) = (ts, s2)"
    by (cases "create_tasks ?s1 (get_or (tp_tasks T) [])")
  note spec = create_tasks_spec [OF ct]
  let ?w = "\<lparr>w_id = ?wid, w_template_id = template_id,
             w_name = get_or (tp_name T) ''Unbenannter Workflow'',
             w_description = get_or (tp_description T) [], w_status = CREATED, w_tasks = ts,
             w_data = data, w_current_task_index = 0, w_history = []\<rparr>"
  let ?s3 = "s2\<lparr>workflows := (workflows s2)(?wid \<mapsto> ?w)\<rparr>"
  let ?s4 = "add_history_event ?s3 ?wid ''workflow_created''
               [(''template_id'', VStr template_id), (''workflow_id'', VStr ?wid),
                (''workflow_name'', VStr (w_name ?w))]"
  have cw: "create_workflow s template_id data = Inr (?wid, ?s4)"
    using T ct by (simp add: create_workflow_def uuid4_def Let_def)
  have w4: "workflows ?s4 ?wid =
              Some (?w\<lparr>w_history := [\<lparr>e_id = uuid_source ?s3 (uuid_count ?s3),
                       e_type = ''workflow_created'',
                       e_data = [(''template_id'', VStr template_id), (''workflow_id'', VStr ?wid),
                                 (''workflow_name'', VStr (w_name ?w))]\<rparr>]\<rparr>)"
    by (simp add: workflows_add_history_event)
  have old: "workflows s ?wid = None"
    using fresh by (auto simp: uuid_fresh_def)
  have cnt: "Suc ?c \<le> uuid_count s2" using spec by (simp add: same_tables_def)
  have ids: "tasks_ids ts = draws s (Suc ?c) (uuid_count s2)"
    using spec draws_cong [of ?s1 s] by simp
  have "length (tasks_ids ts) = uuid_count s2 - Suc ?c"
    by (simp add: ids draws_def)
  then have c2: "?c + Suc (length (tasks_ids ts)) = uuid_count s2" using cnt by simp
  have all: "?wid # tasks_ids ts = draws s ?c (uuid_count s2)"
    using draws_Suc [of ?c "uuid_count s2" s] cnt by (simp add: ids)
  have dist: "distinct (?wid # tasks_ids ts)"
    unfolding all using fresh by (auto simp: uuid_fresh_def intro: draws_distinct)
  have disj: "set (?wid # tasks_ids ts) \<inter> template_ids T = {}"
    unfolding all using fresh by (auto simp: uuid_fresh_def draws_set)
  show "\<exists>wid s' w. create_workflow s template_id data = Inr (wid, s') \<and>
         workflows s wid = None \<and> workflows s' wid = Some w \<and> w_id w = wid \<and>
         w_status w = CREATED \<and> w_current_task_index w = 0 \<and>
         length (w_tasks w) = length (get_or (tp_tasks T) []) \<and>
         (\<forall>t \<in> set (w_tasks w). t_status t = T_PENDING) \<and>
         wid # tasks_ids (w_tasks w)
           = draws s (uuid_count s) (uuid_count s + Suc (length (tasks_ids (w_tasks w)))) \<and>
         distinct (wid # tasks_ids (w_tasks w)) \<and>
         set (wid # tasks_ids (w_tasks w)) \<inter> template_ids T = {}"
    apply (rule exI [where x = ?wid], rule exI [where x = ?s4])
    apply (rule exI [where x = "?w\<lparr>w_history := [\<lparr>e_id = uuid_source ?s3 (uuid_count ?s3),
                       e_type = ''workflow_created'',
                       e_data = [(''template_id'', VStr template_id), (''workflow_id'', VStr ?wid),
                                 (''workflow_name'', VStr (w_name ?w))]\<rparr>]\<rparr>"])
    using cw w4 old spec all dist disj c2 by simp
qed

lemma demo_uuid_inj: "inj_on demo_uuid A"
  by (auto simp: inj_on_def demo_uuid_def dest: arg_cong [where f = length])

lemma letter_engine_fields:
  "workflow_templates letter_engine = [''letter'' \<mapsto> letter_template]"
  "workflows letter_engine = Map.empty"
  "uuid_source letter_engine = demo_uuid" "uuid_count letter_engine = 0"
  by (simp_all add: letter_engine_def op_defs)

text \<open>
  In \<open>letter_engine\<close> the template \<open>letter\<close> has the ids \<open>draft\<close> and \<open>send\<close>, and
  no template is registered as \<open>memo\<close>.
\<close>

theorem create_workflow_fresh_witness:
  "create_workflow letter_engine ''memo'' [] = Inl (TemplateNotFound ''memo'') \<and>
   template_ids letter_template = {''draft'', ''send''} \<and>
   uuid_fresh letter_engine (template_ids letter_template \<union> dom (workflows letter_engine)) \<and>
   (\<exists>wid s' w. create_workflow letter_engine ''letter'' [] = Inr (wid, s') \<and>
      workflows s' wid = Some w \<and> w_status w = CREATED \<and> length (w_tasks w) = 2 \<and>
      distinct (wid # tasks_ids (w_tasks w)) \<and>
      set (wid # tasks_ids (w_tasks w)) \<inter> {''draft'', ''send''} = {})"
proof -
  have none: "workflow_templates letter_engine ''memo'' = None"
    by (simp add: letter_engine_fields)
  have T: "workflow_templates letter_engine ''letter'' = Some letter_template"
    by (simp add: letter_engine_fields)
  have ids: "template_ids letter_template = {''draft'', ''send''}"
    by (auto simp: template_ids_def letter_template_def plain_task_def)
  have fresh: "uuid_fresh letter_engine (template_ids letter_template \<union> dom (workflows letter_engine))"
    by (simp add: uuid_fresh_def ids letter_engine_fields demo_uuid_inj) (simp add: demo_uuid_def)
  from create_workflow_fresh [of letter_engine "''memo''" "[]"] none
  have a: "create_workflow letter_engine ''memo'' [] = Inl (TemplateNotFound ''memo'')"
    by simp
  note create_workflow_fresh [of letter_engine "''letter''" "[]", THEN conjunct2, rule_format, OF T fresh]
  then obtain wid s' w where c0: "create_workflow letter_engine ''letter'' [] = Inr (wid, s') \<and>
         workflows letter_engine wid = None \<and> workflows s' wid = Some w \<and> w_id w = wid \<and>
         w_status w = CREATED \<and> w_current_task_index w = 0 \<and>
         length (w_tasks w) = length (get_or (tp_tasks letter_template) []) \<and>
         (\<forall>t \<in> set (w_tasks w). t_status t = T_PENDING) \<and>
         wid # tasks_ids (w_tasks w)
           = draws letter_engine (uuid_count letter_engine)
               (uuid_count letter_engine + Suc (length (tasks_ids (w_tasks w)))) \<and>
         distinct (wid # tasks_ids (w_tasks w)) \<and>
         set (wid # tasks_ids (w_tasks w)) \<inter> template_ids letter_template = {}"
    by (elim exE)
  then have c: "create_workflow letter_engine ''letter'' [] = Inr (wid, s')"
    "workflows s' wid = Some w" "w_status w = CREATED"
    "length (w_tasks w) = length (get_or (tp_tasks letter_template) [])"
    "wid # tasks_ids (w_tasks w)
       = draws letter_engine (uuid_count letter_engine)
           (uuid_count letter_engine + Suc (length (tasks_ids (w_tasks w))))"
    "distinct (wid # tasks_ids (w_tasks w))"
    "set (wid # tasks_ids (w_tasks w)) \<inter> template_ids letter_template = {}"
    by blast+
  have len: "length (w_tasks w) = 2" using c(4) by (simp add: letter_template_def)
  from a ids fresh c(1,2,3) len c(6) c(7) [unfolded ids] show ?thesis by blast
qed

section \<open>The loops of \<open>export_workflow\<close> and \<open>import_workflow\<close>\<close>

lemma record_ids_Nil [simp]: "record_ids m [] news = m"
  by (simp add: record_ids_def)

lemma record_ids_Cons [simp]:
  "record_ids m (old # olds) (new # news) = record_ids (m(old \<mapsto> new)) olds news"
  by (simp add: record_ids_def)

lemma record_ids_append:
  "length olds = length news \<Longrightarrow>
   record_ids m (olds @ olds') (news @ news') = record_ids (record_ids m olds news) olds' news'"
  by (simp add: record_ids_def)

lemma record_ids_other:
  "length olds = length news \<Longrightarrow> x \<notin> set olds \<Longrightarrow> record_ids m olds news x = m x"
proof (induction olds arbitrary: news m)
  case Nil
  then show ?case by simp
next
  case (Cons old olds)
  then obtain new news' where "news = new # news'" by (cases news) auto
  with Cons show ?case by auto
qed

lemma record_ids_nth:
  "length olds = length news \<Longrightarrow> distinct olds \<Longrightarrow> k < length olds \<Longrightarrow>
   record_ids m olds news (olds ! k) = Some (news ! k)"
proof (induction olds arbitrary: news m k)
  case Nil
  then show ?case by simp
next
  case (Cons old olds)
  then obtain new news' where n: "news = new # news'" by (cases news) auto
  show ?case
  proof (cases k)
    case 0
    with Cons.prems n show ?thesis by (simp add: record_ids_other)
  next
    case (Suc j)
    with Cons n show ?thesis by simp
  qed
qed

lemma record_ids_dom:
  "length olds = length news \<Longrightarrow> dom (record_ids m olds news) = dom m \<union> set olds"
proof (induction olds arbitrary: news m)
  case Nil
  then show ?case by simp
next
  case (Cons old olds)
  then obtain new news' where "news = new # news'" by (cases news) auto
  with Cons show ?case by auto
qed

lemma copy_tasks_spec:
  "copy_tasks s ts = (ts', s') \<Longrightarrow>
     same_tables s s' \<and> uuid_count s' = uuid_count s \<and>
     list_all2 (\<lambda>t t'. t' = t\<lparr>t_data := t_data t'\<rparr>) ts ts'"
proof (induction ts arbitrary: s ts' s')
  case Nil
  then show ?case by simp
next
  case (Cons t ts)
  let ?s1 = "snd (new_dict s (data_heap s (t_data t)))"
  obtain ts1 s2 where r: "copy_tasks ?s1 ts = (ts1, s2)" by (cases "copy_tasks ?s1 ts")
  have a: "same_tables s ?s1" "uuid_count ?s1 = uuid_count s"
    by (simp_all add: new_dict_def same_tables_def)
  from Cons.prems r have ts': "ts' = t\<lparr>t_data := heap_next s\<rparr> # ts1" and s': "s' = s2"
    by (simp_all add: new_dict_def Let_def)
  from Cons.IH [OF r] a show ?case
    by (simp add: ts' s' same_tables_def)
qed

lemma import_approvals_spec:
  "import_approvals s m as = (as', m', s') \<Longrightarrow>
     s' = s\<lparr>uuid_count := uuid_count s + length as\<rparr> \<and>
     map a_id as' = draws s (uuid_count s) (uuid_count s + length as) \<and>
     list_all2 renamed_approval as as' \<and>
     m' = record_ids m (map a_id as) (map a_id as')"
proof (induction as arbitrary: s m as' m' s')
  case Nil
  then show ?case by simp
next
  case (Cons a as)
  let ?c = "uuid_count s"
  let ?s1 = "s\<lparr>uuid_count := Suc ?c\<rparr>"
  let ?m1 = "m(a_id a \<mapsto> uuid_source s ?c)"
  obtain as1 m1 s2 where r: "import_approvals ?s1 ?m1 as = (as1, m1, s2)"
    by (cases "import_approvals ?s1 ?m1 as") auto
  from Cons.prems r have as': "as' = a\<lparr>a_id := uuid_source s ?c\<rparr> # as1"
    and m': "m' = m1" and s': "s' = s2"
    by (simp_all add: uuid4_def)
  note ih = Cons.IH [OF r]
  have s2: "s2 = s\<lparr>uuid_count := Suc ?c + length as\<rparr>"
    using ih [THEN conjunct1] by simp
  have "map a_id as1 = draws ?s1 (uuid_count ?s1) (uuid_count ?s1 + length as)"
    by (rule ih [THEN conjunct2, THEN conjunct1])
  then have ids: "map a_id as1 = draws s (Suc ?c) (Suc ?c + length as)"
    by (simp add: draws_cong [of ?s1 s])
  have rel: "list_all2 renamed_approval as as1"
    by (rule ih [THEN conjunct2, THEN conjunct2, THEN conjunct1])
  have m1: "m1 = record_ids ?m1 (map a_id as) (map a_id as1)"
    by (rule ih [THEN conjunct2, THEN conjunct2, THEN conjunct2])
  have "map a_id as' = uuid_source s ?c # draws s (Suc ?c) (?c + length (a # as))"
    using ids by (simp add: as')
  also have "\<dots> = draws s ?c (?c + length (a # as))"
    by (rule draws_Suc [symmetric]) simp
  finally have ids': "map a_id as' = draws s ?c (?c + length (a # as))" .
  have "m' = record_ids m (map a_id (a # as)) (map a_id as')"
    using m1 by (simp add: as' m')
  moreover have "s' = s\<lparr>uuid_count := ?c + length (a # as)\<rparr>"
    using s2 by (simp add: s')
  moreover have "list_all2 renamed_approval (a # as) as'"
    using rel by (simp add: as' renamed_approval_def)
  ultimately show ?case using ids' by blast
qed

lemma tasks_ids_Cons [simp]: "tasks_ids (t # ts) = task_ids t @ tasks_ids ts"
  by (simp add: tasks_ids_def)

lemma tasks_ids_Nil [simp]: "tasks_ids [] = []"
  by (simp add: tasks_ids_def)

lemma import_tasks_spec:
  "import_tasks s m ts = (ts', m', s') \<Longrightarrow>
     s' = s\<lparr>uuid_count := uuid_count s + length (tasks_ids ts)\<rparr> \<and>
     tasks_ids ts' = draws s (uuid_count s) (uuid_count s + length (tasks_ids ts)) \<and>
     list_all2 renamed_task ts ts' \<and>
     m' = record_ids m (tasks_ids ts) (tasks_ids ts')"
proof (induction ts arbitrary: s m ts' m' s')
  case Nil
  then show ?case by simp
next
  case (Cons t ts)
  let ?c = "uuid_count s"
  let ?n = "length (t_approvals t)"
  let ?nid = "uuid_source s ?c"
  let ?s1 = "s\<lparr>uuid_count := Suc ?c\<rparr>"
  let ?m0 = "m(t_id t \<mapsto> ?nid)"
  obtain as1 m1 s2 where a: "import_approvals ?s1 ?m0 (t_approvals t) = (as1, m1, s2)"
    by (cases "import_approvals ?s1 ?m0 (t_approvals t)") auto
  obtain ts1 m2 s3 where r: "import_tasks s2 m1 ts = (ts1, m2, s3)"
    by (cases "import_tasks s2 m1 ts") auto
  let ?t' = "t\<lparr>t_id := ?nid, t_approvals := as1\<rparr>"
  from Cons.prems a r have ts': "ts' = ?t' # ts1" and m': "m' = m2" and s': "s' = s3"
    by (simp_all add: uuid4_def)
  note sa = import_approvals_spec [OF a]
  have s2: "s2 = s\<lparr>uuid_count := Suc ?c + ?n\<rparr>"
    using sa [THEN conjunct1] by simp
  have "map a_id as1 = draws ?s1 (uuid_count ?s1) (uuid_count ?s1 + ?n)"
    by (rule sa [THEN conjunct2, THEN conjunct1])
  then have ida: "map a_id as1 = draws s (Suc ?c) (Suc ?c + ?n)"
    by (simp add: draws_cong [of ?s1 s])
  have rela: "list_all2 renamed_approval (t_approvals t) as1"
    by (rule sa [THEN conjunct2, THEN conjunct2, THEN conjunct1])
  have m1: "m1 = record_ids ?m0 (map a_id (t_approvals t)) (map a_id as1)"
    by (rule sa [THEN conjunct2, THEN conjunct2, THEN conjunct2])
  have len: "length (task_ids ?t') = length (task_ids t)"
    using rela by (simp add: task_ids_def list_all2_lengthD [symmetric])
  have lt: "length (task_ids t) = Suc ?n" by (simp add: task_ids_def)
  have "task_ids ?t' = ?nid # draws s (Suc ?c) (Suc ?c + ?n)"
    using ida by (simp add: task_ids_def)
  also have "\<dots> = draws s ?c (Suc ?c + ?n)"
    by (rule draws_Suc [symmetric]) simp
  finally have idt: "task_ids ?t' = draws s ?c (Suc ?c + ?n)" .
  have m1': "m1 = record_ids m (task_ids t) (task_ids ?t')"
    using m1 by (simp add: task_ids_def)
  note st = Cons.IH [OF r]
  have s3: "s3 = s\<lparr>uuid_count := Suc ?c + ?n + length (tasks_ids ts)\<rparr>"
    using st [THEN conjunct1] s2 by simp
  have "tasks_ids ts1 = draws s2 (uuid_count s2) (uuid_count s2 + length (tasks_ids ts))"
    by (rule st [THEN conjunct2, THEN conjunct1])
  then have idr: "tasks_ids ts1 = draws s (Suc ?c + ?n) (Suc ?c + ?n + length (tasks_ids ts))"
    by (simp add: s2 draws_cong [of "s\<lparr>uuid_count := Suc (?c + ?n)\<rparr>" s])
  have relt: "list_all2 renamed_task ts ts1"
    by (rule st [THEN conjunct2, THEN conjunct2, THEN conjunct1])
  have m2: "m2 = record_ids m1 (tasks_ids ts) (tasks_ids ts1)"
    by (rule st [THEN conjunct2, THEN conjunct2, THEN conjunct2])
  have "tasks_ids ts' = draws s ?c (Suc ?c + ?n) @ draws s (Suc ?c + ?n) (Suc ?c + ?n + length (tasks_ids ts))"
    using idt idr by (simp add: ts')
  also have "\<dots> = draws s ?c (Suc ?c + ?n + length (tasks_ids ts))"
    by (rule draws_append) simp_all
  finally have A: "tasks_ids ts' = draws s ?c (?c + length (tasks_ids (t # ts)))"
    by (simp add: lt add.assoc)
  have B: "s' = s\<lparr>uuid_count := ?c + length (tasks_ids (t # ts))\<rparr>"
    using s3 by (simp add: s' lt)
  have C: "list_all2 renamed_task (t # ts) ts'"
    using relt rela by (simp add: ts' renamed_task_def)
  have "m' = record_ids (record_ids m (task_ids t) (task_ids ?t')) (tasks_ids ts) (tasks_ids ts1)"
    using m2 m1' by (simp add: m')
  also have "\<dots> = record_ids m (task_ids t @ tasks_ids ts) (task_ids ?t' @ tasks_ids ts1)"
    using len by (simp add: record_ids_append)
  finally have D: "m' = record_ids m (tasks_ids (t # ts)) (tasks_ids ts')"
    by (simp add: ts')
  from A B C D show ?case by blast
qed

lemma copied_tasks:
  assumes "list_all2 (\<lambda>t t'. t' = t\<lparr>t_data := t_data t'\<rparr>) ts ts'"
  shows "tasks_ids ts' = tasks_ids ts"
    and "map task_content ts' = map task_content ts"
    and "map t_dependencies ts' = map t_dependencies ts"
  using assms
proof (induction ts ts' rule: list_all2_induct)
  case Nil
  {
    case 1 show ?case by simp
  next
    case 2 show ?case by simp
  next
    case 3 show ?case by simp
  }
next
  case (Cons t ts t' ts')
  have t': "t' = t\<lparr>t_data := t_data t'\<rparr>" by (rule Cons.hyps(1))
  have a: "task_ids t' = task_ids t" by (subst t') (simp add: task_ids_def)
  have b: "task_content t' = task_content t" by (subst t') (simp add: task_content_def)
  have c: "t_dependencies t' = t_dependencies t" by (subst t') simp
  {
    case 1 show ?case using a Cons.IH(1) by simp
  next
    case 2 show ?case using b Cons.IH(2) by simp
  next
    case 3 show ?case using c Cons.IH(3) by simp
  }
qed

lemma renamed_task_fields:
  assumes "renamed_task t t'"
  shows "task_content t' = task_content t" and "t_dependencies t' = t_dependencies t"
    and "length (task_ids t') = length (task_ids t)"
proof -
  have t': "t' = t\<lparr>t_id := t_id t', t_approvals := t_approvals t'\<rparr>"
    and as: "list_all2 renamed_approval (t_approvals t) (t_approvals t')"
    using assms by (simp_all add: renamed_task_def)
  have "map (\<lambda>a. a\<lparr>a_id := []\<rparr>) (t_approvals t') = map (\<lambda>a. a\<lparr>a_id := []\<rparr>) (t_approvals t)"
    using as
  proof (induction rule: list_all2_induct)
    case Nil
    show ?case by simp
  next
    case (Cons a as a' as')
    have "a' = a\<lparr>a_id := a_id a'\<rparr>" using Cons.hyps(1) by (simp add: renamed_approval_def)
    then have "a'\<lparr>a_id := []\<rparr> = a\<lparr>a_id := []\<rparr>" by (metis approval.update_convs(1) approval.surjective)
    with Cons.IH show ?case by simp
  qed
  then show "task_content t' = task_content t"
    by (subst t') (simp add: task_content_def)
  show "t_dependencies t' = t_dependencies t" by (subst t') simp
  show "length (task_ids t') = length (task_ids t)"
    using list_all2_lengthD [OF as] by (simp add: task_ids_def)
qed

lemma renamed_tasks:
  assumes "list_all2 renamed_task ts ts'"
  shows "map task_content ts' = map task_content ts"
    and "map t_dependencies ts' = map t_dependencies ts"
    and "list_all2 (\<lambda>t t'. length (task_ids t') = length (task_ids t)) ts ts'"
  using assms
proof (induction ts ts' rule: list_all2_induct)
  case Nil
  {
    case 1 show ?case by simp
  next
    case 2 show ?case by simp
  next
    case 3 show ?case by simp
  }
next
  case (Cons t ts t' ts')
  note f = renamed_task_fields [OF Cons.hyps(1)]
  {
    case 1 show ?case using f(1) Cons.IH(1) by simp
  next
    case 2 show ?case using f(2) Cons.IH(2) by simp
  next
    case 3 show ?case using f(3) Cons.IH(3) by simp
  }
qed

text \<open>The id of the task at position \<open>j\<close> is at the same place in both lists of ids.\<close>

lemma task_id_position:
  assumes "list_all2 (\<lambda>t t'. length (task_ids t') = length (task_ids t)) ts ts'"
    and "j < length ts"
  shows "\<exists>p < length (tasks_ids ts). tasks_ids ts ! p = t_id (ts ! j) \<and>
           tasks_ids ts' ! p = t_id (ts' ! j)"
  using assms
proof (induction ts ts' arbitrary: j rule: list_all2_induct)
  case Nil
  then show ?case by simp
next
  case (Cons t ts t' ts')
  show ?case
  proof (cases j)
    case 0
    have "tasks_ids (t # ts) ! 0 = t_id t" "tasks_ids (t' # ts') ! 0 = t_id t'"
      by (simp_all add: task_ids_def)
    moreover have "0 < length (tasks_ids (t # ts))" by (simp add: task_ids_def)
    ultimately show ?thesis using 0 by auto
  next
    case (Suc j')
    with Cons.prems have "j' < length ts" by simp
    from Cons.IH [OF this] obtain p where p: "p < length (tasks_ids ts)"
      "tasks_ids ts ! p = t_id (ts ! j')" "tasks_ids ts' ! p = t_id (ts' ! j')"
      by blast
    let ?n = "length (task_ids t)"
    have "tasks_ids (t # ts) ! (?n + p) = t_id (ts ! j')"
      using p by (simp add: nth_append)
    moreover have "tasks_ids (t' # ts') ! (?n + p) = t_id (ts' ! j')"
      using p Cons.hyps(1) by (simp add: nth_append)
    moreover have "?n + p < length (tasks_ids (t # ts))" using p by simp
    ultimately show ?thesis using Suc by (intro exI [where x = "?n + p"]) simp
  qed
qed

lemma translated_tasks:
  "tasks_ids (map (translate_dependencies m) ts) = tasks_ids ts"
  "map task_content (map (translate_dependencies m) ts) = map task_content ts"
  by (induction ts) (simp_all add: translate_dependencies_def task_ids_def task_content_def)

lemma length_draws: "length (draws s a b) = b - a"
  by (simp add: draws_def)

section \<open>C9: \<open>export_workflow\<close>, then \<open>import_workflow\<close>\<close>

text \<open>
  C9: for a stored workflow \<open>W\<close> whose own id, task ids and approval ids are pairwise
  distinct, \<open>import_workflow\<close> of the snapshot that \<open>export_workflow\<close> returns stores a
  new workflow \<open>W'\<close> and leaves every other workflow as it was. \<open>W'\<close> has the tasks of
  \<open>W\<close> in the same order, with the same content apart from ids, dependencies and the
  data objects (which are copies), and keeps status and cursor. Its workflow id, task
  ids and approval ids are the next draws of \<open>uuid4\<close>: pairwise distinct, and none of
  them an id of \<open>W\<close>, as long as \<open>uuid4\<close> repeats no id and returns none that is already
  in use. The id mapping \<open>tr\<close> of the import sends the id of \<open>W\<close> and of each of its tasks
  to the id of \<open>W'\<close> and of the task at the same position, and has no other keys than
  the ids of \<open>W\<close>; the dependencies of each task of \<open>W'\<close> are those of the task of \<open>W\<close>
  at the same position, with every id that is a key of \<open>tr\<close> translated and every other
  id dropped.
\<close>

theorem export_import_workflow:
  assumes W: "workflows s wid = Some W"
    and ids: "distinct (w_id W # tasks_ids (w_tasks W))"
    and fresh: "uuid_fresh s (set (w_id W # tasks_ids (w_tasks W)) \<union> dom (workflows s))"
  shows "\<exists>snapshot s1 new_id s2 W' tr.
           export_workflow s wid = Inr (snapshot, s1) \<and>
           import_workflow s1 snapshot = (new_id, s2) \<and>
           workflows s new_id = None \<and> workflows s2 new_id = Some W' \<and> w_id W' = new_id \<and>
           (\<forall>wid'. wid' \<noteq> new_id \<longrightarrow> workflows s2 wid' = workflows s wid') \<and>
           w_status W' = w_status W \<and> w_current_task_index W' = w_current_task_index W \<and>
           length (w_tasks W') = length (w_tasks W) \<and>
           map task_content (w_tasks W') = map task_content (w_tasks W) \<and>
           new_id # tasks_ids (w_tasks W')
             = draws s (uuid_count s) (uuid_count s + Suc (length (tasks_ids (w_tasks W)))) \<and>
           distinct (new_id # tasks_ids (w_tasks W')) \<and>
           set (new_id # tasks_ids (w_tasks W')) \<inter> set (w_id W # tasks_ids (w_tasks W)) = {} \<and>
           tr = record_ids Map.empty (w_id W # tasks_ids (w_tasks W))
                  (new_id # tasks_ids (w_tasks W')) \<and>
           dom tr = set (w_id W # tasks_ids (w_tasks W)) \<and>
           tr (w_id W) = Some new_id \<and>
           (\<forall>j < length (w_tasks W). tr (t_id (w_tasks W ! j)) = Some (t_id (w_tasks W' ! j))) \<and>
           (\<forall>j < length (w_tasks W).
              t_dependencies (w_tasks W' ! j)
                = List.map_filter tr (t_dependencies (w_tasks W ! j)))"
proof -
  let ?c = "uuid_count s"
  let ?olds = "w_id W # tasks_ids (w_tasks W)"
  let ?n = "length (tasks_ids (w_tasks W))"
  \<comment> \<open>the export\<close>
  obtain ts1 s1 where c1: "copy_tasks s (w_tasks W) = (ts1, s1)"
    by (cases "copy_tasks s (w_tasks W)")
  note sp1 = copy_tasks_spec [OF c1]
  let ?snap = "W\<lparr>w_tasks := ts1\<rparr>"
  have ex: "export_workflow s wid = Inr (?snap, s1)"
    using W c1 by (simp add: export_workflow_def json_copy_def)
  have t1: "same_tables s s1" and n1: "uuid_count s1 = ?c"
    and r1: "list_all2 (\<lambda>t t'. t' = t\<lparr>t_data := t_data t'\<rparr>) (w_tasks W) ts1"
    using sp1 by simp_all
  \<comment> \<open>the import: the copy, the new workflow id, the new task and approval ids\<close>
  obtain ts2 s0 where c2: "copy_tasks s1 ts1 = (ts2, s0)"
    by (cases "copy_tasks s1 ts1")
  note sp2 = copy_tasks_spec [OF c2]
  have t2: "same_tables s1 s0" and n2: "uuid_count s0 = ?c"
    and r2: "list_all2 (\<lambda>t t'. t' = t\<lparr>t_data := t_data t'\<rparr>) ts1 ts2"
    using sp2 n1 by simp_all
  have src0: "uuid_source s0 = uuid_source s" and wf0: "workflows s0 = workflows s"
    using t1 t2 by (simp_all add: same_tables_def)
  let ?new = "uuid_source s ?c"
  let ?sA = "s0\<lparr>uuid_count := Suc ?c\<rparr>"
  obtain ts3 m sB where it: "import_tasks ?sA [w_id W \<mapsto> ?new] ts2 = (ts3, m, sB)"
    by (cases "import_tasks ?sA [w_id W \<mapsto> ?new] ts2") auto
  note sp3 = import_tasks_spec [OF it]
  have ids2: "tasks_ids ts2 = tasks_ids (w_tasks W)"
    using copied_tasks(1) [OF r1] copied_tasks(1) [OF r2] by simp
  have sB: "sB = ?sA\<lparr>uuid_count := Suc ?c + ?n\<rparr>"
    using sp3 [THEN conjunct1] ids2 by simp
  have "tasks_ids ts3 = draws ?sA (uuid_count ?sA) (uuid_count ?sA + length (tasks_ids ts2))"
    by (rule sp3 [THEN conjunct2, THEN conjunct1])
  then have ids3: "tasks_ids ts3 = draws s (Suc ?c) (Suc ?c + ?n)"
    using src0 by (simp add: ids2 draws_cong [of ?sA s])
  have r3: "list_all2 renamed_task ts2 ts3"
    by (rule sp3 [THEN conjunct2, THEN conjunct2, THEN conjunct1])
  have m: "m = record_ids [w_id W \<mapsto> ?new] (tasks_ids ts2) (tasks_ids ts3)"
    by (rule sp3 [THEN conjunct2, THEN conjunct2, THEN conjunct2])
  let ?ts' = "map (translate_dependencies m) ts3"
  let ?w' = "W\<lparr>w_id := ?new, w_tasks := ?ts'\<rparr>"
  let ?s3 = "sB\<lparr>workflows := (workflows sB)(?new \<mapsto> ?w')\<rparr>"
  let ?ev = "[(''workflow_id'', VStr ?new), (''workflow_name'', VStr (w_name W)),
              (''original_id'', VStr (w_id W))]"
  let ?s2 = "add_history_event ?s3 ?new ''workflow_imported'' ?ev"
  let ?W' = "?w'\<lparr>w_history := w_history W @
               [\<lparr>e_id = uuid_source ?s3 (uuid_count ?s3), e_type = ''workflow_imported'',
                 e_data = ?ev\<rparr>]\<rparr>"
  have im: "import_workflow s1 ?snap = (?new, ?s2)"
    using c2 it n2 src0 by (simp add: import_workflow_def json_copy_def uuid4_def)
  have W': "workflows ?s2 ?new = Some ?W'"
    by (simp add: workflows_add_history_event)
  have others: "workflows ?s2 wid' = workflows s wid'" if "wid' \<noteq> ?new" for wid'
    using that wf0 by (simp add: workflows_add_history_event sB)
  have old: "workflows s ?new = None"
    using fresh by (auto simp: uuid_fresh_def)
  \<comment> \<open>the tasks\<close>
  have content: "map task_content ?ts' = map task_content (w_tasks W)"
    using translated_tasks(2) [of m ts3] renamed_tasks(1) [OF r3]
      copied_tasks(2) [OF r2] copied_tasks(2) [OF r1] by simp
  have len: "length ?ts' = length (w_tasks W)"
    using list_all2_lengthD [OF r1] list_all2_lengthD [OF r2] list_all2_lengthD [OF r3] by simp
  have ids': "tasks_ids ?ts' = tasks_ids ts3" by (rule translated_tasks(1))
  have all: "?new # tasks_ids ?ts' = draws s ?c (?c + Suc ?n)"
    using draws_Suc [of ?c "?c + Suc ?n" s] by (simp add: ids' ids3)
  have dist: "distinct (?new # tasks_ids ?ts')"
    unfolding all using fresh by (auto simp: uuid_fresh_def intro: draws_distinct)
  have disj: "set (?new # tasks_ids ?ts') \<inter> set ?olds = {}"
    unfolding all using fresh by (auto simp: uuid_fresh_def draws_set)
  \<comment> \<open>the id mapping\<close>
  define news where "news = ?new # tasks_ids ts3"
  have news: "?new # tasks_ids ?ts' = news" by (simp add: news_def ids')
  have tr0: "m = record_ids Map.empty ?olds news"
    by (simp add: m ids2 news_def)
  have leq: "length ?olds = length news"
    by (simp add: news_def ids3 length_draws)
  have dom: "dom m = set ?olds"
    unfolding tr0 using record_ids_dom [OF leq, of Map.empty] by simp
  have nth: "m (?olds ! k) = Some (news ! k)" if "k < length ?olds" for k
    unfolding tr0 by (rule record_ids_nth [OF leq ids that])
  have wid: "m (w_id W) = Some ?new"
    using nth [of 0] by (simp add: news_def)
  have tr: "m = record_ids Map.empty ?olds (?new # tasks_ids ?ts')"
    by (subst news) (rule tr0)
  have lens: "list_all2 (\<lambda>t t'. length (task_ids t') = length (task_ids t)) (w_tasks W) ts3"
  proof (rule list_all2_all_nthI)
    show "length (w_tasks W) = length ts3" using len by simp
    fix j assume j: "j < length (w_tasks W)"
    have "task_ids (ts1 ! j) = task_ids (w_tasks W ! j)"
      using list_all2_nthD [OF r1 j] by (metis task.select_convs task_ids_def task.surjective task.update_convs(8))
    moreover have j1: "j < length ts1" using j list_all2_lengthD [OF r1] by simp
    have "task_ids (ts2 ! j) = task_ids (ts1 ! j)"
      using list_all2_nthD [OF r2 j1] by (metis task.select_convs task_ids_def task.surjective task.update_convs(8))
    moreover have j2: "j < length ts2" using j1 list_all2_lengthD [OF r2] by simp
    have "length (task_ids (ts3 ! j)) = length (task_ids (ts2 ! j))"
      using renamed_task_fields(3) [OF list_all2_nthD [OF r3 j2]] .
    ultimately show "length (task_ids (ts3 ! j)) = length (task_ids (w_tasks W ! j))" by simp
  qed
  have task: "m (t_id (w_tasks W ! j)) = Some (t_id (?ts' ! j))" if j: "j < length (w_tasks W)" for j
  proof -
    from task_id_position [OF lens j] obtain p where p: "p < ?n"
      "tasks_ids (w_tasks W) ! p = t_id (w_tasks W ! j)" "tasks_ids ts3 ! p = t_id (ts3 ! j)"
      by blast
    have "m (?olds ! Suc p) = Some (news ! Suc p)" using p(1) by (intro nth) simp
    then have "m (t_id (w_tasks W ! j)) = Some (t_id (ts3 ! j))"
      using p by (simp add: news_def)
    moreover have "t_id (?ts' ! j) = t_id (ts3 ! j)"
      using j len by (simp add: translate_dependencies_def)
    ultimately show ?thesis by simp
  qed
  have deps: "t_dependencies (?ts' ! j) = List.map_filter m (t_dependencies (w_tasks W ! j))"
    if j: "j < length (w_tasks W)" for j
  proof -
    have "map t_dependencies ts3 = map t_dependencies (w_tasks W)"
      using renamed_tasks(2) [OF r3] copied_tasks(3) [OF r2] copied_tasks(3) [OF r1] by simp
    then have "t_dependencies (ts3 ! j) = t_dependencies (w_tasks W ! j)"
      using j len by (metis length_map nth_map)
    then show ?thesis using j len by (simp add: translate_dependencies_def)
  qed
  define Wn where "Wn = ?W'"
  have Wn: "workflows ?s2 ?new = Some Wn"
    unfolding Wn_def by (rule W')
  have f: "w_id Wn = ?new" "w_status Wn = w_status W"
    "w_current_task_index Wn = w_current_task_index W" "w_tasks Wn = ?ts'"
    by (simp_all add: Wn_def)
  have oth: "\<forall>wid'. wid' \<noteq> ?new \<longrightarrow> workflows ?s2 wid' = workflows s wid'"
    using others by blast
  have g1: "length (w_tasks Wn) = length (w_tasks W)"
    by (simp only: f(4) len)
  have g2: "map task_content (w_tasks Wn) = map task_content (w_tasks W)"
    by (simp only: f(4) content)
  have g3: "?new # tasks_ids (w_tasks Wn) = draws s ?c (?c + Suc ?n)"
    by (simp only: f(4) all)
  have g4: "distinct (?new # tasks_ids (w_tasks Wn))"
    using dist by (simp only: f(4))
  have g5: "set (?new # tasks_ids (w_tasks Wn)) \<inter> set ?olds = {}"
    using disj by (simp only: f(4))
  have g6: "m = record_ids Map.empty ?olds (?new # tasks_ids (w_tasks Wn))"
    by (subst f(4)) (rule tr)
  have g7: "\<forall>j < length (w_tasks W). m (t_id (w_tasks W ! j)) = Some (t_id (w_tasks Wn ! j))"
    using task by (simp only: f(4)) blast
  have g8: "\<forall>j < length (w_tasks W).
              t_dependencies (w_tasks Wn ! j) = List.map_filter m (t_dependencies (w_tasks W ! j))"
    using deps by (simp only: f(4)) blast
  show ?thesis
    apply (rule exI [where x = ?snap], rule exI [where x = s1], rule exI [where x = ?new])
    apply (rule exI [where x = ?s2], rule exI [where x = Wn], rule exI [where x = m])
    apply (intro conjI)
                     apply (rule ex)
                    apply (rule im)
                   apply (rule old)
                  apply (rule Wn)
                 apply (rule f(1))
                apply (rule oth)
               apply (rule f(2))
              apply (rule f(3))
             apply (rule g1)
            apply (rule g2)
           apply (rule g3)
          apply (rule g4)
         apply (rule g5)
        apply (rule g6)
       apply (rule dom)
      apply (rule wid)
     apply (rule g7)
    apply (rule g8)
    done
qed

lemma memo_engine_workflows: "workflows memo_engine = [''u'' \<mapsto> memo_workflow]"
  by (simp add: memo_engine_def memo_snapshot_def memo_workflow_def import_workflow_def
      json_copy_def translate_dependencies_def List.map_filter_def eval_simps)

lemma memo_engine_fields:
  "uuid_count memo_engine = 5" "uuid_source memo_engine = demo_uuid"
  by (simp_all add: memo_engine_def memo_snapshot_def import_workflow_def
      json_copy_def translate_dependencies_def List.map_filter_def eval_simps)

lemma letter_created_workflows: "workflows letter_created = [''u'' \<mapsto> letter_workflow]"
  by (simp add: letter_created_def letter_engine_def letter_template_def letter_workflow_def
      eval_simps)

lemma letter_created_fields:
  "uuid_count letter_created = 5" "uuid_source letter_created = demo_uuid"
  by (simp_all add: letter_created_def letter_engine_def letter_template_def eval_simps)

lemma uuid_fresh_demo:
  assumes "uuid_source s = demo_uuid" "\<forall>x \<in> X. length x \<le> uuid_count s"
  shows "uuid_fresh s X"
  using assms by (auto simp: uuid_fresh_def demo_uuid_inj demo_uuid_def)

lemma map_length_two: "length xs = 2 \<Longrightarrow> map f xs = [f (xs ! 0), f (xs ! 1)]"
  by (cases xs; cases "tl xs") auto

text \<open>
  In \<open>memo_engine\<close> the sending step of workflow \<open>u\<close> depends on the draft \<open>ux\<close>: in the
  re-imported workflow it depends on the new id of the draft. In \<open>letter_created\<close> it
  depends on \<open>draft\<close>, an id of the template that no task of the workflow has: the
  re-imported workflow has no dependency.
\<close>

theorem export_import_workflow_witness:
  "(\<exists>snapshot s1 new_id s2 W'.
       export_workflow memo_engine ''u'' = Inr (snapshot, s1) \<and>
       import_workflow s1 snapshot = (new_id, s2) \<and>
       workflows s2 ''u'' = Some memo_workflow \<and>
       workflows s2 new_id = Some W' \<and>
       new_id = demo_uuid 5 \<and>
       map t_dependencies (w_tasks memo_workflow) = [[], [''ux'']] \<and>
       map t_id (w_tasks W') = [demo_uuid 6, demo_uuid 8] \<and>
       map t_dependencies (w_tasks W') = [[], [demo_uuid 6]]) \<and>
   (\<exists>snapshot s1 new_id s2 W'.
       export_workflow letter_created ''u'' = Inr (snapshot, s1) \<and>
       import_workflow s1 snapshot = (new_id, s2) \<and>
       workflows s2 new_id = Some W' \<and>
       map t_dependencies (w_tasks letter_workflow) = [[], [''draft'']] \<and>
       map t_id (w_tasks W') = [demo_uuid 6, demo_uuid 8] \<and>
       map t_dependencies (w_tasks W') = [[], []])"
proof -
  have olds: "w_id memo_workflow # tasks_ids (w_tasks memo_workflow) = [''u'', ''ux'', ''uxx'', ''uxxx'']"
    "w_id letter_workflow # tasks_ids (w_tasks letter_workflow) = [''u'', ''ux'', ''uxx'', ''uxxx'']"
    by (simp_all add: memo_workflow_def letter_workflow_def task_ids_def)
  have ds: "draws memo_engine (uuid_count memo_engine) (uuid_count memo_engine + Suc 3)
              = [demo_uuid 5, demo_uuid 6, demo_uuid 7, demo_uuid 8]"
    "draws letter_created (uuid_count letter_created) (uuid_count letter_created + Suc 3)
              = [demo_uuid 5, demo_uuid 6, demo_uuid 7, demo_uuid 8]"
    by (simp_all add: draws_def memo_engine_fields letter_created_fields upt_rec_numeral)
  have n3: "length (tasks_ids (w_tasks memo_workflow)) = 3"
    "length (tasks_ids (w_tasks letter_workflow)) = 3"
    by (simp_all add: memo_workflow_def letter_workflow_def task_ids_def)
  have l2: "length (w_tasks memo_workflow) = 2" "length (w_tasks letter_workflow) = 2"
    by (simp_all add: memo_workflow_def letter_workflow_def)
  have news: "demo_uuid 5 \<noteq> ''u''"
    by (simp add: demo_uuid_def eval_nat_numeral)
  \<comment> \<open>the imported memo\<close>
  have w: "workflows memo_engine ''u'' = Some memo_workflow"
    by (simp add: memo_engine_workflows)
  have ids: "distinct (w_id memo_workflow # tasks_ids (w_tasks memo_workflow))"
    by (simp add: olds)
  have fresh: "uuid_fresh memo_engine
                 (set (w_id memo_workflow # tasks_ids (w_tasks memo_workflow))
                  \<union> dom (workflows memo_engine))"
    by (rule uuid_fresh_demo) (simp_all add: memo_engine_fields olds memo_engine_workflows)
  from export_import_workflow [OF w ids fresh]
  obtain snapshot s1 new_id s2 W' tr where
    a: "export_workflow memo_engine ''u'' = Inr (snapshot, s1)"
       "import_workflow s1 snapshot = (new_id, s2)"
       "workflows s2 new_id = Some W'"
    and oth: "\<forall>wid'. wid' \<noteq> new_id \<longrightarrow> workflows s2 wid' = workflows memo_engine wid'"
    and len: "length (w_tasks W') = length (w_tasks memo_workflow)"
    and all: "new_id # tasks_ids (w_tasks W')
                = draws memo_engine (uuid_count memo_engine)
                    (uuid_count memo_engine + Suc (length (tasks_ids (w_tasks memo_workflow))))"
    and tr: "tr = record_ids Map.empty (w_id memo_workflow # tasks_ids (w_tasks memo_workflow))
                    (new_id # tasks_ids (w_tasks W'))"
    and task: "\<forall>j < length (w_tasks memo_workflow).
                 tr (t_id (w_tasks memo_workflow ! j)) = Some (t_id (w_tasks W' ! j))"
    and deps: "\<forall>j < length (w_tasks memo_workflow).
                 t_dependencies (w_tasks W' ! j)
                   = List.map_filter tr (t_dependencies (w_tasks memo_workflow ! j))"
    by blast
  have all': "new_id # tasks_ids (w_tasks W') = [demo_uuid 5, demo_uuid 6, demo_uuid 7, demo_uuid 8]"
    using all by (simp only: n3 ds)
  then have nid: "new_id = demo_uuid 5" by simp
  have tr': "tr = record_ids Map.empty [''u'', ''ux'', ''uxx'', ''uxxx'']
                    [demo_uuid 5, demo_uuid 6, demo_uuid 7, demo_uuid 8]"
    using tr by (simp only: all' olds)
  have trv: "tr ''ux'' = Some (demo_uuid 6)" "tr ''uxxx'' = Some (demo_uuid 8)"
    by (simp_all add: tr')
  have t0: "t_id (w_tasks W' ! 0) = demo_uuid 6"
    using task [rule_format, of 0] trv by (simp add: memo_workflow_def)
  have t1: "t_id (w_tasks W' ! 1) = demo_uuid 8"
    using task [rule_format, of 1] trv by (simp add: memo_workflow_def)
  have d0: "t_dependencies (w_tasks W' ! 0) = []"
    using deps [rule_format, of 0] by (simp add: memo_workflow_def List.map_filter_def)
  have d1: "t_dependencies (w_tasks W' ! 1) = [demo_uuid 6]"
    using deps [rule_format, of 1] trv by (simp add: memo_workflow_def List.map_filter_def)
  have len': "length (w_tasks W') = 2" using len l2 by simp
  have tids: "map t_id (w_tasks W') = [demo_uuid 6, demo_uuid 8]"
    using map_length_two [OF len', of t_id] t0 t1 by simp
  have tdeps: "map t_dependencies (w_tasks W') = [[], [demo_uuid 6]]"
    using map_length_two [OF len', of t_dependencies] d0 d1 by simp
  have kept: "workflows s2 ''u'' = Some memo_workflow"
    using oth [rule_format, of "''u''"] nid news w by simp
  have odeps: "map t_dependencies (w_tasks memo_workflow) = [[], [''ux'']]"
    by (simp add: memo_workflow_def)
  from a kept nid odeps tids tdeps
  have first: "\<exists>snapshot s1 new_id s2 W'.
       export_workflow memo_engine ''u'' = Inr (snapshot, s1) \<and>
       import_workflow s1 snapshot = (new_id, s2) \<and>
       workflows s2 ''u'' = Some memo_workflow \<and>
       workflows s2 new_id = Some W' \<and>
       new_id = demo_uuid 5 \<and>
       map t_dependencies (w_tasks memo_workflow) = [[], [''ux'']] \<and>
       map t_id (w_tasks W') = [demo_uuid 6, demo_uuid 8] \<and>
       map t_dependencies (w_tasks W') = [[], [demo_uuid 6]]"
    by (intro exI conjI) assumption+
  \<comment> \<open>the created letter\<close>
  have w: "workflows letter_created ''u'' = Some letter_workflow"
    by (simp add: letter_created_workflows)
  have ids: "distinct (w_id letter_workflow # tasks_ids (w_tasks letter_workflow))"
    by (simp add: olds)
  have fresh: "uuid_fresh letter_created
                 (set (w_id letter_workflow # tasks_ids (w_tasks letter_workflow))
                  \<union> dom (workflows letter_created))"
    by (rule uuid_fresh_demo) (simp_all add: letter_created_fields olds letter_created_workflows)
  from export_import_workflow [OF w ids fresh]
  obtain snapshot s1 new_id s2 W' tr where
    a: "export_workflow letter_created ''u'' = Inr (snapshot, s1)"
       "import_workflow s1 snapshot = (new_id, s2)"
       "workflows s2 new_id = Some W'"
    and len: "length (w_tasks W') = length (w_tasks letter_workflow)"
    and all: "new_id # tasks_ids (w_tasks W')
                = draws letter_created (uuid_count letter_created)
                    (uuid_count letter_created + Suc (length (tasks_ids (w_tasks letter_workflow))))"
    and tr: "tr = record_ids Map.empty (w_id letter_workflow # tasks_ids (w_tasks letter_workflow))
                    (new_id # tasks_ids (w_tasks W'))"
    and task: "\<forall>j < length (w_tasks letter_workflow).
                 tr (t_id (w_tasks letter_workflow ! j)) = Some (t_id (w_tasks W' ! j))"
    and deps: "\<forall>j < length (w_tasks letter_workflow).
                 t_dependencies (w_tasks W' ! j)
                   = List.map_filter tr (t_dependencies (w_tasks letter_workflow ! j))"
    by blast
  have all': "new_id # tasks_ids (w_tasks W') = [demo_uuid 5, demo_uuid 6, demo_uuid 7, demo_uuid 8]"
    using all by (simp only: n3 ds)
  have tr': "tr = record_ids Map.empty [''u'', ''ux'', ''uxx'', ''uxxx'']
                    [demo_uuid 5, demo_uuid 6, demo_uuid 7, demo_uuid 8]"
    using tr by (simp only: all' olds)
  have trv: "tr ''ux'' = Some (demo_uuid 6)" "tr ''uxxx'' = Some (demo_uuid 8)"
    "tr ''draft'' = None"
    by (simp_all add: tr')
  have t0: "t_id (w_tasks W' ! 0) = demo_uuid 6"
    using task [rule_format, of 0] trv by (simp add: letter_workflow_def)
  have t1: "t_id (w_tasks W' ! 1) = demo_uuid 8"
    using task [rule_format, of 1] trv by (simp add: letter_workflow_def)
  have d0: "t_dependencies (w_tasks W' ! 0) = []"
    using deps [rule_format, of 0] by (simp add: letter_workflow_def List.map_filter_def)
  have d1: "t_dependencies (w_tasks W' ! 1) = []"
    using deps [rule_format, of 1] trv by (simp add: letter_workflow_def List.map_filter_def)
  have len': "length (w_tasks W') = 2" using len l2 by simp
  have tids: "map t_id (w_tasks W') = [demo_uuid 6, demo_uuid 8]"
    using map_length_two [OF len', of t_id] t0 t1 by simp
  have tdeps: "map t_dependencies (w_tasks W') = [[], []]"
    using map_length_two [OF len', of t_dependencies] d0 d1 by simp
  have odeps: "map t_dependencies (w_tasks letter_workflow) = [[], [''draft'']]"
    by (simp add: letter_workflow_def)
  from a odeps tids tdeps
  have second: "\<exists>snapshot s1 new_id s2 W'.
       export_workflow letter_created ''u'' = Inr (snapshot, s1) \<and>
       import_workflow s1 snapshot = (new_id, s2) \<and>
       workflows s2 new_id = Some W' \<and>
       map t_dependencies (w_tasks letter_workflow) = [[], [''draft'']] \<and>
       map t_id (w_tasks W') = [demo_uuid 6, demo_uuid 8] \<and>
       map t_dependencies (w_tasks W') = [[], []]"
    by (intro exI conjI) assumption+
  from first second show ?thesis by (rule conjI)
qed

section \<open>A call writes the workflow it names\<close>



lemma only_workflow_evolves: "evolves s s' wid \<Longrightarrow> only_workflow s s' wid"
  by (simp add: only_workflow_def evolves_def)

lemma only_workflow_upd_workflow [simp]: "only_workflow s (upd_workflow s wid f) wid"
  by (simp add: only_workflow_def workflows_simps)

lemma only_workflow_upd_task [simp]: "only_workflow s (upd_task s wid i f) wid"
  by (simp add: only_workflow_def workflows_simps)

lemma only_workflow_add_history_event [simp]:
  "only_workflow s (add_history_event s wid ty d) wid"
  by (simp add: only_workflow_def workflows_simps uuid_count_add_history_event)

lemma only_workflow_fail_task [simp]: "only_workflow s (fail_task s wid i reason) wid"
  by (rule only_workflow_evolves) (rule evolves_fail_task)

lemma only_workflow_process_next_task [simp]:
  "only_workflow s (engine_of (process_next_task s wid)) wid"
  by (rule only_workflow_evolves) (rule evolves_execution)

lemma only_workflow_execute_task [simp]:
  "only_workflow s (engine_of (execute_task s wid tid)) wid"
  by (rule only_workflow_evolves) (rule evolves_execution)
















section \<open>A stuck workflow\<close>










lemma fresh_id_evolves: "evolves s s' wid' \<Longrightarrow> fresh_id s wid \<Longrightarrow> fresh_id s' wid"
  by (auto simp: evolves_def fresh_id_def)

section \<open>C3: a dependency that is not met\<close>





end
